theory Spec2Isabelle
  imports Main "HOL-Library.Word"
begin

unbundle bit_operations_syntax

section \<open>SOFS14: data model\<close>

text \<open>
  A shallow embedding of the SOFS14 file-system core (directories \<open>sofs_ifuncs_1\<close> to
  \<open>sofs_ifuncs_4\<close>) and of the formatter \<open>mkfs_sofs14.c\<close>.

  The block-buffered I/O layer is outside the sources.  It is modelled as a transparent
  store: the superblock, the table of inodes and the data zone are components of one state
  record, a load followed by a modification through the returned pointer and a store is an
  update of that component, and device I/O itself never fails.  Data clusters are addressed
  by their logical number; an access to a logical number outside the data zone is the
  error \<open>EIO\<close>.
\<close>

type_synonym u8 = "8 word"
type_synonym u16 = "16 word"
type_synonym u32 = "32 word"

text \<open>
  Error codes.  \<open>UB\<close> is not an error code of the program: it marks an execution that
  leaves defined C behaviour (an array read or write outside its bounds, a read of an
  uninitialised variable).  \<open>LAYOUT\<close> marks a read of a member of the cluster union other
  than the one that was stored, whose result depends on the byte layout.
\<close>

datatype error =
    EINVAL | ENOSPC | EACCES | EPERM | ENOENT | EEXIST | ENOTDIR | ENAMETOOLONG | EMLINK
  | ENOTEMPTY | EFBIG | EIUININVAL | EFDININVAL | EFININVAL | ELDCININVAL | EDCINVAL
  | EDCARDYIL | EDCNOTIL | EDCNALINVAL | EWGINODENB | EDIRINVAL | EDEINVAL | EDCMINVAL
  | ELIBBAD | EIO | UB | LAYOUT

definition ebind :: "error + 'a \<Rightarrow> ('a \<Rightarrow> error + 'b) \<Rightarrow> error + 'b" where
  "ebind m f = (case m of Inl e \<Rightarrow> Inl e | Inr x \<Rightarrow> f x)"

text \<open>A check that answers an error code or nothing: \<open>if ((stat = check) != 0) return stat\<close>.\<close>

definition echeck :: "error option \<Rightarrow> (error + 'a) \<Rightarrow> error + 'a" where
  "echeck c m = (case c of Some e \<Rightarrow> Inl e | None \<Rightarrow> m)"

text \<open>
  Modelled from the spec: the constants of the absent header \<open>sofs_const.h\<close> and of the
  absent structure declarations.  The sizes are parameters of the model; the sentinels are
  the all-ones 32-bit words.
\<close>

record params =
  N_DIRECT :: nat
  RPC :: nat
  DPC :: nat
  IPB :: nat
  MAX_NAME :: nat
  DZONE_CACHE_SIZE :: nat

definition NULL_INODE :: u32 where "NULL_INODE = - 1"
definition NULL_CLUSTER :: u32 where "NULL_CLUSTER = - 1"

definition MAX_FILE_CLUSTERS :: "'a params_scheme \<Rightarrow> nat" where
  "MAX_FILE_CLUSTERS k = N_DIRECT k + RPC k + RPC k * RPC k"

definition sizeof_SODirEntry :: "'a params_scheme \<Rightarrow> nat" where
  "sizeof_SODirEntry k = MAX_NAME k + 1 + 4"

text \<open>
  Modelled from the spec: the mode bit assignments of the absent header \<open>sofs_inode.h\<close>
  (the free flag, the three type bits and the nine permission bits in the UNIX layout).
\<close>

definition INODE_FREE :: u16 where "INODE_FREE = 0x1000"
definition INODE_DIR :: u16 where "INODE_DIR = 0x0800"
definition INODE_FILE :: u16 where "INODE_FILE = 0x0400"
definition INODE_SYMLINK :: u16 where "INODE_SYMLINK = 0x0200"
definition INODE_TYPE_MASK :: u16 where
  "INODE_TYPE_MASK = INODE_DIR OR INODE_FILE OR INODE_SYMLINK"
definition INODE_RD_USR :: u16 where "INODE_RD_USR = 0x0100"
definition INODE_WR_USR :: u16 where "INODE_WR_USR = 0x0080"
definition INODE_EX_USR :: u16 where "INODE_EX_USR = 0x0040"
definition INODE_RD_GRP :: u16 where "INODE_RD_GRP = 0x0020"
definition INODE_WR_GRP :: u16 where "INODE_WR_GRP = 0x0010"
definition INODE_EX_GRP :: u16 where "INODE_EX_GRP = 0x0008"
definition INODE_RD_OTH :: u16 where "INODE_RD_OTH = 0x0004"
definition INODE_WR_OTH :: u16 where "INODE_WR_OTH = 0x0002"
definition INODE_EX_OTH :: u16 where "INODE_EX_OTH = 0x0001"

text \<open>Inode status values and operation masks, as the \<open>#define\<close>s of the sources.\<close>

definition IUIN :: u32 where "IUIN = 0"
definition FDIN :: u32 where "FDIN = 1"

definition R :: u32 where "R = 0x0004"
definition W :: u32 where "W = 0x0002"
definition X :: u32 where "X = 0x0001"

subsection \<open>Structures\<close>

record fCNode =
  cacheIdx :: u32
  cache :: "u32 list"

record SOSuperBlock =
  magic :: u32
  nTotal :: u32
  iTableStart :: u32
  iTableSize :: u32
  iTotal :: u32
  iFree :: u32
  iHead :: u32
  iTail :: u32
  dZoneStart :: u32
  dZoneTotal :: u32
  dZoneFree :: u32
  dHead :: u32
  dTail :: u32
  dZoneRetriev :: fCNode
  dZoneInsert :: fCNode

text \<open>
  The unions \<open>vD1\<close> (\<open>aTime\<close> / \<open>next\<close>) and \<open>vD2\<close> (\<open>mTime\<close> / \<open>prev\<close>) are one
  32-bit field each, as in memory.  The field \<open>size\<close> is \<open>size_ino\<close> here, and the
  fields of a directory entry carry the prefix \<open>de_\<close>.
\<close>

record SOInode =
  mode :: u16
  refCount :: u16
  owner :: u32
  group :: u32
  size_ino :: u32
  cluCount :: u32
  vD1 :: u32
  vD2 :: u32
  d :: "u32 list"
  i1 :: u32
  i2 :: u32

record SODirEntry =
  de_name :: "char list"
  de_nInode :: u32

text \<open>
  The union \<open>info\<close> of a data cluster: a byte stream, a table of references or a table of
  directory entries.  \<open>Zero\<close> is the content all of whose bytes are 0, which every member
  can read.
\<close>

datatype info = Zero | Data "u8 list" | Ref "u32 list" | De "SODirEntry list"

record SODataClust =
  prev :: u32
  "next" :: u32
  stat :: u32
  info :: info

text \<open>
  The state: the working superblock, the table of inodes, the data zone, and what the
  system calls \<open>getuid\<close>, \<open>getgid\<close>, \<open>geteuid\<close>, \<open>getegid\<close> and \<open>time\<close> answer (the
  sources never call \<open>getegid\<close>).
\<close>

record sofs =
  sb :: SOSuperBlock
  itable :: "u32 \<Rightarrow> SOInode"
  dzone :: "u32 \<Rightarrow> SODataClust"
  uid :: u32
  gid :: u32
  euid :: u32
  egid :: u32
  now :: u32

text \<open>
  The function \<open>soCleanDataCluster\<close> (called by \<open>soAllocDataCluster\<close> on a cluster in the
  dirty state) and the function \<open>soCheckDirectoryEmptiness\<close> are not among the sources.
  They are parameters of the model, next to the sizes.
\<close>

record conf = params +
  soCleanDataCluster :: "sofs \<Rightarrow> u32 \<Rightarrow> u32 \<Rightarrow> error + sofs"
  soCheckDirectoryEmptiness :: "sofs \<Rightarrow> u32 \<Rightarrow> error + sofs"

section \<open>Inode layer\<close>

text \<open>
  Modelled from the spec: the quick checks \<open>soQCheckInodeIU\<close> and \<open>soQCheckFDInode\<close> of
  the absent consistency library.  An inode in use has the free flag clear and exactly one
  of the three legal types; a free inode in the dirty state has the free flag set and
  exactly one legal type.
\<close>

definition legal_type :: "u16 \<Rightarrow> bool" where
  "legal_type m \<longleftrightarrow>
     m AND INODE_TYPE_MASK = INODE_DIR \<or> m AND INODE_TYPE_MASK = INODE_FILE \<or>
     m AND INODE_TYPE_MASK = INODE_SYMLINK"

definition soQCheckInodeIU :: "SOInode \<Rightarrow> error option" where
  "soQCheckInodeIU ino =
     (if mode ino AND INODE_FREE = 0 \<and> legal_type (mode ino) then None else Some EIUININVAL)"

definition soQCheckFDInode :: "SOInode \<Rightarrow> error option" where
  "soQCheckFDInode ino =
     (if mode ino AND INODE_FREE = INODE_FREE \<and> legal_type (mode ino) then None
      else Some EFDININVAL)"

definition soReadInode :: "sofs \<Rightarrow> u32 \<Rightarrow> u32 \<Rightarrow> error + SOInode \<times> sofs" where
  "soReadInode st nInode status =
     (if nInode \<ge> iTotal (sb st) then Inl EINVAL
      else if status \<noteq> IUIN \<and> status \<noteq> FDIN then Inl EINVAL
      else
        let p_inodeTemp = itable st nInode in
        echeck (if status = IUIN then soQCheckInodeIU p_inodeTemp
                else soQCheckFDInode p_inodeTemp)
          (let p_inodeTemp = (if status = IUIN then p_inodeTemp\<lparr>vD1 := now st\<rparr>
                              else p_inodeTemp)
           in Inr (p_inodeTemp, st\<lparr>itable := (itable st)(nInode := p_inodeTemp)\<rparr>)))"

definition soWriteInode :: "sofs \<Rightarrow> SOInode \<Rightarrow> u32 \<Rightarrow> u32 \<Rightarrow> error + sofs" where
  "soWriteInode st p_inode nInode status =
     (if nInode \<ge> iTotal (sb st) then Inl EINVAL
      else if status \<noteq> IUIN \<and> status \<noteq> FDIN then Inl EINVAL
      else
        echeck (if status = IUIN then soQCheckInodeIU p_inode else soQCheckFDInode p_inode)
          (let po_inode = (if status = IUIN then p_inode\<lparr>vD1 := now st, vD2 := now st\<rparr>
                           else p_inode)
           in Inr (st\<lparr>itable := (itable st)(nInode := po_inode)\<rparr>)))"

text \<open>
  \<open>soAccessGranted\<close>.  The three branches for owner, group and other test the read, write
  and execute bits of the class in this order.
\<close>

definition check_class :: "u16 \<Rightarrow> u32 \<Rightarrow> u16 \<Rightarrow> u16 \<Rightarrow> u16 \<Rightarrow> bool" where
  "check_class m opRequested rd wr ex \<longleftrightarrow>
     \<not> (opRequested AND R \<noteq> 0 \<and> m AND rd \<noteq> rd) \<and>
     \<not> (opRequested AND W \<noteq> 0 \<and> m AND wr \<noteq> wr) \<and>
     \<not> (opRequested AND X \<noteq> 0 \<and> m AND ex \<noteq> ex)"

definition soAccessGranted :: "sofs \<Rightarrow> u32 \<Rightarrow> u32 \<Rightarrow> error + sofs" where
  "soAccessGranted st nInode opRequested =
     (if opRequested < 1 \<or> opRequested > 7 then Inl EINVAL
      else if nInode \<ge> iTotal (sb st) then Inl EINVAL
      else ebind (soReadInode st nInode IUIN) (\<lambda>(inode, st).
        if euid st = 0 then
          (if opRequested AND X \<noteq> 0 \<and>
              mode inode AND (INODE_EX_USR OR INODE_EX_GRP OR INODE_EX_OTH) = 0
           then Inl EACCES else Inr st)
        else if uid st = owner inode then
          (if check_class (mode inode) opRequested INODE_RD_USR INODE_WR_USR INODE_EX_USR
           then Inr st else Inl EACCES)
        else if gid st = group inode then
          (if check_class (mode inode) opRequested INODE_RD_GRP INODE_WR_GRP INODE_EX_GRP
           then Inr st else Inl EACCES)
        else
          (if check_class (mode inode) opRequested INODE_RD_OTH INODE_WR_OTH INODE_EX_OTH
           then Inr st else Inl EACCES)))"


section \<open>Loops and arrays\<close>

text \<open>
  A counted \<open>for\<close> loop whose body may return an error: the body runs for the indices of
  the list in order and the first error ends the loop.
\<close>

fun for_loop :: "nat list \<Rightarrow> (nat \<Rightarrow> 's \<Rightarrow> error + 's) \<Rightarrow> 's \<Rightarrow> error + 's" where
  "for_loop [] body s = Inr s"
| "for_loop (i # js) body s = ebind (body i s) (for_loop js body)"

text \<open>An array access outside the bounds of a C array is undefined behaviour.\<close>

definition arr_get :: "'a list \<Rightarrow> nat \<Rightarrow> error + 'a" where
  "arr_get xs i = (if i < length xs then Inr (xs ! i) else Inl UB)"

definition arr_set :: "'a list \<Rightarrow> nat \<Rightarrow> 'a \<Rightarrow> error + 'a list" where
  "arr_set xs i v = (if i < length xs then Inr (xs[i := v]) else Inl UB)"

text \<open>Reading and writing a data cluster by its logical number.\<close>

definition soReadCacheCluster :: "sofs \<Rightarrow> u32 \<Rightarrow> error + SODataClust" where
  "soReadCacheCluster st nClust =
     (if nClust < dZoneTotal (sb st) then Inr (dzone st nClust) else Inl EIO)"

definition soWriteCacheCluster :: "sofs \<Rightarrow> u32 \<Rightarrow> SODataClust \<Rightarrow> error + sofs" where
  "soWriteCacheCluster st nClust dc =
     (if nClust < dZoneTotal (sb st) then Inr (st\<lparr>dzone := (dzone st)(nClust := dc)\<rparr>)
      else Inl EIO)"

text \<open>
  The members \<open>ref\<close> and \<open>de\<close> of the cluster union, read from a stored content.
\<close>

definition zero_de :: "'a params_scheme \<Rightarrow> SODirEntry" where
  "zero_de k = \<lparr>de_name = replicate (MAX_NAME k + 1) (CHR 0x00), de_nInode = 0\<rparr>"

definition info_ref :: "'a params_scheme \<Rightarrow> info \<Rightarrow> error + u32 list" where
  "info_ref k c =
     (case c of
        Ref rs \<Rightarrow> if length rs = RPC k then Inr rs else Inl LAYOUT
      | Zero \<Rightarrow> Inr (replicate (RPC k) 0)
      | _ \<Rightarrow> Inl LAYOUT)"

definition info_de :: "'a params_scheme \<Rightarrow> info \<Rightarrow> error + SODirEntry list" where
  "info_de k c =
     (case c of
        De es \<Rightarrow> if length es = DPC k \<and> list_all (\<lambda>e. length (de_name e) = MAX_NAME k + 1) es
                 then Inr es else Inl LAYOUT
      | Zero \<Rightarrow> Inr (replicate (DPC k) (zero_de k))
      | _ \<Rightarrow> Inl LAYOUT)"

section \<open>The formatter\<close>

definition fillInSuperBlock ::
  "'a params_scheme \<Rightarrow> SOSuperBlock \<Rightarrow> u32 \<Rightarrow> u32 \<Rightarrow> u32 \<Rightarrow> SOSuperBlock" where
  "fillInSuperBlock k p_sb ntotal itotal nclusttotal =
     (let iTableSize_v = itotal div of_nat (IPB k) in
      p_sb\<lparr>magic := 0xFFFF,
            nTotal := ntotal,
            iTableStart := 1,
            iTableSize := iTableSize_v,
            iTotal := itotal,
            iFree := itotal - 1,
            iHead := 1,
            iTail := itotal - 1,
            dZoneStart := 1 + iTableSize_v,
            dZoneTotal := nclusttotal,
            dZoneFree := nclusttotal - 1,
            dHead := 1,
            dTail := nclusttotal - 1,
            dZoneRetriev := \<lparr>cacheIdx = of_nat (DZONE_CACHE_SIZE k),
                             cache = replicate (DZONE_CACHE_SIZE k) NULL_CLUSTER\<rparr>,
            dZoneInsert := \<lparr>cacheIdx = 0,
                            cache = replicate (DZONE_CACHE_SIZE k) NULL_CLUSTER\<rparr>\<rparr>)"

text \<open>
  The body of the inner loop of \<open>fillInINT\<close> for the inode whose number is \<open>inode\<close>: the
  generic initialisation and then the three specific cases, each an \<open>if\<close> of its own.
\<close>

definition fillInINT_inode :: "'a params_scheme \<Rightarrow> sofs \<Rightarrow> u32 \<Rightarrow> SOInode" where
  "fillInINT_inode k st inode =
     (let soin = \<lparr>mode = INODE_FREE, refCount = 0, owner = 0, group = 0, size_ino = 0,
                   cluCount = 0, vD1 = inode + 1, vD2 = inode - 1,
                   d = replicate (N_DIRECT k) NULL_CLUSTER,
                   i1 = NULL_CLUSTER, i2 = NULL_CLUSTER\<rparr>;
          soin = (if inode = 0 then
                    soin\<lparr>mode := INODE_DIR OR INODE_RD_USR OR INODE_WR_USR OR INODE_EX_USR OR
                                 INODE_RD_GRP OR INODE_WR_GRP OR INODE_EX_GRP OR
                                 INODE_RD_OTH OR INODE_WR_OTH OR INODE_EX_OTH,
                         refCount := 2, owner := uid st, group := gid st,
                         size_ino := of_nat (DPC k * sizeof_SODirEntry k),
                         cluCount := 1, vD1 := now st, vD2 := now st,
                         d := (d soin)[0 := 0]\<rparr>
                  else soin);
          soin = (if inode = 1 then soin\<lparr>vD1 := inode + 1, vD2 := NULL_INODE\<rparr> else soin);
          soin = (if inode = iTotal (sb st) - 1
                  then soin\<lparr>vD1 := NULL_INODE, vD2 := inode - 1\<rparr> else soin)
      in soin)"

definition fillInINT :: "'a params_scheme \<Rightarrow> sofs \<Rightarrow> sofs" where
  "fillInINT k st =
     fold (\<lambda>nblk st.
        fold (\<lambda>i st.
          let inode = of_nat (IPB k) * of_nat nblk + of_nat i in
          st\<lparr>itable := (itable st)(inode := fillInINT_inode k st inode)\<rparr>)
          [0 ..< IPB k] st)
       [0 ..< unat (iTableSize (sb st))] st"

definition fillInRootDir :: "'a params_scheme \<Rightarrow> sofs \<Rightarrow> sofs" where
  "fillInRootDir k st =
     (let dot = \<lparr>de_name = take (MAX_NAME k + 1) (''.'' @ replicate (MAX_NAME k + 1) (CHR 0x00)),
                  de_nInode = 0\<rparr>;
          dotdot = \<lparr>de_name = take (MAX_NAME k + 1) (''..'' @ replicate (MAX_NAME k + 1) (CHR 0x00)),
                     de_nInode = 0\<rparr>;
          empty = \<lparr>de_name = replicate (MAX_NAME k + 1) (CHR 0x00), de_nInode = NULL_INODE\<rparr>;
          dc = \<lparr>prev = NULL_CLUSTER, next = NULL_CLUSTER, stat = 0,
                 info = De (dot # dotdot # replicate (DPC k - 2) empty)\<rparr>
      in st\<lparr>dzone := (dzone st)(0 := dc)\<rparr>)"

text \<open>
  \<open>fillInGenRep\<close>: the clusters 1 to \<open>dZoneTotal - 1\<close> in ascending order.  The content of
  the free clusters is zero in zero mode and whatever \<open>junk\<close> the stack holds otherwise.
\<close>

definition fillInGenRep :: "'a params_scheme \<Rightarrow> bool \<Rightarrow> info \<Rightarrow> sofs \<Rightarrow> sofs" where
  "fillInGenRep k zero junk st =
     fold (\<lambda>n st.
        let NLClt = (of_nat n :: u32);
            newClust = \<lparr>prev = (if NLClt = 1 then NULL_CLUSTER else NLClt - 1),
                        next = (if NLClt = dZoneTotal (sb st) - 1 then NULL_CLUSTER else NLClt + 1),
                        stat = NULL_INODE,
                        info = (if zero then Zero else junk)\<rparr>
        in st\<lparr>dzone := (dzone st)(NLClt := newClust)\<rparr>)
       [1 ..< unat (dZoneTotal (sb st))] st"

definition mkfs :: "'a params_scheme \<Rightarrow> bool \<Rightarrow> info \<Rightarrow> sofs \<Rightarrow> u32 \<Rightarrow> u32 \<Rightarrow> u32 \<Rightarrow> sofs" where
  "mkfs k zero junk st ntotal itotal nclusttotal =
     (let st = st\<lparr>sb := fillInSuperBlock k (sb st) ntotal itotal nclusttotal\<rparr>;
          st = fillInINT k st;
          st = fillInRootDir k st;
          st = fillInGenRep k zero junk st
      in st)"


section \<open>Free data clusters: the two caches and the on-disk chain\<close>

text \<open>
  The on-disk chain of free data clusters, followed through the \<open>next\<close> fields from a
  cluster on, for at most the given number of nodes; \<open>None\<close> if it does not end by then.
\<close>

fun walk :: "nat \<Rightarrow> (u32 \<Rightarrow> SODataClust) \<Rightarrow> u32 \<Rightarrow> u32 list option" where
  "walk 0 dz c = (if c = NULL_CLUSTER then Some [] else None)"
| "walk (Suc n) dz c =
     (if c = NULL_CLUSTER then Some [] else map_option ((#) c) (walk n dz (next (dz c))))"

definition free_chain :: "sofs \<Rightarrow> u32 list option" where
  "free_chain st = walk (unat (dZoneTotal (sb st))) (dzone st) (dHead (sb st))"

definition insert_refs :: "SOSuperBlock \<Rightarrow> u32 list" where
  "insert_refs p_sb = take (unat (cacheIdx (dZoneInsert p_sb))) (cache (dZoneInsert p_sb))"

definition retriev_refs :: "SOSuperBlock \<Rightarrow> u32 list" where
  "retriev_refs p_sb = drop (unat (cacheIdx (dZoneRetriev p_sb))) (cache (dZoneRetriev p_sb))"

text \<open>
  Modelled from the spec: the quick checks \<open>soQCheckSuperBlock\<close>, \<open>soQCheckDZ\<close> and
  \<open>soQCheckInT\<close> of the absent consistency library.  They read the superblock, change
  nothing and answer 0 on a consistent structure; the model takes their answer to be 0, so
  that every execution of the program that passes them is an execution of the model.
\<close>

definition soQCheckSuperBlock :: "SOSuperBlock \<Rightarrow> error option" where
  "soQCheckSuperBlock p_sb = None"

definition soQCheckDZ :: "SOSuperBlock \<Rightarrow> error option" where
  "soQCheckDZ p_sb = None"

definition soQCheckInT :: "SOSuperBlock \<Rightarrow> error option" where
  "soQCheckInT p_sb = None"

text \<open>
  Modelled from the spec: \<open>soQCheckStatDC\<close> of the absent consistency library, the
  allocation state of a data cluster against the free lists.  A cluster is free if its
  number is held in the retrieval cache, in the insertion cache or in the on-disk chain,
  and allocated otherwise.
\<close>

datatype clt_stat = ALLOC_CLT | FREE_CLT

definition soQCheckStatDC :: "sofs \<Rightarrow> u32 \<Rightarrow> error + clt_stat" where
  "soQCheckStatDC st nClust =
     (if nClust \<ge> dZoneTotal (sb st) then Inl EINVAL
      else case free_chain st of
        None \<Rightarrow> Inl EDCINVAL
      | Some ch \<Rightarrow>
          if nClust \<in> set ch \<or> nClust \<in> set (insert_refs (sb st)) \<or>
             nClust \<in> set (retriev_refs (sb st))
          then Inr FREE_CLT else Inr ALLOC_CLT)"

text \<open>The body of the main loop of \<open>soDeplete\<close>, for the cache position \<open>i\<close>.\<close>

definition deplete_body :: "nat \<Rightarrow> sofs \<Rightarrow> error + sofs" where
  "deplete_body i st =
     (let p_cache = cache (dZoneInsert (sb st));
          idx = cacheIdx (dZoneInsert (sb st))
      in
      ebind (arr_get p_cache i) (\<lambda>ci.
      ebind (soReadCacheCluster st ci) (\<lambda>dcluster.
      ebind (if i = 0 then Inr (dTail (sb st)) else arr_get p_cache (i - 1)) (\<lambda>pv.
      ebind (soWriteCacheCluster st ci (dcluster\<lparr>prev := pv\<rparr>)) (\<lambda>st.
      if (of_nat i :: u32) \<noteq> idx - 1 then
        ebind (soReadCacheCluster st ci) (\<lambda>dcluster.
        ebind (arr_get p_cache (i + 1)) (\<lambda>nx.
        soWriteCacheCluster st ci (dcluster\<lparr>next := nx\<rparr>)))
      else
        ebind (arr_get p_cache (unat (idx - 1))) (\<lambda>cl.
        ebind (soReadCacheCluster st cl) (\<lambda>dcluster.
        soWriteCacheCluster st cl (dcluster\<lparr>next := NULL_CLUSTER\<rparr>))))))))"

definition soDeplete :: "sofs \<Rightarrow> error + sofs" where
  "soDeplete st =
     echeck (soQCheckSuperBlock (sb st)) (
      ebind (if dTail (sb st) \<noteq> NULL_CLUSTER then
               ebind (soReadCacheCluster st (dTail (sb st))) (\<lambda>dcluster.
               ebind (arr_get (cache (dZoneInsert (sb st))) 0) (\<lambda>c0.
               soWriteCacheCluster st (dTail (sb st)) (dcluster\<lparr>next := c0\<rparr>)))
             else Inr st) (\<lambda>st.
      ebind (for_loop [0 ..< unat (cacheIdx (dZoneInsert (sb st)))] deplete_body st) (\<lambda>st.
      let p_cache = cache (dZoneInsert (sb st));
          idx = cacheIdx (dZoneInsert (sb st))
      in
      ebind (arr_get p_cache (unat (idx - 1))) (\<lambda>tl.
      ebind (if dHead (sb st) = NULL_CLUSTER
             then ebind (arr_get p_cache 0) (\<lambda>c0. Inr ((sb st)\<lparr>dTail := tl, dHead := c0\<rparr>))
             else Inr ((sb st)\<lparr>dTail := tl\<rparr>)) (\<lambda>p_sb.
      ebind (for_loop [0 ..< unat idx] (\<lambda>i c. arr_set c i NULL_CLUSTER) p_cache) (\<lambda>p_cache.
      Inr (st\<lparr>sb := p_sb\<lparr>dZoneInsert := \<lparr>cacheIdx = 0, cache = p_cache\<rparr>\<rparr>\<rparr>)))))))"

text \<open>
  The two loops of \<open>soReplenish\<close>.  The first argument is the number of iterations left
  (\<open>DZONE_CACHE_SIZE - n\<close>).  The first loop leaves at the end of the chain, the second
  has no such test.
\<close>

definition replenish_step :: "nat \<Rightarrow> u32 \<Rightarrow> sofs \<Rightarrow> error + u32 \<times> sofs" where
  "replenish_step n nLCluster st =
     ebind (soReadCacheCluster st nLCluster) (\<lambda>dc.
     ebind (arr_set (cache (dZoneRetriev (sb st))) n nLCluster) (\<lambda>p_cache.
     let st = st\<lparr>sb := (sb st)\<lparr>dZoneRetriev := (dZoneRetriev (sb st))\<lparr>cache := p_cache\<rparr>\<rparr>\<rparr>;
         nextClust = next dc
     in
     ebind (soWriteCacheCluster st nLCluster (dc\<lparr>prev := NULL_CLUSTER, next := NULL_CLUSTER\<rparr>))
       (\<lambda>st. Inr (nextClust, st))))"

fun replenish_loop1 :: "nat \<Rightarrow> nat \<Rightarrow> u32 \<Rightarrow> sofs \<Rightarrow> error + nat \<times> u32 \<times> sofs" where
  "replenish_loop1 0 n nLCluster st = Inr (n, nLCluster, st)"
| "replenish_loop1 (Suc m) n nLCluster st =
     (if nLCluster = NULL_CLUSTER then Inr (n, nLCluster, st)
      else ebind (replenish_step n nLCluster st) (\<lambda>(nextClust, st).
             replenish_loop1 m (n + 1) nextClust st))"

fun replenish_loop2 :: "nat \<Rightarrow> nat \<Rightarrow> u32 \<Rightarrow> sofs \<Rightarrow> error + nat \<times> u32 \<times> sofs" where
  "replenish_loop2 0 n nLCluster st = Inr (n, nLCluster, st)"
| "replenish_loop2 (Suc m) n nLCluster st =
     ebind (replenish_step n nLCluster st) (\<lambda>(nextClust, st).
       replenish_loop2 m (n + 1) nextClust st)"

definition soReplenish :: "'a params_scheme \<Rightarrow> sofs \<Rightarrow> error + sofs" where
  "soReplenish k st =
     echeck (soQCheckSuperBlock (sb st)) (
      let nctt = (if dZoneFree (sb st) < of_nat (DZONE_CACHE_SIZE k) then dZoneFree (sb st)
                  else of_nat (DZONE_CACHE_SIZE k));
          nLCluster = dHead (sb st)
      in
      ebind (replenish_loop1 (unat nctt) (DZONE_CACHE_SIZE k - unat nctt) nLCluster st)
        (\<lambda>(n, nLCluster, st).
      ebind (if n \<noteq> DZONE_CACHE_SIZE k then
               ebind (soDeplete (st\<lparr>sb := (sb st)\<lparr>dHead := NULL_CLUSTER, dTail := NULL_CLUSTER\<rparr>\<rparr>))
                 (\<lambda>st. replenish_loop2 (DZONE_CACHE_SIZE k - n) n (dHead (sb st)) st)
             else Inr (n, nLCluster, st)) (\<lambda>(n, nLCluster, st).
      ebind (if nLCluster \<noteq> NULL_CLUSTER then
               ebind (soReadCacheCluster st nLCluster) (\<lambda>dc.
               soWriteCacheCluster st nLCluster (dc\<lparr>prev := NULL_CLUSTER\<rparr>))
             else Inr st) (\<lambda>st.
      let p_sb = (sb st)\<lparr>dZoneRetriev :=
                     (dZoneRetriev (sb st))\<lparr>cacheIdx := of_nat (DZONE_CACHE_SIZE k) - nctt\<rparr>,
                   dHead := nLCluster\<rparr>;
          p_sb = (if nLCluster = NULL_CLUSTER then p_sb\<lparr>dTail := NULL_CLUSTER\<rparr> else p_sb)
      in Inr (st\<lparr>sb := p_sb\<rparr>)))))"

text \<open>
  \<open>soAllocDataCluster\<close>.  The flag \<open>p_nClust\<close> tells whether the pointer to the result
  is other than \<open>NULL\<close>; the result is the value stored through it.
\<close>

definition soAllocDataCluster :: "conf \<Rightarrow> sofs \<Rightarrow> u32 \<Rightarrow> bool \<Rightarrow> error + u32 \<times> sofs" where
  "soAllocDataCluster k st nInode p_nClust =
     echeck (soQCheckDZ (sb st)) (
      if nInode \<ge> iTotal (sb st) \<or> \<not> p_nClust then Inl EINVAL
      else if dZoneFree (sb st) = 0 then Inl ENOSPC
      else echeck (soQCheckInodeIU (itable st nInode)) (
      ebind (if cacheIdx (dZoneRetriev (sb st)) = of_nat (DZONE_CACHE_SIZE k)
             then soReplenish k st else Inr st) (\<lambda>st.
      ebind (arr_get (cache (dZoneRetriev (sb st))) (unat (cacheIdx (dZoneRetriev (sb st)))))
        (\<lambda>nClust.
      ebind (soQCheckStatDC st nClust) (\<lambda>nstat.
      ebind (soReadCacheCluster st nClust) (\<lambda>dc.
      ebind (if stat dc \<noteq> NULL_INODE then soCleanDataCluster k st (stat dc) nClust
             else Inr st) (\<lambda>st.
      let dc = dc\<lparr>prev := NULL_CLUSTER, next := NULL_CLUSTER, stat := nInode\<rparr>;
          rc = dZoneRetriev (sb st)
      in
      ebind (arr_set (cache rc) (unat (cacheIdx rc)) NULL_CLUSTER) (\<lambda>p_cache.
      let st = st\<lparr>sb := (sb st)\<lparr>dZoneRetriev := \<lparr>cacheIdx = cacheIdx rc + 1, cache = p_cache\<rparr>,
                                 dZoneFree := dZoneFree (sb st) - 1\<rparr>\<rparr>
      in
      ebind (soWriteCacheCluster st nClust dc) (\<lambda>st. Inr (nClust, st))))))))))"

definition soFreeDataCluster :: "'a params_scheme \<Rightarrow> sofs \<Rightarrow> u32 \<Rightarrow> error + sofs" where
  "soFreeDataCluster k st nClust =
     ebind (soQCheckStatDC st nClust) (\<lambda>dc_stat.
     if nClust = 0 \<or> nClust \<ge> dZoneTotal (sb st) then Inl EINVAL
     else if dc_stat = FREE_CLT then Inl EDCNALINVAL
     else echeck (soQCheckDZ (sb st)) (echeck (soQCheckSuperBlock (sb st)) (
     ebind (soReadCacheCluster st nClust) (\<lambda>dc.
     ebind (soWriteCacheCluster st nClust (dc\<lparr>prev := NULL_CLUSTER, next := NULL_CLUSTER\<rparr>))
       (\<lambda>st.
     ebind (if cacheIdx (dZoneInsert (sb st)) = of_nat (DZONE_CACHE_SIZE k)
            then soDeplete st else Inr st)
       (\<lambda>st.
     let ic = dZoneInsert (sb st) in
     ebind (arr_set (cache ic) (unat (cacheIdx ic)) nClust) (\<lambda>p_cache.
     let st = st\<lparr>sb := (sb st)\<lparr>dZoneInsert := \<lparr>cacheIdx = cacheIdx ic + 1, cache = p_cache\<rparr>,
                                dZoneFree := dZoneFree (sb st) + 1\<rparr>\<rparr>
     in
     ebind (soQCheckStatDC st nClust) (\<lambda>dc_stat. Inr st))))))))"


section \<open>The file-cluster index\<close>

definition GET :: u32 where "GET = 0"
definition ALLOC :: u32 where "ALLOC = 1"
definition FREE :: u32 where "FREE = 2"
definition FREE_CLEAN :: u32 where "FREE_CLEAN = 3"
definition CLEAN :: u32 where "CLEAN = 4"

text \<open>
  A store through the pointer \<open>p_outVal\<close>; the flag tells whether the pointer is other than
  \<open>NULL\<close>.  The result of a handler holds the value last stored, if any.
\<close>

definition store_out :: "bool \<Rightarrow> u32 \<Rightarrow> error + u32 option" where
  "store_out p_outVal v = (if p_outVal then Inr (Some v) else Inl UB)"

text \<open>
  The internal buffers for a cluster of references (\<open>soLoadDirRefClust\<close>,
  \<open>soLoadSngIndRefClust\<close> and their \<open>Get\<close> and \<open>Store\<close> companions): a load yields the
  cluster as it is on the device together with its table of references, a store writes the
  loaded cluster back with the table as modified since.
\<close>

definition load_refs ::
  "'a params_scheme \<Rightarrow> sofs \<Rightarrow> u32 \<Rightarrow> error + SODataClust \<times> u32 list" where
  "load_refs k st nClust =
     ebind (soReadCacheCluster st nClust) (\<lambda>dc.
     ebind (info_ref k (info dc)) (\<lambda>refs. Inr (dc, refs)))"

definition load_raw :: "sofs \<Rightarrow> u32 \<Rightarrow> error + SODataClust" where
  "load_raw st nClust = soReadCacheCluster st nClust"

definition store_refs :: "sofs \<Rightarrow> u32 \<Rightarrow> SODataClust \<Rightarrow> u32 list \<Rightarrow> error + sofs" where
  "store_refs st nClust dc refs = soWriteCacheCluster st nClust (dc\<lparr>info := Ref refs\<rparr>)"

definition soCleanLogicalCluster :: "sofs \<Rightarrow> u32 \<Rightarrow> u32 \<Rightarrow> error + sofs" where
  "soCleanLogicalCluster st nInode nLClust =
     ebind (soReadCacheCluster st nLClust) (\<lambda>dc.
     ebind (soQCheckStatDC st nLClust) (\<lambda>status.
     if stat dc \<noteq> nInode then Inl EWGINODENB
     else soWriteCacheCluster st nLClust (dc\<lparr>stat := NULL_INODE\<rparr>)))"

type_synonym attach = "sofs \<Rightarrow> u32 \<Rightarrow> u32 \<Rightarrow> u32 \<Rightarrow> error + sofs"
type_synonym handled = "error + u32 option \<times> SOInode \<times> sofs"

definition soHandleDirect ::
  "conf \<Rightarrow> attach \<Rightarrow> sofs \<Rightarrow> u32 \<Rightarrow> SOInode \<Rightarrow> u32 \<Rightarrow> u32 \<Rightarrow> bool \<Rightarrow> handled" where
  "soHandleDirect k att st nInode p_inode clustInd op p_outVal =
     ebind (arr_get (d p_inode) (unat clustInd)) (\<lambda>dref.
     if op = GET then
       ebind (store_out p_outVal dref) (\<lambda>out. Inr (out, p_inode, st))
     else if op = ALLOC then
       (if dref \<noteq> NULL_CLUSTER then Inl EDCARDYIL
        else
          ebind (soAllocDataCluster k st nInode p_outVal) (\<lambda>(nClust, st).
          ebind (att st nInode clustInd nClust) (\<lambda>st.
          Inr (Some nClust,
               p_inode\<lparr>d := (d p_inode)[unat clustInd := nClust],
                        cluCount := cluCount p_inode + 1\<rparr>, st))))
     else if op = FREE then
       (if dref = NULL_CLUSTER then Inl EDCNOTIL
        else ebind (soFreeDataCluster k st dref) (\<lambda>st. Inr (None, p_inode, st)))
     else if op = CLEAN then
       (if dref = NULL_CLUSTER then Inl EDCNOTIL
        else
          ebind (soCleanLogicalCluster st nInode dref) (\<lambda>st.
          Inr (None,
               p_inode\<lparr>d := (d p_inode)[unat clustInd := NULL_CLUSTER],
                        cluCount := cluCount p_inode - 1\<rparr>, st)))
     else if op = FREE_CLEAN then
       (if dref = NULL_CLUSTER then Inl EDCNOTIL
        else
          ebind (soFreeDataCluster k st dref) (\<lambda>st.
          ebind (soCleanLogicalCluster st nInode dref) (\<lambda>st.
          Inr (None,
               p_inode\<lparr>d := (d p_inode)[unat clustInd := NULL_CLUSTER],
                        cluCount := cluCount p_inode - 1\<rparr>, st))))
     else Inl EINVAL)"

definition soHandleSIndirect ::
  "conf \<Rightarrow> attach \<Rightarrow> sofs \<Rightarrow> u32 \<Rightarrow> SOInode \<Rightarrow> u32 \<Rightarrow> u32 \<Rightarrow> bool \<Rightarrow> handled" where
  "soHandleSIndirect k att st nInode p_inode clustInd op p_outVal =
     (let ri = unat (clustInd - of_nat (N_DIRECT k)) in
      if i1 p_inode = NULL_CLUSTER then
        (if op = GET then
           ebind (store_out p_outVal NULL_CLUSTER) (\<lambda>out. Inr (out, p_inode, st))
         else if op = ALLOC then
           ebind (soAllocDataCluster k st nInode p_outVal) (\<lambda>(nClust, st).
           let p_inode = p_inode\<lparr>cluCount := cluCount p_inode + 1, i1 := nClust\<rparr> in
           ebind (load_raw st (i1 p_inode)) (\<lambda>p_dirrefdc.
           ebind (store_refs st (i1 p_inode) p_dirrefdc (replicate (RPC k) NULL_CLUSTER)) (\<lambda>st.
           ebind (soAllocDataCluster k st nInode p_outVal) (\<lambda>(nClust, st).
           ebind (att st nInode clustInd nClust) (\<lambda>st.
           ebind (load_refs k st (i1 p_inode)) (\<lambda>(p_dirrefdc, refs).
           let p_inode = p_inode\<lparr>cluCount := cluCount p_inode + 1\<rparr> in
           ebind (arr_set refs ri nClust) (\<lambda>refs.
           ebind (store_refs st (i1 p_inode) p_dirrefdc refs) (\<lambda>st.
           Inr (Some nClust, p_inode, st)))))))))
         else if op = FREE \<or> op = FREE_CLEAN \<or> op = CLEAN then Inl EDCNOTIL
         else Inl EINVAL)
      else
        ebind (load_refs k st (i1 p_inode)) (\<lambda>(p_dirrefdc, refs).
        if op = GET then
          ebind (arr_get refs ri) (\<lambda>r.
          ebind (store_out p_outVal r) (\<lambda>out. Inr (out, p_inode, st)))
        else if op = ALLOC then
          ebind (arr_get refs ri) (\<lambda>r.
          if r \<noteq> NULL_CLUSTER then Inl EDCARDYIL
          else
            ebind (soAllocDataCluster k st nInode p_outVal) (\<lambda>(nClust, st).
            ebind (att st nInode clustInd nClust) (\<lambda>st.
            ebind (load_refs k st (i1 p_inode)) (\<lambda>(p_dirrefdc, refs).
            ebind (arr_set refs ri nClust) (\<lambda>refs.
            let p_inode = p_inode\<lparr>cluCount := cluCount p_inode + 1\<rparr> in
            ebind (store_refs st (i1 p_inode) p_dirrefdc refs) (\<lambda>st.
            Inr (Some nClust, p_inode, st)))))))
        else if op = FREE \<or> op = FREE_CLEAN \<or> op = CLEAN then
          ebind (arr_get refs ri) (\<lambda>r.
          if r = NULL_CLUSTER then Inl EDCNOTIL
          else
            ebind (if op \<noteq> CLEAN then soFreeDataCluster k st r else Inr st) (\<lambda>st.
            if op = FREE then Inr (None, p_inode, st)
            else
              ebind (soCleanLogicalCluster st nInode r) (\<lambda>st.
              ebind (arr_set refs ri NULL_CLUSTER) (\<lambda>refs.
              let p_inode = p_inode\<lparr>cluCount := cluCount p_inode - 1\<rparr> in
              ebind (store_refs st (i1 p_inode) p_dirrefdc refs) (\<lambda>st.
              if list_ex (\<lambda>r. r \<noteq> NULL_CLUSTER) refs then Inr (None, p_inode, st)
              else
                ebind (soFreeDataCluster k st (i1 p_inode)) (\<lambda>st.
                ebind (soCleanLogicalCluster st nInode (i1 p_inode)) (\<lambda>st.
                Inr (None,
                     p_inode\<lparr>i1 := NULL_CLUSTER, cluCount := cluCount p_inode - 1\<rparr>,
                     st))))))))
        else Inr (None, p_inode, st)))"


definition soHandleDIndirect ::
  "conf \<Rightarrow> attach \<Rightarrow> sofs \<Rightarrow> u32 \<Rightarrow> SOInode \<Rightarrow> u32 \<Rightarrow> u32 \<Rightarrow> bool \<Rightarrow> handled" where
  "soHandleDIndirect k att st nInode p_inode clustInd op p_outVal =
     (let indirref_idx = unat ((clustInd - of_nat (N_DIRECT k) - of_nat (RPC k)) div of_nat (RPC k));
          dirref_idx = unat ((clustInd - of_nat (N_DIRECT k) - of_nat (RPC k)) mod of_nat (RPC k))
      in
      if op = GET then
        (if i2 p_inode = NULL_CLUSTER then
           ebind (store_out p_outVal NULL_CLUSTER) (\<lambda>out. Inr (out, p_inode, st))
         else
           ebind (load_refs k st (i2 p_inode)) (\<lambda>(p_dirrefdc, refs2).
           ebind (arr_get refs2 indirref_idx) (\<lambda>r2.
           if r2 = NULL_CLUSTER then
             ebind (store_out p_outVal NULL_CLUSTER) (\<lambda>out. Inr (out, p_inode, st))
           else
             ebind (load_refs k st r2) (\<lambda>(p_indrefdc, refs1).
             ebind (arr_get refs1 dirref_idx) (\<lambda>r1.
             ebind (store_out p_outVal r1) (\<lambda>out. Inr (out, p_inode, st)))))))
      else if op = ALLOC then
        ebind (if i2 p_inode = NULL_CLUSTER then
                 ebind (soAllocDataCluster k st nInode True) (\<lambda>(nLClust, st).
                 let p_inode = p_inode\<lparr>i2 := nLClust, cluCount := cluCount p_inode + 1\<rparr> in
                 ebind (load_raw st (i2 p_inode)) (\<lambda>p_indrefdc.
                 ebind (store_refs st (i2 p_inode) p_indrefdc (replicate (RPC k) NULL_CLUSTER))
                   (\<lambda>st. Inr (p_inode, st))))
               else Inr (p_inode, st)) (\<lambda>(p_inode, st).
        ebind (load_refs k st (i2 p_inode)) (\<lambda>(p_indrefdc, refs2).
        ebind (arr_get refs2 indirref_idx) (\<lambda>r2.
        ebind (if r2 = NULL_CLUSTER then
                 ebind (soAllocDataCluster k st nInode True) (\<lambda>(nLClust, st).
                 let p_inode = p_inode\<lparr>cluCount := cluCount p_inode + 1\<rparr> in
                 ebind (load_raw st nLClust) (\<lambda>p_dirrefdc.
                 ebind (store_refs st nLClust p_dirrefdc (replicate (RPC k) NULL_CLUSTER))
                   (\<lambda>st. Inr (nLClust, p_inode, st))))
               else Inr (r2, p_inode, st)) (\<lambda>(dirref, p_inode, st).
        ebind (load_refs k st dirref) (\<lambda>(p_dirrefdc, refs1).
        ebind (arr_get refs1 dirref_idx) (\<lambda>r1.
        if r1 = NULL_CLUSTER then
          ebind (soAllocDataCluster k st nInode True) (\<lambda>(nLClust, st).
          ebind (att st nInode clustInd nLClust) (\<lambda>st.
          ebind (load_refs k st dirref) (\<lambda>(p_dirrefdc, refs1).
          let p_inode = p_inode\<lparr>cluCount := cluCount p_inode + 1\<rparr> in
          ebind (arr_set refs1 dirref_idx nLClust) (\<lambda>refs1.
          ebind (store_out p_outVal nLClust) (\<lambda>out.
          ebind (store_refs st dirref p_dirrefdc refs1) (\<lambda>st.
          ebind (load_refs k st (i2 p_inode)) (\<lambda>(p_indrefdc, refs2).
          ebind (arr_set refs2 indirref_idx dirref) (\<lambda>refs2.
          ebind (store_refs st (i2 p_inode) p_indrefdc refs2) (\<lambda>st.
          Inr (out, p_inode, st))))))))))
        else Inl EDCARDYIL))))))
      else if op = FREE \<or> op = FREE_CLEAN \<or> op = CLEAN then
        (if i2 p_inode = NULL_CLUSTER then Inl EDCNOTIL
         else
           ebind (load_refs k st (i2 p_inode)) (\<lambda>(p_indrefdc, refs2).
           ebind (arr_get refs2 indirref_idx) (\<lambda>r2.
           if r2 = NULL_CLUSTER then Inl EDCNOTIL
           else
             ebind (load_refs k st r2) (\<lambda>(p_dirrefdc, refs1).
             ebind (arr_get refs1 dirref_idx) (\<lambda>r1.
             if r1 = NULL_CLUSTER then Inl EDCNOTIL
             else
               ebind (if op = FREE \<or> op = FREE_CLEAN then soFreeDataCluster k st r1
                      else Inr st) (\<lambda>st.
               if op = FREE then Inr (None, p_inode, st)
               else
                 ebind (soCleanLogicalCluster st nInode r1) (\<lambda>st.
                 ebind (arr_set refs1 dirref_idx NULL_CLUSTER) (\<lambda>refs1.
                 let p_inode = p_inode\<lparr>cluCount := cluCount p_inode - 1\<rparr> in
                 ebind (store_refs st r2 p_dirrefdc refs1) (\<lambda>st.
                 if list_ex (\<lambda>r. r \<noteq> NULL_CLUSTER) refs1 then Inr (None, p_inode, st)
                 else
                   ebind (soFreeDataCluster k st r2) (\<lambda>st.
                   ebind (soCleanLogicalCluster st nInode r2) (\<lambda>st.
                   ebind (arr_set refs2 indirref_idx NULL_CLUSTER) (\<lambda>refs2.
                   let p_inode = p_inode\<lparr>cluCount := cluCount p_inode - 1\<rparr> in
                   ebind (store_refs st (i2 p_inode) p_indrefdc refs2) (\<lambda>st.
                   if list_ex (\<lambda>r. r \<noteq> NULL_CLUSTER) refs2 then Inr (None, p_inode, st)
                   else
                     ebind (soFreeDataCluster k st (i2 p_inode)) (\<lambda>st.
                     ebind (soCleanLogicalCluster st nInode (i2 p_inode)) (\<lambda>st.
                     Inr (None,
                          p_inode\<lparr>i2 := NULL_CLUSTER, cluCount := cluCount p_inode - 1\<rparr>,
                          st))))))))))))))))
      else Inl EINVAL)"

text \<open>
  \<open>soHandleFileCluster\<close> and \<open>soAttachLogicalCluster\<close> call each other: the former calls
  the latter to allocate, the latter calls the former with the operation \<open>GET\<close> only, which
  never attaches.  The body of \<open>soHandleFileCluster\<close> is therefore given first with the
  attachment as an argument; \<open>soAttachLogicalCluster\<close> uses it with an attachment that is
  never reached.
\<close>

definition soHandleFileCluster_body ::
  "conf \<Rightarrow> attach \<Rightarrow> sofs \<Rightarrow> u32 \<Rightarrow> u32 \<Rightarrow> u32 \<Rightarrow> bool \<Rightarrow> error + u32 option \<times> sofs" where
  "soHandleFileCluster_body k att st nInode clustInd op p_outVal =
     (if unat clustInd \<ge> MAX_FILE_CLUSTERS k then Inl EINVAL
      else if (op = GET \<or> op = ALLOC) \<and> \<not> p_outVal then Inl EINVAL
      else if op \<noteq> GET \<and> op \<noteq> ALLOC \<and> op \<noteq> FREE \<and> op \<noteq> FREE_CLEAN \<and> op \<noteq> CLEAN
        then Inl EINVAL
      else if nInode \<ge> iTotal (sb st) then Inl EINVAL
      else
        let p_outVal = (if op = FREE \<or> op = FREE_CLEAN \<or> op = CLEAN then False else p_outVal) in
        ebind (if op = CLEAN then soReadInode st nInode FDIN else soReadInode st nInode IUIN)
          (\<lambda>(inode, st).
        ebind (if unat clustInd < N_DIRECT k
                 then soHandleDirect k att st nInode inode clustInd op p_outVal
               else if unat clustInd \<ge> N_DIRECT k \<and> unat clustInd < N_DIRECT k + RPC k
                 then soHandleSIndirect k att st nInode inode clustInd op p_outVal
               else soHandleDIndirect k att st nInode inode clustInd op p_outVal)
          (\<lambda>(out, inode, st).
        ebind (if op = ALLOC \<or> op = FREE \<or> op = FREE_CLEAN
               then soWriteInode st inode nInode IUIN else Inr st) (\<lambda>st.
        ebind (if op = CLEAN then soWriteInode st inode nInode FDIN else Inr st) (\<lambda>st.
        Inr (out, st))))))"

definition no_attach :: attach where
  "no_attach st nInode clustInd nLClust = Inl ELIBBAD"

definition soAttachLogicalCluster :: "conf \<Rightarrow> attach" where
  "soAttachLogicalCluster k st nInode clustInd nLClust =
     ebind (soReadCacheCluster st nLClust) (\<lambda>dc.
     if stat dc \<noteq> nInode then Inl EWGINODENB
     else
       ebind (if clustInd \<noteq> 0 then
                ebind (soHandleFileCluster_body k no_attach st nInode (clustInd - 1) GET True)
                  (\<lambda>(out, st). case out of None \<Rightarrow> Inl UB
                     | Some nLClustPrev \<Rightarrow> Inr (nLClustPrev, dc\<lparr>prev := nLClustPrev\<rparr>, st))
              else Inr (NULL_CLUSTER, dc, st)) (\<lambda>(nLClustPrev, dc, st).
       ebind (if unat clustInd \<noteq> MAX_FILE_CLUSTERS k then
                ebind (soHandleFileCluster_body k no_attach st nInode (clustInd + 1) GET True)
                  (\<lambda>(out, st). case out of None \<Rightarrow> Inl UB
                     | Some nLClustNext \<Rightarrow> Inr (nLClustNext, dc\<lparr>next := nLClustNext\<rparr>, st))
              else Inr (NULL_CLUSTER, dc, st)) (\<lambda>(nLClustNext, dc, st).
       ebind (soWriteCacheCluster st nLClust dc) (\<lambda>st.
       ebind (if nLClustPrev \<noteq> NULL_CLUSTER then
                ebind (soReadCacheCluster st nLClustPrev) (\<lambda>dc.
                soWriteCacheCluster st nLClustPrev (dc\<lparr>next := nLClust\<rparr>))
              else Inr st) (\<lambda>st.
       if nLClustNext \<noteq> NULL_CLUSTER then
         ebind (soReadCacheCluster st nLClustNext) (\<lambda>dc.
         soWriteCacheCluster st nLClustNext (dc\<lparr>prev := nLClust\<rparr>))
       else Inr st)))))"

definition soHandleFileCluster ::
  "conf \<Rightarrow> sofs \<Rightarrow> u32 \<Rightarrow> u32 \<Rightarrow> u32 \<Rightarrow> bool \<Rightarrow> error + u32 option \<times> sofs" where
  "soHandleFileCluster k = soHandleFileCluster_body k (soAttachLogicalCluster k)"


section \<open>The file-cluster sweep\<close>

text \<open>
  The loop over the table of single indirect references held in \<open>i2\<close>.  The list holds
  the values of \<open>j\<close> still to visit and \<open>i\<close> is the position at which the inner loop
  starts; the source resets \<open>i\<close> to 0 inside the test for a reference other than
  \<open>NULL_CLUSTER\<close>.
\<close>

fun sweep_i2 ::
  "conf \<Rightarrow> u32 \<Rightarrow> u32 \<Rightarrow> u32 list \<Rightarrow> nat list \<Rightarrow> nat \<Rightarrow> sofs \<Rightarrow> error + sofs" where
  "sweep_i2 k nInode op temp1 [] i st = Inr st"
| "sweep_i2 k nInode op temp1 (j # js) i st =
     (if temp1 ! j \<noteq> NULL_CLUSTER then
        ebind (load_refs k st (temp1 ! j)) (\<lambda>(dc, temp2).
        ebind (for_loop [i ..< RPC k] (\<lambda>i st.
                 if temp2 ! i \<noteq> NULL_CLUSTER then
                   ebind (soHandleFileCluster k st nInode
                            (of_nat (N_DIRECT k + RPC k + j * RPC k + i)) op False)
                     (\<lambda>(out, st). Inr st)
                 else Inr st) st) (\<lambda>st.
        sweep_i2 k nInode op temp1 js 0 st))
      else sweep_i2 k nInode op temp1 js i st)"

definition soHandleFileClusters :: "conf \<Rightarrow> sofs \<Rightarrow> u32 \<Rightarrow> u32 \<Rightarrow> u32 \<Rightarrow> error + sofs" where
  "soHandleFileClusters k st nInode clustIndIn op =
     (if nInode \<ge> iTotal (sb st) then Inl EINVAL
      else if unat clustIndIn \<ge> MAX_FILE_CLUSTERS k then Inl EINVAL
      else if op \<noteq> FREE \<and> op \<noteq> FREE_CLEAN \<and> op \<noteq> CLEAN then Inl EINVAL
      else
        let inode_status = (if op = CLEAN then FDIN else IUIN) in
        ebind (soReadInode st nInode inode_status) (\<lambda>(inode, st).
        ebind (if i2 inode \<noteq> NULL_CLUSTER then
                 ebind (load_refs k st (i2 inode)) (\<lambda>(dc, temp1).
                 let i = (if unat clustIndIn < N_DIRECT k + RPC k then 0
                          else (unat clustIndIn - N_DIRECT k - RPC k) mod RPC k);
                     j = (if unat clustIndIn < N_DIRECT k + RPC k then 0
                          else (unat clustIndIn - N_DIRECT k - RPC k) div RPC k)
                 in sweep_i2 k nInode op temp1 [j ..< RPC k] i st)
               else Inr st) (\<lambda>st.
        ebind (if unat clustIndIn < N_DIRECT k + RPC k \<and> i1 inode \<noteq> NULL_CLUSTER then
                 ebind (load_refs k st (i1 inode)) (\<lambda>(dc, temp1).
                 let i = (if unat clustIndIn < N_DIRECT k then 0
                          else unat clustIndIn - N_DIRECT k)
                 in for_loop [i ..< RPC k] (\<lambda>i st.
                      if temp1 ! i \<noteq> NULL_CLUSTER then
                        ebind (soHandleFileCluster k st nInode (of_nat (N_DIRECT k + i)) op False)
                          (\<lambda>(out, st). Inr st)
                      else Inr st) st)
               else Inr st) (\<lambda>st.
        if unat clustIndIn < N_DIRECT k then
          for_loop [unat clustIndIn ..< N_DIRECT k] (\<lambda>i st.
            ebind (arr_get (d inode) i) (\<lambda>dref.
            if dref \<noteq> NULL_CLUSTER then
              ebind (soHandleFileCluster k st nInode (of_nat i) op False) (\<lambda>(out, st). Inr st)
            else Inr st)) st
        else Inr st))))"

section \<open>Reading and writing a file cluster\<close>

definition file_type :: "u16 \<Rightarrow> bool" where
  "file_type m \<longleftrightarrow>
     \<not> (m AND INODE_TYPE_MASK \<noteq> INODE_DIR \<and> m AND INODE_TYPE_MASK \<noteq> INODE_FILE \<and>
        m AND INODE_TYPE_MASK \<noteq> INODE_SYMLINK)"

definition soReadFileCluster ::
  "conf \<Rightarrow> sofs \<Rightarrow> u32 \<Rightarrow> u32 \<Rightarrow> error + SODataClust \<times> sofs" where
  "soReadFileCluster k st nInode clustInd =
     (if unat clustInd \<ge> MAX_FILE_CLUSTERS k \<or> nInode \<ge> iTotal (sb st) then Inl EINVAL
      else
        ebind (soHandleFileCluster k st nInode clustInd GET True) (\<lambda>(out, st).
        case out of None \<Rightarrow> Inl UB | Some clustLogicNumber \<Rightarrow>
        let p_inode = itable st nInode in
        echeck (soQCheckInodeIU p_inode) (
        if \<not> file_type (mode p_inode) then Inl EIUININVAL
        else if clustLogicNumber \<noteq> NULL_CLUSTER then
          ebind (soReadCacheCluster st clustLogicNumber) (\<lambda>buff. Inr (buff, st))
        else Inr (\<lparr>prev = 0, next = 0, stat = 0, info = Zero\<rparr>, st))))"

text \<open>
  \<open>soWriteFileCluster\<close> reads nothing of the buffer but its member \<open>info\<close>, which is the
  argument here.
\<close>

definition soWriteFileCluster :: "conf \<Rightarrow> sofs \<Rightarrow> u32 \<Rightarrow> u32 \<Rightarrow> info \<Rightarrow> error + sofs" where
  "soWriteFileCluster k st nInode clustInd buff =
     (if unat clustInd \<ge> MAX_FILE_CLUSTERS k \<or> nInode \<ge> iTotal (sb st) then Inl EINVAL
      else
        let p_inode = itable st nInode in
        echeck (soQCheckInodeIU p_inode) (
        if \<not> file_type (mode p_inode) then Inl EIUININVAL
        else
          ebind (soHandleFileCluster k st nInode clustInd GET True) (\<lambda>(out, st).
          case out of None \<Rightarrow> Inl UB | Some clustLogicNumber \<Rightarrow>
          ebind (if clustLogicNumber = NULL_CLUSTER then
                   ebind (soHandleFileCluster k st nInode clustInd ALLOC True) (\<lambda>(out, st).
                   case out of None \<Rightarrow> Inl UB | Some c \<Rightarrow> Inr (c, st))
                 else Inr (clustLogicNumber, st)) (\<lambda>(clustLogicNumber, st).
          ebind (soReadCacheCluster st clustLogicNumber) (\<lambda>dc.
          ebind (soWriteCacheCluster st clustLogicNumber (dc\<lparr>info := buff\<rparr>)) (\<lambda>st.
          ebind (soReadInode st nInode IUIN) (\<lambda>(inode, st).
          soWriteInode st inode nInode IUIN)))))))"


section \<open>Directories\<close>

text \<open>
  A name field is an array of \<open>MAX_NAME + 1\<close> characters.  \<open>cstr\<close> is the C string it
  holds (the characters before the first NUL), \<open>strncpy_name\<close> the array that
  \<open>strncpy (name, eName, MAX_NAME + 1)\<close> leaves.
\<close>

definition cstr :: "char list \<Rightarrow> char list" where
  "cstr cs = takeWhile (\<lambda>c. c \<noteq> CHR 0x00) cs"

definition strncpy_name :: "'a params_scheme \<Rightarrow> char list \<Rightarrow> char list" where
  "strncpy_name k eName = take (MAX_NAME k + 1) (eName @ replicate (MAX_NAME k + 1) (CHR 0x00))"

definition empty_de :: "'a params_scheme \<Rightarrow> SODirEntry" where
  "empty_de k = \<lparr>de_name = replicate (MAX_NAME k + 1) (CHR 0x00), de_nInode = NULL_INODE\<rparr>"

text \<open>
  Modelled from the spec: \<open>soQCheckDirCont\<close> of the absent consistency library; the
  content of a directory is sane if its first two entries are \<open>.\<close> and \<open>..\<close>.
\<close>

definition soQCheckDirCont :: "'a params_scheme \<Rightarrow> sofs \<Rightarrow> SOInode \<Rightarrow> error option" where
  "soQCheckDirCont k st inode =
     (case ebind (arr_get (d inode) 0) (\<lambda>c.
           ebind (soReadCacheCluster st c) (\<lambda>dc.
           ebind (info_de k (info dc)) (\<lambda>es.
           ebind (arr_get es 0) (\<lambda>e0.
           ebind (arr_get es 1) (\<lambda>e1.
           if cstr (de_name e0) = ''.'' \<and> cstr (de_name e1) = ''..''
           then Inr () else Inl EDIRINVAL))))) of
        Inl e \<Rightarrow> Some e
      | Inr u \<Rightarrow> None)"

text \<open>
  The result of a lookup: an entry found, with its inode number and its index, or the
  return value \<open>-ENOENT\<close> together with the index stored through \<open>p_idx\<close>.
\<close>

datatype lookup = Found u32 u32 | NoEnt u32

text \<open>
  The inner loop of \<open>soGetDirEntryByName\<close> over the entries of one cluster.  \<open>base\<close> is
  \<open>idxCluster * DPC\<close>, and \<open>acc\<close> holds what has been stored through \<open>p_idx\<close> so far;
  \<open>flag\<close> is 0 as long as nothing has been stored.
\<close>

fun scan_entries ::
  "char list \<Rightarrow> nat \<Rightarrow> nat \<Rightarrow> SODirEntry list \<Rightarrow> nat \<Rightarrow> u32 option \<Rightarrow> (u32 \<times> u32) + u32 option" where
  "scan_entries eName maxn base [] idxDirEntry acc = Inr acc"
| "scan_entries eName maxn base (e # es) idxDirEntry acc =
     (if cstr (de_name e) = eName then Inl (de_nInode e, of_nat (base + idxDirEntry))
      else
        let acc = (if de_name e ! 0 = CHR 0x00 \<and> de_name e ! maxn = CHR 0x00 \<and> acc = None
                   then Some (of_nat (base + idxDirEntry)) else acc)
        in scan_entries eName maxn base es (idxDirEntry + 1) acc)"

fun scan_dir ::
  "conf \<Rightarrow> u32 \<Rightarrow> char list \<Rightarrow> nat list \<Rightarrow> u32 option \<Rightarrow> sofs \<Rightarrow>
     error + ((u32 \<times> u32) + u32 option) \<times> sofs" where
  "scan_dir k nInodeDir eName [] acc st = Inr (Inr acc, st)"
| "scan_dir k nInodeDir eName (idxCluster # cs) acc st =
     ebind (soReadFileCluster k st nInodeDir (of_nat idxCluster)) (\<lambda>(dc, st).
     ebind (info_de k (info dc)) (\<lambda>es.
     case scan_entries eName (MAX_NAME k) (idxCluster * DPC k) es 0 acc of
       Inl found \<Rightarrow> Inr (Inl found, st)
     | Inr acc \<Rightarrow> scan_dir k nInodeDir eName cs acc st))"

definition soGetDirEntryByName ::
  "conf \<Rightarrow> sofs \<Rightarrow> u32 \<Rightarrow> char list \<Rightarrow> error + lookup \<times> sofs" where
  "soGetDirEntryByName k st nInodeDir eName =
     (if length eName = 0 \<or> nInodeDir \<ge> iTotal (sb st) \<or> CHR ''/'' \<in> set eName then Inl EINVAL
      else if length eName > MAX_NAME k then Inl ENAMETOOLONG
      else
        ebind (soReadInode st nInodeDir IUIN) (\<lambda>(inode, st).
        if mode inode AND INODE_TYPE_MASK \<noteq> INODE_DIR then Inl ENOTDIR
        else echeck (soQCheckDirCont k st inode) (
        ebind (soAccessGranted st nInodeDir X) (\<lambda>st.
        ebind (scan_dir k nInodeDir eName
                 [0 ..< unat (size_ino inode) div (DPC k * sizeof_SODirEntry k)] None st)
          (\<lambda>(r, st).
        case r of
          Inl (ent, idx) \<Rightarrow> Inr (Found ent idx, st)
        | Inr acc \<Rightarrow>
            Inr (NoEnt (case acc of Some idx \<Rightarrow> idx
                        | None \<Rightarrow> cluCount inode * of_nat (DPC k)), st))))))"

definition ADD :: u32 where "ADD = 0"
definition ATTACH :: u32 where "ATTACH = 1"

text \<open>
  The part of \<open>soAddAttDirEntry\<close> under \<open>switch (op)\<close>: it yields the two inodes as they
  stand in memory.
\<close>

definition add_att_entry ::
  "conf \<Rightarrow> sofs \<Rightarrow> u32 \<Rightarrow> SOInode \<Rightarrow> u32 \<Rightarrow> u32 \<Rightarrow> error + SOInode \<times> SOInode \<times> sofs" where
  "add_att_entry k st nInodeDir InodeDir nInodeEnt op =
     (let dot = \<lparr>de_name = strncpy_name k ''.'', de_nInode = nInodeEnt\<rparr>;
          dotdot = \<lparr>de_name = strncpy_name k ''..'', de_nInode = nInodeDir\<rparr>
      in
      if op = ADD then
        ebind (soReadInode st nInodeEnt IUIN) (\<lambda>(InodeEnt, st).
        let type = mode InodeEnt AND INODE_TYPE_MASK in
        if type = INODE_DIR then
          ebind (soWriteFileCluster k st nInodeEnt 0
                   (De (dot # dotdot # replicate (DPC k - 2) (empty_de k)))) (\<lambda>st.
          ebind (soReadInode st nInodeEnt IUIN) (\<lambda>(InodeEnt, st).
          Inr (InodeDir\<lparr>refCount := refCount InodeDir + 1\<rparr>,
               InodeEnt\<lparr>refCount := refCount InodeEnt + 2,
                        size_ino := of_nat (sizeof_SODirEntry k * DPC k)\<rparr>, st)))
        else if type = INODE_FILE \<or> type = INODE_SYMLINK then
          Inr (InodeDir, InodeEnt\<lparr>refCount := refCount InodeEnt + 1\<rparr>, st)
        else Inl EIUININVAL)
      else if op = ATTACH then
        ebind (soReadInode st nInodeEnt IUIN) (\<lambda>(InodeEnt, st).
        let type = mode InodeEnt AND INODE_TYPE_MASK in
        if type = INODE_DIR then
          (if mode InodeEnt AND INODE_DIR \<noteq> INODE_DIR then Inl ENOTDIR
           else if unat (refCount InodeEnt) \<ge> 65200 - 2 then Inl EMLINK
           else
             ebind (soReadFileCluster k st nInodeEnt 0) (\<lambda>(dcEnt, st).
             ebind (info_de k (info dcEnt)) (\<lambda>es.
             ebind (arr_set es 0 dot) (\<lambda>es.
             ebind (arr_set es 1 dotdot) (\<lambda>es.
             ebind (soWriteFileCluster k st nInodeEnt 0 (De es)) (\<lambda>st.
             ebind (soReadInode st nInodeEnt IUIN) (\<lambda>(InodeEnt, st).
             Inr (InodeDir\<lparr>refCount := refCount InodeDir + 1\<rparr>,
                  InodeEnt\<lparr>refCount := refCount InodeEnt + 2\<rparr>, st))))))))
        else if type = INODE_FILE \<or> type = INODE_SYMLINK then
          Inr (InodeDir, InodeEnt\<lparr>refCount := refCount InodeEnt + 1\<rparr>, st)
        else Inl EIUININVAL)
      else Inl EINVAL)"

definition soAddAttDirEntry ::
  "conf \<Rightarrow> sofs \<Rightarrow> u32 \<Rightarrow> char list \<Rightarrow> u32 \<Rightarrow> u32 \<Rightarrow> error + sofs" where
  "soAddAttDirEntry k st nInodeDir eName nInodeEnt op =
     (if nInodeDir > iTotal (sb st) then Inl EINVAL
      else if nInodeEnt > iTotal (sb st) then Inl EINVAL
      else if length eName > MAX_NAME k then Inl ENAMETOOLONG
      else
        ebind (soReadInode st nInodeDir IUIN) (\<lambda>(InodeDir, st).
        if mode InodeDir AND INODE_DIR \<noteq> INODE_DIR then Inl ENOTDIR
        else if unat (refCount InodeDir) \<ge> 65536 - 2 then Inl EMLINK
        else
          ebind (soAccessGranted st nInodeDir X) (\<lambda>st.
          ebind (soAccessGranted st nInodeDir W) (\<lambda>st.
          ebind (case soGetDirEntryByName k st nInodeDir eName of
                   Inr (Found ent i, st) \<Rightarrow> Inl EEXIST
                 | Inr (NoEnt idx, st) \<Rightarrow> Inr (idx, st)
                 | Inl e \<Rightarrow> Inl UB) (\<lambda>(idx, st).
          ebind (add_att_entry k st nInodeDir InodeDir nInodeEnt op) (\<lambda>(InodeDir, InodeEnt, st).
          let i = idx div of_nat (DPC k);
              kk = unat (idx mod of_nat (DPC k))
          in
          ebind (soReadFileCluster k st nInodeDir i) (\<lambda>(dc, st).
          ebind (info_de k (info dc)) (\<lambda>es.
          ebind (arr_set es kk \<lparr>de_name = strncpy_name k eName, de_nInode = nInodeEnt\<rparr>) (\<lambda>es.
          let es = (if kk = 0 \<and> i > 0 then hd es # replicate (DPC k - 1) (empty_de k) else es);
              InodeDir = (if kk = 0 \<and> i > 0
                          then InodeDir\<lparr>size_ino := size_ino InodeDir +
                                                     of_nat (sizeof_SODirEntry k * DPC k)\<rparr>
                          else InodeDir)
          in
          ebind (soWriteInode st InodeDir nInodeDir IUIN) (\<lambda>st.
          ebind (soWriteFileCluster k st nInodeDir i (De es)) (\<lambda>st.
          soWriteInode st InodeEnt nInodeEnt IUIN)))))))))))"


section \<open>Allocating, freeing and cleaning inodes\<close>

text \<open>
  Modelled from the spec: \<open>soQCheckFCInode\<close> of the absent consistency library; a free
  inode is in the clean state if its list of file clusters is empty.
\<close>

definition soQCheckFCInode :: "SOInode \<Rightarrow> error option" where
  "soQCheckFCInode ino =
     (if mode ino AND INODE_FREE = INODE_FREE \<and> cluCount ino = 0 \<and>
         list_all (\<lambda>r. r = NULL_CLUSTER) (d ino) \<and> i1 ino = NULL_CLUSTER \<and> i2 ino = NULL_CLUSTER
      then None else Some EFININVAL)"

definition soCleanInode :: "conf \<Rightarrow> sofs \<Rightarrow> u32 \<Rightarrow> error + sofs" where
  "soCleanInode k st nInode =
     (if nInode = 0 \<or> nInode > iTotal (sb st) then Inl EINVAL
      else
        ebind (soReadInode st nInode FDIN) (\<lambda>(inode, st).
        echeck (soQCheckFDInode inode) (
        soHandleFileClusters k st nInode 0 CLEAN)))"

definition soAllocInode :: "conf \<Rightarrow> sofs \<Rightarrow> u32 \<Rightarrow> error + u32 \<times> sofs" where
  "soAllocInode k st type =
     (if type \<noteq> ucast INODE_DIR \<and> type \<noteq> ucast INODE_FILE \<and> type \<noteq> ucast INODE_SYMLINK
        then Inl EINVAL
      else echeck (soQCheckSuperBlock (sb st)) (echeck (soQCheckInT (sb st)) (
        if iFree (sb st) = 0 then Inl ENOSPC
        else
          let p_nInode = iHead (sb st) in
          ebind (if soQCheckFCInode (itable st p_nInode) \<noteq> None
                 then soCleanInode k st p_nInode else Inr st) (\<lambda>st.
          let inode = itable st p_nInode;
              p_sb = (sb st)\<lparr>iHead := vD1 inode\<rparr>;
              inode = inode\<lparr>mode := ucast type, owner := uid st, group := gid st,
                            vD1 := now st, vD2 := now st, refCount := 0, size_ino := 0,
                            cluCount := 0, i1 := NULL_CLUSTER, i2 := NULL_CLUSTER,
                            d := replicate (N_DIRECT k) NULL_CLUSTER\<rparr>;
              st = st\<lparr>sb := p_sb, itable := (itable st)(p_nInode := inode)\<rparr>;
              st = (if iFree (sb st) = 1
                    then st\<lparr>sb := (sb st)\<lparr>iHead := NULL_INODE, iTail := NULL_INODE\<rparr>\<rparr>
                    else st\<lparr>itable := (itable st)
                                (iHead (sb st) := (itable st (iHead (sb st)))\<lparr>vD2 := NULL_INODE\<rparr>)\<rparr>)
          in Inr (p_nInode, st\<lparr>sb := (sb st)\<lparr>iFree := iFree (sb st) - 1\<rparr>\<rparr>)))))"

definition soFreeInode :: "sofs \<Rightarrow> u32 \<Rightarrow> error + sofs" where
  "soFreeInode st nInode =
     (if nInode = 0 \<or> nInode \<ge> iTotal (sb st) then Inl EINVAL
      else echeck (soQCheckInT (sb st)) (
        let inode = itable st nInode in
        echeck (soQCheckInodeIU inode) (
        if \<not> file_type (mode inode) then Inl EIUININVAL
        else if refCount inode \<noteq> 0 then Inl EINVAL
        else
          let inode = inode\<lparr>mode := mode inode OR INODE_FREE\<rparr> in
          if iFree (sb st) = 0 then
            Inr (st\<lparr>itable := (itable st)(nInode := inode\<lparr>vD2 := NULL_INODE, vD1 := NULL_INODE\<rparr>),
                    sb := (sb st)\<lparr>iHead := nInode, iTail := nInode, iFree := iFree (sb st) + 1\<rparr>\<rparr>)
          else
            let st = st\<lparr>itable := (itable st)
                          (nInode := inode\<lparr>vD2 := iTail (sb st), vD1 := NULL_INODE\<rparr>)\<rparr>;
                st = st\<lparr>itable := (itable st)
                          (iTail (sb st) := (itable st (iTail (sb st)))\<lparr>vD1 := nInode\<rparr>)\<rparr>
            in Inr (st\<lparr>sb := (sb st)\<lparr>iTail := nInode, iFree := iFree (sb st) + 1\<rparr>\<rparr>))))"

section \<open>Removing and detaching a directory entry\<close>

definition REM :: u32 where "REM = 0"
definition DETACH :: u32 where "DETACH = 1"

definition soRemDetachDirEntry :: "conf \<Rightarrow> sofs \<Rightarrow> u32 \<Rightarrow> char list \<Rightarrow> u32 \<Rightarrow> error + sofs" where
  "soRemDetachDirEntry k st nInodeDir eName op =
     (if (op \<noteq> DETACH \<and> op \<noteq> REM) \<or> nInodeDir > iTotal (sb st) then Inl EINVAL
      else
        ebind (soReadInode st nInodeDir IUIN) (\<lambda>(inodeDir, st).
        if mode inodeDir AND INODE_DIR \<noteq> INODE_DIR then Inl ENOTDIR
        else echeck (soQCheckDirCont k st inodeDir) (
        if length eName > MAX_NAME k then Inl ENAMETOOLONG
        else
          ebind (case soAccessGranted st nInodeDir X of Inl e \<Rightarrow> Inl EACCES | Inr st \<Rightarrow> Inr st)
            (\<lambda>st.
          ebind (case soAccessGranted st nInodeDir W of Inl e \<Rightarrow> Inl EPERM | Inr st \<Rightarrow> Inr st)
            (\<lambda>st.
          ebind (case soGetDirEntryByName k st nInodeDir eName of
                   Inl e \<Rightarrow> Inl e
                 | Inr (NoEnt idx, st) \<Rightarrow> Inl ENOENT
                 | Inr (Found nInodeEnt dirInd, st) \<Rightarrow> Inr (nInodeEnt, dirInd, st))
            (\<lambda>(nInodeEnt, dirInd, st).
          ebind (soReadInode st nInodeEnt IUIN) (\<lambda>(inodeEnt, st).
          let clustInd = dirInd div of_nat (DPC k);
              entInd = unat (dirInd mod of_nat (DPC k))
          in
          if nInodeDir \<ge> iTableSize (sb st) then Inl EINVAL
          else
            ebind (if op = REM then
                     ebind (if mode inodeEnt AND INODE_DIR = INODE_DIR
                            then soCheckDirectoryEmptiness k st nInodeEnt else Inr st) (\<lambda>st.
                     ebind (soReadFileCluster k st nInodeDir clustInd) (\<lambda>(dc, st).
                     ebind (info_de k (info dc)) (\<lambda>es.
                     ebind (arr_get es entInd) (\<lambda>e.
                     let nm = (de_name e)[MAX_NAME k := de_name e ! 0];
                         nm = nm[0 := CHR 0x00]
                     in Inr (es[entInd := e\<lparr>de_name := nm\<rparr>], st)))))
                   else
                     ebind (soReadFileCluster k st nInodeDir clustInd) (\<lambda>(dc, st).
                     ebind (info_de k (info dc)) (\<lambda>es.
                     ebind (arr_set es entInd (empty_de k)) (\<lambda>es. Inr (es, st)))))
              (\<lambda>(es, st).
            ebind (soWriteFileCluster k st nInodeDir clustInd (De es)) (\<lambda>st.
            let inodeEnt = (if mode inodeEnt AND INODE_DIR = INODE_DIR
                            then inodeEnt\<lparr>refCount := refCount inodeEnt - 2\<rparr>
                            else inodeEnt\<lparr>refCount := refCount inodeEnt - 1\<rparr>);
                inodeDir = (if mode inodeEnt AND INODE_DIR = INODE_DIR
                            then inodeDir\<lparr>refCount := refCount inodeDir - 1\<rparr>
                            else inodeDir)
            in
            ebind (soWriteInode st inodeEnt nInodeEnt IUIN) (\<lambda>st.
            ebind (if refCount inodeEnt = 0 \<and> op = REM then
                     ebind (soHandleFileClusters k st nInodeEnt 0 FREE) (\<lambda>st.
                     soFreeInode st nInodeEnt)
                   else Inr st) (\<lambda>st.
            soWriteInode st inodeDir nInodeDir IUIN)))))))))))"


section \<open>A small configuration\<close>

text \<open>
  A configuration with small tables, on which the operations are run below: one direct
  reference, two references per cluster (so that a file has \<open>1 + 2 + 2 * 2 = 7\<close> cluster
  positions), two directory entries per cluster, two inodes per block, names of at most
  three characters and caches of two references.  Its two absent functions always fail;
  no run below reaches them.
\<close>

definition tiny :: conf where
  "tiny = \<lparr>N_DIRECT = 1, RPC = 2, DPC = 2, IPB = 2, MAX_NAME = 3, DZONE_CACHE_SIZE = 2,
            soCleanDataCluster = (\<lambda>st nInode nClust. Inl ELIBBAD),
            soCheckDirectoryEmptiness = (\<lambda>st nInode. Inl ELIBBAD)\<rparr>"

definition blank :: sofs where
  "blank = \<lparr>sb = \<lparr>magic = 0, nTotal = 0, iTableStart = 0, iTableSize = 0, iTotal = 0,
                   iFree = 0, iHead = 0, iTail = 0, dZoneStart = 0, dZoneTotal = 0,
                   dZoneFree = 0, dHead = 0, dTail = 0,
                   dZoneRetriev = \<lparr>cacheIdx = 0, cache = []\<rparr>,
                   dZoneInsert = \<lparr>cacheIdx = 0, cache = []\<rparr>\<rparr>,
             itable = (\<lambda>n. \<lparr>mode = 0, refCount = 0, owner = 0, group = 0, size_ino = 0,
                              cluCount = 0, vD1 = 0, vD2 = 0, d = [], i1 = 0, i2 = 0\<rparr>),
             dzone = (\<lambda>c. \<lparr>prev = 0, next = 0, stat = 0, info = Zero\<rparr>),
             uid = 1000, gid = 1000, euid = 1000, egid = 1000, now = 77\<rparr>"

text \<open>The device formatted with four inodes and eight data clusters.\<close>

definition fs0 :: sofs where
  "fs0 = mkfs tiny True Zero blank 35 4 8"

text \<open>The same configuration with eight inodes in a block of the table of inodes.\<close>

definition format8 :: conf where
  "format8 = tiny\<lparr>IPB := 8\<rparr>"

text \<open>
  Runs on the formatted device: a regular file is created (it is inode 1), and the root
  directory is filled with the entries \<open>a\<close> and \<open>b\<close> for two regular files while a third
  inode is kept for a further entry.
\<close>

definition file1 :: "error + u32 \<times> sofs" where
  "file1 = soAllocInode tiny fs0 (ucast INODE_FILE)"

definition dir_full :: "error + u32 \<times> sofs" where
  "dir_full =
     ebind (soAllocInode tiny fs0 (ucast INODE_FILE)) (\<lambda>(n1, st).
     ebind (soAllocInode tiny st (ucast INODE_FILE)) (\<lambda>(n2, st).
     ebind (soAllocInode tiny st (ucast INODE_FILE)) (\<lambda>(n3, st).
     ebind (soAddAttDirEntry tiny st 0 ''a'' n1 ADD) (\<lambda>st.
     ebind (soAddAttDirEntry tiny st 0 ''b'' n2 ADD) (\<lambda>st. Inr (n3, st))))))"

section \<open>Access rights, as stated\<close>

text \<open>
  The permission bits of the three classes, as positions in \<open>mode\<close> (read, write, execute):
  the class is the owner's if the real user id of the caller is the owner of the inode,
  else the group's if the real group id is the group of the inode, else the others'.
\<close>

definition class_bits :: "sofs \<Rightarrow> SOInode \<Rightarrow> nat \<times> nat \<times> nat" where
  "class_bits st inode =
     (if uid st = owner inode then (8, 7, 6)
      else if gid st = group inode then (5, 4, 3)
      else (2, 1, 0))"

text \<open>
  Access is granted to root unless execution is requested and none of the three execution
  bits is set, and to any other caller if every requested bit is set in the class's triplet.
\<close>

definition granted :: "sofs \<Rightarrow> SOInode \<Rightarrow> u32 \<Rightarrow> bool" where
  "granted st inode opRequested \<longleftrightarrow>
     (if euid st = 0 then
        bit opRequested 0 \<longrightarrow> bit (mode inode) 6 \<or> bit (mode inode) 3 \<or> bit (mode inode) 0
      else
        (case class_bits st inode of (r, w, x) \<Rightarrow>
           (bit opRequested 2 \<longrightarrow> bit (mode inode) r) \<and>
           (bit opRequested 1 \<longrightarrow> bit (mode inode) w) \<and>
           (bit opRequested 0 \<longrightarrow> bit (mode inode) x)))"

text \<open>The same with the class chosen by the effective user and group ids.\<close>

definition class_bits_effective :: "sofs \<Rightarrow> SOInode \<Rightarrow> nat \<times> nat \<times> nat" where
  "class_bits_effective st inode =
     (if euid st = owner inode then (8, 7, 6)
      else if egid st = group inode then (5, 4, 3)
      else (2, 1, 0))"

definition granted_effective :: "sofs \<Rightarrow> SOInode \<Rightarrow> u32 \<Rightarrow> bool" where
  "granted_effective st inode opRequested \<longleftrightarrow>
     (if euid st = 0 then
        bit opRequested 0 \<longrightarrow> bit (mode inode) 6 \<or> bit (mode inode) 3 \<or> bit (mode inode) 0
      else
        (case class_bits_effective st inode of (r, w, x) \<Rightarrow>
           (bit opRequested 2 \<longrightarrow> bit (mode inode) r) \<and>
           (bit opRequested 1 \<longrightarrow> bit (mode inode) w) \<and>
           (bit opRequested 0 \<longrightarrow> bit (mode inode) x)))"

text \<open>
  A process that runs with the effective ids of user 1000 and the real ids of user 2000,
  and a regular file (inode 1) of user 1000 that only its owner may read, write and
  execute.
\<close>

definition fs_setuid :: sofs where
  "fs_setuid =
     fs0\<lparr>itable := (itable fs0)
            (1 := (itable fs0 1)\<lparr>mode := INODE_FILE OR INODE_RD_USR OR INODE_WR_USR OR INODE_EX_USR,
                                  owner := 1000, group := 1000\<rparr>),
         uid := 2000, gid := 2000, euid := 1000, egid := 1000\<rparr>"

section \<open>Directory content, as stated\<close>

text \<open>
  Reading an inode in use stamps its time of last access; \<open>touch\<close> is the state that
  results.
\<close>

definition touch :: "sofs \<Rightarrow> u32 \<Rightarrow> sofs" where
  "touch st nInode = st\<lparr>itable := (itable st)(nInode := (itable st nInode)\<lparr>vD1 := now st\<rparr>)\<rparr>"

text \<open>
  The test of \<open>soGetDirEntryByName\<close> for a free entry looks at the first and the last byte
  of the name; a free entry in the clean state has, by its description, the field
  \<open>nInode\<close> equal to \<open>NULL_INODE\<close> as well.
\<close>

definition name_free :: "'a params_scheme \<Rightarrow> SODirEntry \<Rightarrow> bool" where
  "name_free k e \<longleftrightarrow> de_name e ! 0 = CHR 0x00 \<and> de_name e ! MAX_NAME k = CHR 0x00"

definition free_and_clean :: "'a params_scheme \<Rightarrow> SODirEntry \<Rightarrow> bool" where
  "free_and_clean k e \<longleftrightarrow> name_free k e \<and> de_nInode e = NULL_INODE"

fun first_index :: "('a \<Rightarrow> bool) \<Rightarrow> 'a list \<Rightarrow> nat option" where
  "first_index P [] = None"
| "first_index P (x # xs) = (if P x then Some 0 else map_option Suc (first_index P xs))"

text \<open>
  The entries of a directory in the order of the scan: those of the clusters at the
  positions below \<open>size / (DPC * sizeof (SODirEntry))\<close>, as \<open>soReadFileCluster\<close> reads them.
\<close>

definition dir_cluster :: "conf \<Rightarrow> sofs \<Rightarrow> u32 \<Rightarrow> nat \<Rightarrow> SODirEntry list" where
  "dir_cluster k st nInodeDir c =
     (case ebind (soReadFileCluster k st nInodeDir (of_nat c)) (\<lambda>(dc, st). info_de k (info dc)) of
        Inl e \<Rightarrow> []
      | Inr es \<Rightarrow> es)"

definition dir_entries :: "conf \<Rightarrow> sofs \<Rightarrow> u32 \<Rightarrow> SODirEntry list" where
  "dir_entries k st nInodeDir =
     concat (map (dir_cluster k st nInodeDir)
       [0 ..< unat (size_ino (itable st nInodeDir)) div (DPC k * sizeof_SODirEntry k)])"

text \<open>
  The index handed back with \<open>-ENOENT\<close>: that of the first entry which passes the test
  \<open>P\<close> for a free entry or, if there is none, \<open>cluCount * DPC\<close>.
\<close>

definition free_idx :: "(SODirEntry \<Rightarrow> bool) \<Rightarrow> conf \<Rightarrow> sofs \<Rightarrow> u32 \<Rightarrow> u32" where
  "free_idx P k st nInodeDir =
     (case first_index P (dir_entries k st nInodeDir) of
        Some i \<Rightarrow> of_nat i
      | None \<Rightarrow> cluCount (itable st nInodeDir) * of_nat (DPC k))"

text \<open>
  The root directory of \<open>dir_full\<close> after the entry \<open>c\<close> was added: the entry is in the
  cluster at position 3, and position 2 has no cluster.
\<close>

definition dir_hole :: "error + sofs" where
  "dir_hole = ebind dir_full (\<lambda>(n3, st). soAddAttDirEntry tiny st 0 ''c'' n3 ADD)"

section \<open>The list of free inodes, as stated\<close>

text \<open>
  The list of free inodes, followed through the \<open>next\<close> fields (the member \<open>vD1\<close>) from an
  inode on, for at most the given number of nodes; \<open>None\<close> if it does not end by then.
\<close>

fun iwalk :: "nat \<Rightarrow> (u32 \<Rightarrow> SOInode) \<Rightarrow> u32 \<Rightarrow> u32 list option" where
  "iwalk 0 it n = (if n = NULL_INODE then Some [] else None)"
| "iwalk (Suc f) it n =
     (if n = NULL_INODE then Some [] else map_option ((#) n) (iwalk f it (vD1 (it n))))"

definition free_inodes :: "sofs \<Rightarrow> u32 list option" where
  "free_inodes st = iwalk (unat (iTotal (sb st))) (itable st) (iHead (sb st))"

text \<open>
  Two states that differ at most in the table of inodes: what \<open>fillInINT\<close> reads of the
  state is the same in both.
\<close>

definition same_env :: "sofs \<Rightarrow> sofs \<Rightarrow> bool" where
  "same_env s st \<longleftrightarrow> sb s = sb st \<and> uid s = uid st \<and> gid s = gid st \<and> now s = now st \<and>
     dzone s = dzone st"

section \<open>The free data clusters, as stated\<close>

text \<open>
  \<open>path nx h xs t\<close>: following the references \<open>nx\<close> from \<open>h\<close> one visits the clusters
  \<open>xs\<close>, none of them \<open>NULL_CLUSTER\<close>, and arrives at \<open>t\<close>.  \<open>nxt st\<close> is the field
  \<open>next\<close> of the clusters of the data zone.  The on-disk chain of free clusters is the
  path from \<open>dHead\<close> to \<open>NULL_CLUSTER\<close>.
\<close>

fun path :: "(u32 \<Rightarrow> u32) \<Rightarrow> u32 \<Rightarrow> u32 list \<Rightarrow> u32 \<Rightarrow> bool" where
  "path nx h [] t \<longleftrightarrow> h = t"
| "path nx h (x # xs) t \<longleftrightarrow> h = x \<and> x \<noteq> NULL_CLUSTER \<and> path nx (nx x) xs t"

definition nxt :: "sofs \<Rightarrow> u32 \<Rightarrow> u32" where
  "nxt st c = next (dzone st c)"

text \<open>
  The equation of the count: \<open>dZoneFree\<close> is the number of references held in the
  insertion cache, plus the length of the chain, plus \<open>DZONE_CACHE_SIZE\<close> minus the index
  of the retrieval cache.
\<close>

definition free_count_ok :: "'a params_scheme \<Rightarrow> sofs \<Rightarrow> bool" where
  "free_count_ok k st \<longleftrightarrow>
     (case free_chain st of
        None \<Rightarrow> False
      | Some ch \<Rightarrow>
          unat (dZoneFree (sb st)) =
            length (insert_refs (sb st)) + length ch +
            (DZONE_CACHE_SIZE k - unat (cacheIdx (dZoneRetriev (sb st)))))"

text \<open>
  The invariant of the free data clusters: the chain ends (it is the list \<open>ch\<close>), the two
  caches have \<open>DZONE_CACHE_SIZE\<close> positions and their indices are within them, no cluster
  is referenced twice by the chain and the two caches together, every referenced cluster is
  a cluster of the data zone, \<open>dTail\<close> is the last cluster of the chain, and the equation
  of the count holds.
\<close>

definition free_inv :: "'a params_scheme \<Rightarrow> sofs \<Rightarrow> bool" where
  "free_inv k st \<longleftrightarrow>
     (case free_chain st of
        None \<Rightarrow> False
      | Some ch \<Rightarrow>
          let p_sb = sb st; ins = insert_refs p_sb; ret = retriev_refs p_sb in
          DZONE_CACHE_SIZE k < 2 ^ 32 \<and>
          length (cache (dZoneInsert p_sb)) = DZONE_CACHE_SIZE k \<and>
          length (cache (dZoneRetriev p_sb)) = DZONE_CACHE_SIZE k \<and>
          unat (cacheIdx (dZoneInsert p_sb)) \<le> DZONE_CACHE_SIZE k \<and>
          unat (cacheIdx (dZoneRetriev p_sb)) \<le> DZONE_CACHE_SIZE k \<and>
          distinct (ch @ ins @ ret) \<and>
          list_all (\<lambda>c. c < dZoneTotal p_sb) (ch @ ins @ ret) \<and>
          dTail p_sb = (if ch = [] then NULL_CLUSTER else last ch) \<and>
          unat (dZoneFree p_sb) =
            length ins + length ch + (DZONE_CACHE_SIZE k - unat (cacheIdx (dZoneRetriev p_sb))))"

text \<open>
  Three allocations, and as many allocations as there are free data clusters, on the
  formatted device, all for the root directory.
\<close>

definition alloc3 :: "error + (u32 \<times> u32 \<times> u32) \<times> sofs" where
  "alloc3 =
     ebind (soAllocDataCluster tiny fs0 0 True) (\<lambda>(c1, st).
     ebind (soAllocDataCluster tiny st 0 True) (\<lambda>(c2, st).
     ebind (soAllocDataCluster tiny st 0 True) (\<lambda>(c3, st). Inr ((c1, c2, c3), st))))"

definition alloc_all :: "error + sofs" where
  "alloc_all =
     for_loop [0 ..< 7] (\<lambda>i st.
       ebind (soAllocDataCluster tiny st 0 True) (\<lambda>(c, st). Inr st)) fs0"

section \<open>Evaluation\<close>

text \<open>
  Rules with which the simplifier runs the model on a concrete state: the first argument of
  a sequencing operator is evaluated before the operator is unfolded, and the loops with a
  counter unfold on numerals.
\<close>

lemma ebind_Inl [simp]: "ebind (Inl e) f = Inl e"
  by (simp add: ebind_def)

lemma ebind_Inr [simp]: "ebind (Inr x) f = f x"
  by (simp add: ebind_def)

lemma echeck_Some [simp]: "echeck (Some e) m = Inl e"
  by (simp add: echeck_def)

lemma echeck_None [simp]: "echeck None m = m"
  by (simp add: echeck_def)

lemma ebind_weak_cong: "m = m' \<Longrightarrow> ebind m f = ebind m' f"
  by simp

lemma echeck_weak_cong: "c = c' \<Longrightarrow> echeck c m = echeck c' m"
  by simp

lemma Let_weak_cong: "a = a' \<Longrightarrow> Let a f = Let a' f"
  by simp

lemmas eval_congs =
  ebind_weak_cong echeck_weak_cong Let_weak_cong if_weak_cong
  sum.case_cong_weak option.case_cong_weak prod.case_cong_weak list.case_cong_weak

lemma walk_numeral:
  "walk (numeral n) dz c =
     (if c = NULL_CLUSTER then Some []
      else map_option ((#) c) (walk (pred_numeral n) dz (next (dz c))))"
  by (simp add: numeral_eq_Suc)

lemma replenish_loop1_numeral:
  "replenish_loop1 (numeral m) n nLCluster st =
     (if nLCluster = NULL_CLUSTER then Inr (n, nLCluster, st)
      else ebind (replenish_step n nLCluster st) (\<lambda>(nextClust, st).
             replenish_loop1 (pred_numeral m) (n + 1) nextClust st))"
  by (simp add: numeral_eq_Suc)

lemma replenish_loop2_numeral:
  "replenish_loop2 (numeral m) n nLCluster st =
     ebind (replenish_step n nLCluster st) (\<lambda>(nextClust, st).
       replenish_loop2 (pred_numeral m) (n + 1) nextClust st)"
  by (simp add: numeral_eq_Suc)

lemmas const_defs =
  NULL_INODE_def NULL_CLUSTER_def INODE_FREE_def INODE_DIR_def INODE_FILE_def
  INODE_SYMLINK_def INODE_TYPE_MASK_def INODE_RD_USR_def INODE_WR_USR_def INODE_EX_USR_def
  INODE_RD_GRP_def INODE_WR_GRP_def INODE_EX_GRP_def INODE_RD_OTH_def INODE_WR_OTH_def
  INODE_EX_OTH_def sizeof_SODirEntry_def MAX_FILE_CLUSTERS_def IUIN_def FDIN_def R_def W_def
  X_def GET_def ALLOC_def FREE_def FREE_CLEAN_def CLEAN_def ADD_def ATTACH_def REM_def
  DETACH_def

lemmas mkfs_defs =
  fillInSuperBlock_def fillInINT_inode_def fillInINT_def fillInRootDir_def fillInGenRep_def
  mkfs_def

lemmas fun_defs =
  legal_type_def soQCheckInodeIU_def soQCheckFDInode_def soReadInode_def soWriteInode_def
  check_class_def soAccessGranted_def arr_get_def arr_set_def soReadCacheCluster_def
  soWriteCacheCluster_def zero_de_def info_ref_def info_de_def free_chain_def
  insert_refs_def retriev_refs_def soQCheckSuperBlock_def soQCheckDZ_def soQCheckInT_def
  soQCheckStatDC_def deplete_body_def soDeplete_def replenish_step_def soReplenish_def
  soAllocDataCluster_def soFreeDataCluster_def store_out_def load_refs_def load_raw_def
  store_refs_def soCleanLogicalCluster_def soHandleDirect_def soHandleSIndirect_def
  soHandleDIndirect_def soHandleFileCluster_body_def no_attach_def
  soAttachLogicalCluster_def soHandleFileCluster_def soHandleFileClusters_def file_type_def
  soReadFileCluster_def soWriteFileCluster_def cstr_def strncpy_name_def empty_de_def
  soQCheckDirCont_def soGetDirEntryByName_def add_att_entry_def soAddAttDirEntry_def
  soQCheckFCInode_def soCleanInode_def soAllocInode_def soFreeInode_def
  soRemDetachDirEntry_def

lemmas eval_simps =
  fun_defs const_defs Let_def upt_rec walk_numeral replenish_loop1_numeral
  replenish_loop2_numeral word_le_nat_alt word_less_nat_alt

lemmas tiny_defs = tiny_def blank_def fs0_def mkfs_defs

lemma replicate_numeral: "replicate (numeral n) x = x # replicate (pred_numeral n) x"
  by (simp add: numeral_eq_Suc)

lemma list_update_Cons_numeral: "(x # xs)[numeral n := v] = x # xs[pred_numeral n := v]"
  by (simp add: numeral_eq_Suc)

lemmas run_simps = eval_simps replicate_numeral list_update_Cons_numeral

lemma case_Inr_E:
  assumes "case x of Inl e \<Rightarrow> False | Inr v \<Rightarrow> P v"
  obtains v where "x = Inr v" and "P v"
  using assms by (cases x) auto

lemma ebind_eq_Inr_iff: "ebind m f = Inr r \<longleftrightarrow> (\<exists>x. m = Inr x \<and> f x = Inr r)"
  by (cases m) simp_all

lemma echeck_eq_Inr_iff: "echeck c m = Inr r \<longleftrightarrow> c = None \<and> m = Inr r"
  by (cases c) simp_all

section \<open>The formatter: the list of free inodes\<close>

lemma same_env_refl [simp]: "same_env st st"
  by (simp add: same_env_def)

lemma same_env_itable [simp]: "same_env (st\<lparr>itable := t\<rparr>) st"
  by (simp add: same_env_def)

lemma same_env_trans: "same_env a b \<Longrightarrow> same_env b c \<Longrightarrow> same_env a c"
  by (simp add: same_env_def)

lemma fillInINT_inner:
  assumes "\<forall>s a. same_env s st \<longrightarrow> g s a = g st a"
  shows "same_env (fold (\<lambda>i st. st\<lparr>itable := (itable st)(f i := g st (f i))\<rparr>) js st) st \<and>
       (\<forall>a. itable (fold (\<lambda>i st. st\<lparr>itable := (itable st)(f i := g st (f i))\<rparr>) js st) a =
          (if a \<in> f ` set js then g st a else itable st a))"
  using assms
proof (induction js arbitrary: st)
  case Nil
  then show ?case by simp
next
  case (Cons i js)
  define s1 where "s1 = st\<lparr>itable := (itable st)(f i := g st (f i))\<rparr>"
  have e: "same_env s1 st" and t: "itable s1 = (itable st)(f i := g st (f i))"
    by (simp_all add: s1_def)
  have g1: "g s a = g st a" if "same_env s s1" for s a
    using Cons.prems same_env_trans [OF that e] by blast
  then have "\<forall>s a. same_env s s1 \<longrightarrow> g s a = g s1 a"
    using e by (metis same_env_refl)
  from Cons.IH [OF this]
  have "same_env (fold (\<lambda>i st. st\<lparr>itable := (itable st)(f i := g st (f i))\<rparr>) js s1) s1"
    and "\<forall>a. itable (fold (\<lambda>i st. st\<lparr>itable := (itable st)(f i := g st (f i))\<rparr>) js s1) a =
          (if a \<in> f ` set js then g s1 a else itable s1 a)"
    by blast+
  moreover have "g s1 a = g st a" for a
    using g1 [of s1 a] by simp
  ultimately show ?case
    unfolding fold_simps s1_def [symmetric]
    using e t by (auto intro: same_env_trans)
qed


lemma fillInINT_outer:
  assumes "\<forall>s a. same_env s st \<longrightarrow> g s a = g st a"
  shows "same_env (fold (\<lambda>b st.
             fold (\<lambda>i st. st\<lparr>itable := (itable st)(f b i := g st (f b i))\<rparr>) js st) bs st) st \<and>
       (\<forall>a. itable (fold (\<lambda>b st.
             fold (\<lambda>i st. st\<lparr>itable := (itable st)(f b i := g st (f b i))\<rparr>) js st) bs st) a =
          (if a \<in> (\<Union>b\<in>set bs. f b ` set js) then g st a else itable st a))"
  using assms
proof (induction bs arbitrary: st)
  case Nil
  then show ?case by simp
next
  case (Cons b bs)
  define s1 where "s1 = fold (\<lambda>i st. st\<lparr>itable := (itable st)(f b i := g st (f b i))\<rparr>) js st"
  from fillInINT_inner [where f = "f b", OF Cons.prems]
  have e: "same_env s1 st"
    and t: "\<forall>a. itable s1 a = (if a \<in> f b ` set js then g st a else itable st a)"
    unfolding s1_def by blast+
  have g1: "g s a = g st a" if "same_env s s1" for s a
    using Cons.prems same_env_trans [OF that e] by blast
  then have "\<forall>s a. same_env s s1 \<longrightarrow> g s a = g s1 a"
    using e by (metis same_env_refl)
  from Cons.IH [OF this]
  have "same_env (fold (\<lambda>b st.
             fold (\<lambda>i st. st\<lparr>itable := (itable st)(f b i := g st (f b i))\<rparr>) js st) bs s1) s1"
    and "\<forall>a. itable (fold (\<lambda>b st.
             fold (\<lambda>i st. st\<lparr>itable := (itable st)(f b i := g st (f b i))\<rparr>) js st) bs s1) a =
          (if a \<in> (\<Union>b\<in>set bs. f b ` set js) then g s1 a else itable s1 a)"
    by blast+
  moreover have "g s1 a = g st a" for a
    using g1 [of s1 a] by simp
  ultimately show ?case
    unfolding fold_simps s1_def [symmetric]
    using e t by (auto intro: same_env_trans)
qed

lemma fillInINT_inode_cong:
  "\<forall>s a. same_env s st \<longrightarrow> fillInINT_inode k s a = fillInINT_inode k st a"
  by (clarsimp simp: fillInINT_inode_def same_env_def Let_def)

lemma fillInINT_effect:
  "sb (fillInINT k st) = sb st \<and> dzone (fillInINT k st) = dzone st \<and>
   (\<forall>a. itable (fillInINT k st) a =
      (if a \<in> (\<Union>b\<in>{..<unat (iTableSize (sb st))}.
                 (\<lambda>i. of_nat (IPB k) * of_nat b + of_nat i) ` {..<IPB k})
       then fillInINT_inode k st a else itable st a))"
  using fillInINT_outer [where g = "fillInINT_inode k" and st = st
      and f = "\<lambda>b i. of_nat (IPB k) * of_nat b + of_nat i" and js = "[0 ..< IPB k]"
      and bs = "[0 ..< unat (iTableSize (sb st))]", OF fillInINT_inode_cong]
  by (simp add: fillInINT_def Let_def atLeast0LessThan same_env_def)

lemma inode_written:
  fixes n :: u32
  assumes "unat n < nblk * ipb"
  shows "n \<in> (\<Union>b\<in>{..<nblk}. (\<lambda>i. of_nat ipb * of_nat b + of_nat i) ` {..<ipb})"
proof -
  from assms have pos: "0 < ipb"
    by (cases ipb) auto
  have "n = of_nat (unat n)"
    by simp
  also have "unat n = ipb * (unat n div ipb) + unat n mod ipb"
    by simp
  finally have "n = of_nat ipb * of_nat (unat n div ipb) + of_nat (unat n mod ipb)"
    by (simp only: of_nat_add of_nat_mult)
  moreover have "unat n div ipb < nblk"
    using assms pos by (simp add: less_mult_imp_div_less)
  moreover have "unat n mod ipb < ipb"
    using pos by simp
  ultimately show ?thesis
    by blast
qed


lemma iwalk_NULL [simp]: "iwalk f it NULL_INODE = Some []"
  by (cases f) simp_all

lemma iwalk_ascending:
  fixes T :: u32
  assumes "\<forall>n. 1 \<le> n \<and> n < T \<longrightarrow> vD1 (it n) = (if n = T - 1 then NULL_INODE else n + 1)"
      and "1 \<le> j" and "j < unat T" and "unat T - j \<le> f"
  shows "iwalk f it (of_nat j) = Some (map of_nat [j ..< unat T])"
  using assms(2-)
proof (induction f arbitrary: j)
  case 0
  then show ?case by simp
next
  case (Suc f)
  have lt: "unat T < 2 ^ 32"
    using unsigned_less [of T, where 'a = nat] by simp
  with Suc.prems have uj: "unat (of_nat j :: u32) = j"
    by (simp add: unat_of_nat)
  then have n1: "1 \<le> (of_nat j :: u32)" and n2: "(of_nat j :: u32) < T"
    using Suc.prems by (simp_all add: word_le_nat_alt word_less_nat_alt)
  have nn: "(of_nat j :: u32) \<noteq> NULL_INODE"
    using n2 by (auto simp: NULL_INODE_def)
  have T0: "T \<noteq> 0"
    using Suc.prems by (auto simp: unat_eq_0)
  have last: "(of_nat j :: u32) = T - 1 \<longleftrightarrow> j = unat T - 1"
    using uj T0 by (simp add: word_unat_eq_iff unat_minus_one)
  have up: "[j ..< unat T] = j # [Suc j ..< unat T]"
    using Suc.prems by (simp add: upt_conv_Cons)
  show ?case
  proof (cases "j = unat T - 1")
    case True
    with assms(1) n1 n2 last have "vD1 (it (of_nat j)) = NULL_INODE"
      by simp
    moreover from True Suc.prems have "[Suc j ..< unat T] = []"
      by simp
    ultimately show ?thesis
      using nn by (simp add: up)
  next
    case False
    with assms(1) n1 n2 last have "vD1 (it (of_nat j)) = of_nat (Suc j)"
      by simp
    moreover from False Suc.prems have "iwalk f it (of_nat (Suc j)) = Some (map of_nat [Suc j ..< unat T])"
      by (intro Suc.IH) simp_all
    ultimately show ?thesis
      using nn by (simp add: up)
  qed
qed

lemma fold_dzone_only:
  "sb (fold (\<lambda>n st. st\<lparr>dzone := F n st\<rparr>) ns st) = sb st \<and>
   itable (fold (\<lambda>n st. st\<lparr>dzone := F n st\<rparr>) ns st) = itable st"
  by (induction ns arbitrary: st) simp_all

lemma fillInGenRep_frame:
  "sb (fillInGenRep k zero junk st) = sb st" "itable (fillInGenRep k zero junk st) = itable st"
  using fold_dzone_only [where st = st and ns = "[1 ..< unat (dZoneTotal (sb st))]"
    and F = "\<lambda>n st. (dzone st)(of_nat n :=
      \<lparr>prev = (if (of_nat n :: u32) = 1 then NULL_CLUSTER else of_nat n - 1),
       next = (if (of_nat n :: u32) = dZoneTotal (sb st) - 1 then NULL_CLUSTER else of_nat n + 1),
       stat = NULL_INODE, info = (if zero then Zero else junk)\<rparr>)"]
  unfolding fillInGenRep_def Let_def by simp_all

lemma fillInRootDir_frame:
  "sb (fillInRootDir k st) = sb st" "itable (fillInRootDir k st) = itable st"
  by (simp_all add: fillInRootDir_def Let_def)




section \<open>Attaching a cluster at the last position of a file\<close>

lemma soHandleFileCluster_body_out_of_range:
  "MAX_FILE_CLUSTERS k \<le> unat clustInd \<Longrightarrow>
   soHandleFileCluster_body k att st nInode clustInd op p_outVal = Inl EINVAL"
  by (simp add: soHandleFileCluster_body_def)

lemma unat_succ_last:
  fixes clustInd :: u32
  assumes "unat clustInd + 1 = m" and "m < 2 ^ 32"
  shows "unat (clustInd + 1) = m"
  using assms by (simp add: unat_word_ariths)

text \<open>
  Claim C8.  \<open>soAttachLogicalCluster\<close> should give the cluster attached at the position
  \<open>MAX_FILE_CLUSTERS - 1\<close> the \<open>next\<close> field \<open>NULL_CLUSTER\<close> and succeed.  The source tests
  \<open>clustInd != MAX_FILE_CLUSTERS\<close>, so at the last position it asks for the cluster at the
  position \<open>MAX_FILE_CLUSTERS\<close>, which \<open>soHandleFileCluster\<close> rejects: the attachment fails
  in every state.
\<close>

theorem soAttachLogicalCluster_last_position_fails:
  assumes last: "unat clustInd + 1 = MAX_FILE_CLUSTERS k"
      and small: "MAX_FILE_CLUSTERS k < 2 ^ 32"
  shows "\<exists>e. soAttachLogicalCluster k st nInode clustInd nLClust = Inl e"
proof -
  have nxt: "unat (clustInd + 1) = MAX_FILE_CLUSTERS k"
    using last small by (rule unat_succ_last)
  have ne: "unat clustInd \<noteq> MAX_FILE_CLUSTERS k"
    using last by simp
  have get: "soHandleFileCluster_body k no_attach s nInode (clustInd + 1) GET True = Inl EINVAL"
    for s
    by (rule soHandleFileCluster_body_out_of_range) (simp add: nxt)
  have "soAttachLogicalCluster k st nInode clustInd nLClust \<noteq> Inr st'" for st'
    unfolding soAttachLogicalCluster_def
    by (auto simp: ebind_eq_Inr_iff ne get split: if_splits prod.splits option.splits)
  then show ?thesis
    by (cases "soAttachLogicalCluster k st nInode clustInd nLClust") auto
qed

text \<open>
  A run: the regular file (inode 1 of the formatted device) is given a data cluster by
  \<open>soAllocDataCluster\<close>, whose \<open>stat\<close> field then holds the number of the inode.  The
  attachment of this cluster at the position 6, the last one, returns \<open>-EINVAL\<close>; at the
  position 5 it succeeds.
\<close>

theorem soAttachLogicalCluster_last_position_witness:
  "\<exists>nInode st1 nLClust st2.
     file1 = Inr (nInode, st1) \<and>
     soAllocDataCluster tiny st1 nInode True = Inr (nLClust, st2) \<and>
     stat (dzone st2 nLClust) = nInode \<and>
     unat (6 :: u32) + 1 = MAX_FILE_CLUSTERS tiny \<and> MAX_FILE_CLUSTERS tiny < 2 ^ 32 \<and>
     soAttachLogicalCluster tiny st2 nInode 6 nLClust = Inl EINVAL \<and>
     (\<exists>st3. soAttachLogicalCluster tiny st2 nInode 5 nLClust = Inr st3)"
proof -
  have a: "unat (6 :: u32) + 1 = MAX_FILE_CLUSTERS tiny"
    by (simp add: tiny_def MAX_FILE_CLUSTERS_def)
  have b: "MAX_FILE_CLUSTERS tiny < 2 ^ 32"
    by (simp add: tiny_def MAX_FILE_CLUSTERS_def)
  have "case file1 of Inl e \<Rightarrow> False | Inr (nInode, st1) \<Rightarrow>
     (case soAllocDataCluster tiny st1 nInode True of Inl e \<Rightarrow> False | Inr (nLClust, st2) \<Rightarrow>
        stat (dzone st2 nLClust) = nInode \<and>
        (case soAttachLogicalCluster tiny st2 nInode 6 nLClust of
           Inl e \<Rightarrow> e = EINVAL | Inr st3 \<Rightarrow> False) \<and>
        (case soAttachLogicalCluster tiny st2 nInode 5 nLClust of
           Inl e \<Rightarrow> False | Inr st3 \<Rightarrow> True))"
    by (simp add: file1_def tiny_defs run_simps split del: if_split cong: eval_congs)
  then obtain v where v: "file1 = Inr v"
    and "case v of (nInode, st1) \<Rightarrow>
     (case soAllocDataCluster tiny st1 nInode True of Inl e \<Rightarrow> False | Inr (nLClust, st2) \<Rightarrow>
        stat (dzone st2 nLClust) = nInode \<and>
        (case soAttachLogicalCluster tiny st2 nInode 6 nLClust of
           Inl e \<Rightarrow> e = EINVAL | Inr st3 \<Rightarrow> False) \<and>
        (case soAttachLogicalCluster tiny st2 nInode 5 nLClust of
           Inl e \<Rightarrow> False | Inr st3 \<Rightarrow> True))"
    by (rule case_Inr_E)
  moreover obtain nInode st1 where "v = (nInode, st1)"
    by (cases v)
  ultimately have f: "file1 = Inr (nInode, st1)"
    and "case soAllocDataCluster tiny st1 nInode True of Inl e \<Rightarrow> False | Inr (nLClust, st2) \<Rightarrow>
        stat (dzone st2 nLClust) = nInode \<and>
        (case soAttachLogicalCluster tiny st2 nInode 6 nLClust of
           Inl e \<Rightarrow> e = EINVAL | Inr st3 \<Rightarrow> False) \<and>
        (case soAttachLogicalCluster tiny st2 nInode 5 nLClust of
           Inl e \<Rightarrow> False | Inr st3 \<Rightarrow> True)"
    by simp_all
  then obtain w where w: "soAllocDataCluster tiny st1 nInode True = Inr w"
    and "case w of (nLClust, st2) \<Rightarrow>
        stat (dzone st2 nLClust) = nInode \<and>
        (case soAttachLogicalCluster tiny st2 nInode 6 nLClust of
           Inl e \<Rightarrow> e = EINVAL | Inr st3 \<Rightarrow> False) \<and>
        (case soAttachLogicalCluster tiny st2 nInode 5 nLClust of
           Inl e \<Rightarrow> False | Inr st3 \<Rightarrow> True)"
    by (auto elim: case_Inr_E)
  moreover obtain nLClust st2 where "w = (nLClust, st2)"
    by (cases w)
  ultimately have g: "soAllocDataCluster tiny st1 nInode True = Inr (nLClust, st2)"
    and s: "stat (dzone st2 nLClust) = nInode"
    and l: "case soAttachLogicalCluster tiny st2 nInode 6 nLClust of
           Inl e \<Rightarrow> e = EINVAL | Inr st3 \<Rightarrow> False"
    and p: "case soAttachLogicalCluster tiny st2 nInode 5 nLClust of
           Inl e \<Rightarrow> False | Inr st3 \<Rightarrow> True"
    by simp_all
  from soAttachLogicalCluster_last_position_fails [OF a b, of st2 nInode nLClust]
  obtain e where e: "soAttachLogicalCluster tiny st2 nInode 6 nLClust = Inl e"
    by blast
  with l have "soAttachLogicalCluster tiny st2 nInode 6 nLClust = Inl EINVAL"
    by simp
  moreover from p have "\<exists>st3. soAttachLogicalCluster tiny st2 nInode 5 nLClust = Inr st3"
    by (cases "soAttachLogicalCluster tiny st2 nInode 5 nLClust") auto
  ultimately show ?thesis
    using f g s a b by blast
qed

section \<open>Runs on the small configuration\<close>

text \<open>
  Claim C1.  A write to a position of a file that is not yet allocated should allocate the
  cluster, for every position below \<open>MAX_FILE_CLUSTERS\<close>.  On the formatted device, for
  the new regular file (inode 1), the position 6 is the last one (\<open>MAX_FILE_CLUSTERS = 7\<close>);
  it is not allocated (\<open>GET\<close> yields \<open>NULL_CLUSTER\<close>), and \<open>soWriteFileCluster\<close> returns
  \<open>-EINVAL\<close>: the allocation fails when the cluster is attached.
\<close>

theorem soWriteFileCluster_last_position:
  "case file1 of Inl e \<Rightarrow> False | Inr (nInode, st) \<Rightarrow>
     nInode = 1 \<and> unat (6 :: u32) < MAX_FILE_CLUSTERS tiny \<and>
     (case soHandleFileCluster tiny st nInode 6 GET True of
        Inl e \<Rightarrow> False | Inr (out, st1) \<Rightarrow> out = Some NULL_CLUSTER) \<and>
     soWriteFileCluster tiny st nInode 6 (Data [1, 2, 3]) = Inl EINVAL"
  by (simp add: file1_def tiny_defs run_simps split del: if_split cong: eval_congs)

text \<open>
  Claim C4.  \<open>soHandleFileClusters\<close> should apply the operation to every allocated position
  from the starting index on.  The regular file holds one cluster, at position 5 (the first
  position under the second reference of \<open>i2\<close>; the first reference of \<open>i2\<close> is
  \<open>NULL_CLUSTER\<close>).  The sweep \<open>FREE_CLEAN\<close> from position 4 succeeds and leaves position 5
  as it was: the reference is still there, the inode still counts three clusters and the
  cluster still belongs to the inode.  The inner loop starts at \<open>i = 1\<close> for the second
  reference of \<open>i2\<close> as well, because \<open>i\<close> is reset only after a reference other than
  \<open>NULL_CLUSTER\<close> has been swept.
\<close>

theorem soHandleFileClusters_skips_position:
  "case file1 of Inl e \<Rightarrow> False | Inr (nInode, st) \<Rightarrow>
     (case soWriteFileCluster tiny st nInode 5 (Data [1, 2, 3]) of Inl e \<Rightarrow> False | Inr st \<Rightarrow>
     (case soHandleFileClusters tiny st nInode 4 FREE_CLEAN of Inl e \<Rightarrow> False | Inr st' \<Rightarrow>
     (case soHandleFileCluster tiny st' nInode 5 GET True of Inl e \<Rightarrow> False | Inr (out, st2) \<Rightarrow>
        out = Some 3 \<and> cluCount (itable st' nInode) = 3 \<and> stat (dzone st' 3) = nInode)))"
  by (simp add: file1_def tiny_defs run_simps split del: if_split cong: eval_congs)

text \<open>
  Claim C3.  After a successful \<open>soAddAttDirEntry\<close> of a name, \<open>soGetDirEntryByName\<close>
  should find the name.  The root directory holds \<open>.\<close>, \<open>..\<close>, \<open>a\<close> and \<open>b\<close> in two full
  clusters, the second of them under \<open>i1\<close>, so that \<open>cluCount\<close> is 3.  The name \<open>c\<close> is not
  present (the lookup answers \<open>-ENOENT\<close> with the index \<open>cluCount * DPC = 6\<close>); adding it
  succeeds; the lookup of \<open>c\<close> after that still answers \<open>-ENOENT\<close>.  The entry went to
  the cluster position 3 while the size of the directory grew to three clusters only, the
  positions 0 to 2.
\<close>

theorem soAddAttDirEntry_entry_not_found:
  "case dir_full of Inl e \<Rightarrow> False | Inr (n3, st) \<Rightarrow>
     (case soGetDirEntryByName tiny st 0 ''c'' of
        Inl e \<Rightarrow> False | Inr (r, st0) \<Rightarrow> r = NoEnt 6) \<and>
     (case soAddAttDirEntry tiny st 0 ''c'' n3 ADD of Inl e \<Rightarrow> False | Inr st' \<Rightarrow>
     (case soGetDirEntryByName tiny st' 0 ''c'' of
        Inl e \<Rightarrow> False | Inr (r, st1) \<Rightarrow> r = NoEnt 4))"
  by (simp add: dir_full_def tiny_defs run_simps split del: if_split cong: eval_congs)

section \<open>The pointer to the result of \<open>soHandleFileCluster\<close>\<close>

lemmas op_defs = GET_def ALLOC_def FREE_def FREE_CLEAN_def CLEAN_def

lemma soHandleDirect_no_out:
  assumes "op = FREE \<or> op = FREE_CLEAN \<or> op = CLEAN"
      and "soHandleDirect k att st nInode p_inode clustInd op p_outVal = Inr (out, ino, st')"
  shows "out = None"
  using assms unfolding soHandleDirect_def
  by (auto simp: ebind_eq_Inr_iff op_defs split: if_splits)

lemma soHandleSIndirect_no_out:
  assumes "op = FREE \<or> op = FREE_CLEAN \<or> op = CLEAN"
      and "soHandleSIndirect k att st nInode p_inode clustInd op p_outVal = Inr (out, ino, st')"
  shows "out = None"
  using assms unfolding soHandleSIndirect_def Let_def
  by (auto simp: ebind_eq_Inr_iff op_defs split: if_splits prod.splits)

lemma soHandleDIndirect_no_out:
  assumes "op = FREE \<or> op = FREE_CLEAN \<or> op = CLEAN"
      and "soHandleDIndirect k att st nInode p_inode clustInd op p_outVal = Inr (out, ino, st')"
  shows "out = None"
  using assms unfolding soHandleDIndirect_def Let_def
  by (auto simp: ebind_eq_Inr_iff op_defs split: if_splits prod.splits)

lemma soHandleFileCluster_body_handler:
  assumes "soHandleFileCluster_body k att st nInode clustInd op p_outVal = Inr (out, st')"
  shows "\<exists>p s ino ino' s'.
           soHandleDirect k att s nInode ino clustInd op p = Inr (out, ino', s') \<or>
           soHandleSIndirect k att s nInode ino clustInd op p = Inr (out, ino', s') \<or>
           soHandleDIndirect k att s nInode ino clustInd op p = Inr (out, ino', s')"
proof -
  define h where "h s ino p =
    (if unat clustInd < N_DIRECT k
       then soHandleDirect k att s nInode ino clustInd op p
     else if unat clustInd \<ge> N_DIRECT k \<and> unat clustInd < N_DIRECT k + RPC k
       then soHandleSIndirect k att s nInode ino clustInd op p
     else soHandleDIndirect k att s nInode ino clustInd op p)" for s ino p
  from assms have "\<exists>p s ino ino' s'. h s ino p = Inr (out, ino', s')"
    unfolding soHandleFileCluster_body_def Let_def h_def [symmetric]
    by (fastforce simp: ebind_eq_Inr_iff split: if_splits prod.splits)
  then obtain p s ino ino' s' where "h s ino p = Inr (out, ino', s')"
    by blast
  then show ?thesis
    unfolding h_def by (simp split: if_splits) blast+
qed

text \<open>
  Claim C10.  For the operations \<open>FREE\<close>, \<open>FREE_CLEAN\<close> and \<open>CLEAN\<close> a pointer
  \<open>p_outVal\<close> other than \<open>NULL\<close> is not rejected: the call behaves as the call with
  \<open>NULL\<close> does, and nothing is stored through the pointer.  With \<open>GET\<close> and \<open>ALLOC\<close> a
  \<open>NULL\<close> pointer is answered \<open>-EINVAL\<close>.
\<close>

theorem soHandleFileCluster_outVal:
  "((op = FREE \<or> op = FREE_CLEAN \<or> op = CLEAN) \<longrightarrow>
      soHandleFileCluster k st nInode clustInd op True =
      soHandleFileCluster k st nInode clustInd op False \<and>
      (\<forall>p_outVal out st'.
         soHandleFileCluster k st nInode clustInd op p_outVal = Inr (out, st') \<longrightarrow> out = None)) \<and>
   ((op = GET \<or> op = ALLOC) \<longrightarrow>
      soHandleFileCluster k st nInode clustInd op False = Inl EINVAL)"
proof (intro conjI impI allI)
  assume f: "op = FREE \<or> op = FREE_CLEAN \<or> op = CLEAN"
  then show "soHandleFileCluster k st nInode clustInd op True =
      soHandleFileCluster k st nInode clustInd op False"
    by (auto simp: soHandleFileCluster_def soHandleFileCluster_body_def op_defs)
next
  fix p_outVal out st'
  assume f: "op = FREE \<or> op = FREE_CLEAN \<or> op = CLEAN"
     and r: "soHandleFileCluster k st nInode clustInd op p_outVal = Inr (out, st')"
  from r have "soHandleFileCluster_body k (soAttachLogicalCluster k) st nInode clustInd op p_outVal
      = Inr (out, st')"
    by (simp add: soHandleFileCluster_def)
  from soHandleFileCluster_body_handler [OF this] show "out = None"
    by (auto dest: soHandleDirect_no_out [OF f] soHandleSIndirect_no_out [OF f]
      soHandleDIndirect_no_out [OF f])
next
  assume "op = GET \<or> op = ALLOC"
  then show "soHandleFileCluster k st nInode clustInd op False = Inl EINVAL"
    by (auto simp: soHandleFileCluster_def soHandleFileCluster_body_def)
qed



text \<open>
  A run: the regular file gets a cluster at position 0, which \<open>FREE_CLEAN\<close> with a pointer
  other than \<open>NULL\<close> then frees, storing nothing; and \<open>GET\<close> with \<open>NULL\<close> is refused.
\<close>

theorem soHandleFileCluster_outVal_witness:
  "\<exists>nInode st0 st st'.
     file1 = Inr (nInode, st0) \<and>
     soWriteFileCluster tiny st0 nInode 0 (Data [1]) = Inr st \<and>
     soHandleFileCluster tiny st nInode 0 FREE_CLEAN True = Inr (None, st') \<and>
     soHandleFileCluster tiny st nInode 0 FREE_CLEAN False = Inr (None, st') \<and>
     soHandleFileCluster tiny st nInode 0 GET False = Inl EINVAL"
proof -
  have "case file1 of Inl e \<Rightarrow> False | Inr (nInode, st) \<Rightarrow>
     (case soWriteFileCluster tiny st nInode 0 (Data [1]) of Inl e \<Rightarrow> False | Inr st \<Rightarrow>
        (case soHandleFileCluster tiny st nInode 0 FREE_CLEAN True of
           Inl e \<Rightarrow> False | Inr (out, st') \<Rightarrow> True))"
    by (simp add: file1_def tiny_defs run_simps split del: if_split cong: eval_congs)
  then obtain v where v: "file1 = Inr v"
    and "case v of (nInode, st) \<Rightarrow>
     (case soWriteFileCluster tiny st nInode 0 (Data [1]) of Inl e \<Rightarrow> False | Inr st \<Rightarrow>
        (case soHandleFileCluster tiny st nInode 0 FREE_CLEAN True of
           Inl e \<Rightarrow> False | Inr (out, st') \<Rightarrow> True))"
    by (rule case_Inr_E)
  moreover obtain nInode st0 where "v = (nInode, st0)"
    by (cases v)
  ultimately have a: "file1 = Inr (nInode, st0)"
    and "case soWriteFileCluster tiny st0 nInode 0 (Data [1]) of Inl e \<Rightarrow> False | Inr st \<Rightarrow>
        (case soHandleFileCluster tiny st nInode 0 FREE_CLEAN True of
           Inl e \<Rightarrow> False | Inr (out, st') \<Rightarrow> True)"
    by simp_all
  then obtain st where b: "soWriteFileCluster tiny st0 nInode 0 (Data [1]) = Inr st"
    and "case soHandleFileCluster tiny st nInode 0 FREE_CLEAN True of
           Inl e \<Rightarrow> False | Inr (out, st') \<Rightarrow> True"
    by (auto elim: case_Inr_E)
  then obtain r where "soHandleFileCluster tiny st nInode 0 FREE_CLEAN True = Inr r"
    by (auto elim: case_Inr_E)
  then obtain out st' where
    c: "soHandleFileCluster tiny st nInode 0 FREE_CLEAN True = Inr (out, st')"
    by (cases r) auto
  note t = soHandleFileCluster_outVal [of FREE_CLEAN tiny st nInode 0]
  note g = soHandleFileCluster_outVal [of GET tiny st nInode 0]
  from t c have d: "out = None"
    by blast
  from t c have e: "soHandleFileCluster tiny st nInode 0 FREE_CLEAN False = Inr (out, st')"
    by simp
  from g have f: "soHandleFileCluster tiny st nInode 0 GET False = Inl EINVAL"
    by simp
  from a b c d e f show ?thesis
    by blast
qed

section \<open>Access rights\<close>

lemma and_exp_eq_exp_iff_bit:
  fixes w :: "'a::len word"
  assumes "n < LENGTH('a)"
  shows "w AND 2 ^ n = 2 ^ n \<longleftrightarrow> bit w n"
proof
  assume "w AND 2 ^ n = 2 ^ n"
  then have "bit (w AND 2 ^ n) n = bit (2 ^ n :: 'a word) n"
    by simp
  then show "bit w n"
    using assms by (simp add: bit_and_iff bit_exp_iff)
next
  assume "bit w n"
  then show "w AND 2 ^ n = 2 ^ n"
    by (intro bit_word_eqI) (auto simp: bit_and_iff bit_exp_iff)
qed

lemma and_or_eq_0_iff:
  fixes w :: "'a::len word"
  shows "w AND (a OR b) = 0 \<longleftrightarrow> w AND a = 0 \<and> w AND b = 0"
  by (simp add: bit.conj_disj_distrib or_eq_0_iff)

lemma no_execute_bit:
  "mode inode AND (INODE_EX_USR OR INODE_EX_GRP OR INODE_EX_OTH) = 0 \<longleftrightarrow>
   \<not> bit (mode inode) 6 \<and> \<not> bit (mode inode) 3 \<and> \<not> bit (mode inode) 0"
  unfolding INODE_EX_USR_def INODE_EX_GRP_def INODE_EX_OTH_def
  using and_exp_eq_0_iff_not_bit [of "mode inode" 6] and_exp_eq_0_iff_not_bit [of "mode inode" 3]
    and_exp_eq_0_iff_not_bit [of "mode inode" 0]
  by (simp only: and_or_eq_0_iff) simp

lemma check_class_usr:
  "check_class m op INODE_RD_USR INODE_WR_USR INODE_EX_USR \<longleftrightarrow>
   (bit op 2 \<longrightarrow> bit m 8) \<and> (bit op 1 \<longrightarrow> bit m 7) \<and> (bit op 0 \<longrightarrow> bit m 6)"
  using and_exp_eq_exp_iff_bit [of 8 m] and_exp_eq_exp_iff_bit [of 7 m]
    and_exp_eq_exp_iff_bit [of 6 m] and_exp_eq_0_iff_not_bit [of op 2]
    and_exp_eq_0_iff_not_bit [of op 1] and_exp_eq_0_iff_not_bit [of op 0]
  by (simp add: check_class_def const_defs)

lemma check_class_grp:
  "check_class m op INODE_RD_GRP INODE_WR_GRP INODE_EX_GRP \<longleftrightarrow>
   (bit op 2 \<longrightarrow> bit m 5) \<and> (bit op 1 \<longrightarrow> bit m 4) \<and> (bit op 0 \<longrightarrow> bit m 3)"
  using and_exp_eq_exp_iff_bit [of 5 m] and_exp_eq_exp_iff_bit [of 4 m]
    and_exp_eq_exp_iff_bit [of 3 m] and_exp_eq_0_iff_not_bit [of op 2]
    and_exp_eq_0_iff_not_bit [of op 1] and_exp_eq_0_iff_not_bit [of op 0]
  by (simp add: check_class_def const_defs)

lemma check_class_oth:
  "check_class m op INODE_RD_OTH INODE_WR_OTH INODE_EX_OTH \<longleftrightarrow>
   (bit op 2 \<longrightarrow> bit m 2) \<and> (bit op 1 \<longrightarrow> bit m 1) \<and> (bit op 0 \<longrightarrow> bit m 0)"
  using and_exp_eq_exp_iff_bit [of 2 m] and_exp_eq_exp_iff_bit [of 1 m]
    and_exp_eq_exp_iff_bit [of 0 m] and_exp_eq_0_iff_not_bit [of op 2]
    and_exp_eq_0_iff_not_bit [of op 1] and_exp_eq_0_iff_not_bit [of op 0]
  by (simp add: check_class_def const_defs)

lemma soReadInode_ids:
  assumes "soReadInode st nInode status = Inr (inode, st')"
  shows "uid st' = uid st" and "gid st' = gid st" and "euid st' = euid st"
    and "nInode < iTotal (sb st)"
  using assms
  by (auto simp: soReadInode_def Let_def echeck_eq_Inr_iff word_le_nat_alt word_less_nat_alt
      split: if_splits)

text \<open>
  Claim C6, as amended.  For an inode in use and a request between 1 and 7,
  \<open>soAccessGranted\<close> returns 0 if access is granted and \<open>-EACCES\<close> otherwise, where the class
  of a caller other than root is chosen by the real user and group ids.
\<close>

theorem soAccessGranted_iff_granted:
  assumes "1 \<le> opRequested" and "opRequested \<le> 7"
      and "soReadInode st nInode IUIN = Inr (inode, st')"
  shows "soAccessGranted st nInode opRequested =
           (if granted st inode opRequested then Inr st' else Inl EACCES)"
proof -
  have xb: "opRequested AND X \<noteq> 0 \<longleftrightarrow> bit opRequested 0"
    using and_exp_eq_0_iff_not_bit [of opRequested 0] by (simp add: X_def)
  show ?thesis
    using assms soReadInode_ids [OF assms(3)]
    by (simp add: soAccessGranted_def granted_def class_bits_def check_class_usr
        check_class_grp check_class_oth no_execute_bit xb word_le_nat_alt word_less_nat_alt)
qed


lemma fs0_iTotal: "iTotal (sb fs0) = 4"
  by (simp add: tiny_defs run_simps split del: if_split cong: eval_congs)

lemmas access_simps = fs_setuid_def fs0_iTotal soReadInode_def soAccessGranted_def
  soQCheckInodeIU_def legal_type_def check_class_def const_defs Let_def
  word_le_nat_alt word_less_nat_alt

text \<open>
  The process with the real ids of user 2000 asks to read the file of user 1000: it is in
  the class of the others, and the request is denied.
\<close>

theorem soAccessGranted_iff_granted_witness:
  "1 \<le> R \<and> R \<le> 7 \<and>
   soReadInode fs_setuid 1 IUIN =
     Inr ((itable fs_setuid 1)\<lparr>vD1 := now fs_setuid\<rparr>,
          fs_setuid\<lparr>itable := (itable fs_setuid)
                       (1 := (itable fs_setuid 1)\<lparr>vD1 := now fs_setuid\<rparr>)\<rparr>) \<and>
   \<not> granted fs_setuid ((itable fs_setuid 1)\<lparr>vD1 := now fs_setuid\<rparr>) R \<and>
   soAccessGranted fs_setuid 1 R = Inl EACCES"
proof -
  have a: "1 \<le> R" and b: "R \<le> 7"
    by (simp_all add: R_def)
  have c: "soReadInode fs_setuid 1 IUIN =
     Inr ((itable fs_setuid 1)\<lparr>vD1 := now fs_setuid\<rparr>,
          fs_setuid\<lparr>itable := (itable fs_setuid)
                       (1 := (itable fs_setuid 1)\<lparr>vD1 := now fs_setuid\<rparr>)\<rparr>)"
    by (simp add: access_simps)
  have d: "\<not> granted fs_setuid ((itable fs_setuid 1)\<lparr>vD1 := now fs_setuid\<rparr>) R"
    by (simp add: granted_def class_bits_def fs_setuid_def const_defs)
  show ?thesis
    using a b c d soAccessGranted_iff_granted [OF a b c] by simp
qed

text \<open>
  Claim C6 as stated chooses the class by the effective ids.  The process above has the
  effective user id of the owner of the file, so the claim grants it the read access that
  the owner has; \<open>soAccessGranted\<close> answers \<open>-EACCES\<close>.
\<close>

theorem soAccessGranted_effective_ids_counterexample:
  "granted_effective fs_setuid (itable fs_setuid 1) R \<and>
   soAccessGranted fs_setuid 1 R = Inl EACCES"
  by (simp add: granted_effective_def class_bits_effective_def access_simps)

section \<open>The index of a free directory entry\<close>

lemma touch_simps [simp]:
  "sb (touch st n) = sb st" "dzone (touch st n) = dzone st" "now (touch st n) = now st"
  "uid (touch st n) = uid st" "gid (touch st n) = gid st" "euid (touch st n) = euid st"
  "itable (touch st n) n = (itable st n)\<lparr>vD1 := now st\<rparr>"
  by (simp_all add: touch_def)

lemma touch_idem [simp]: "touch (touch st n) n = touch st n"
  by (simp add: touch_def)

lemma soReadInode_IUIN:
  "soReadInode st n IUIN = Inr (ino, st') \<Longrightarrow>
     st' = touch st n \<and> ino = (itable st n)\<lparr>vD1 := now st\<rparr> \<and> n < iTotal (sb st)"
  by (auto simp: soReadInode_def Let_def touch_def echeck_eq_Inr_iff
      word_le_nat_alt word_less_nat_alt split: if_splits)

lemma soReadInode_touch:
  "soReadInode (touch st n) n IUIN = soReadInode st n IUIN"
  by (simp add: soReadInode_def Let_def touch_def soQCheckInodeIU_def)

lemma soHandleDirect_GET:
  "soHandleDirect k att st n ino c GET p = Inr (out, ino', st') \<Longrightarrow> st' = st \<and> ino' = ino"
  by (auto simp: soHandleDirect_def ebind_eq_Inr_iff)

lemma soHandleSIndirect_GET:
  "soHandleSIndirect k att st n ino c GET p = Inr (out, ino', st') \<Longrightarrow> st' = st \<and> ino' = ino"
  by (auto simp: soHandleSIndirect_def Let_def ebind_eq_Inr_iff split: if_splits)

lemma soHandleDIndirect_GET:
  "soHandleDIndirect k att st n ino c GET p = Inr (out, ino', st') \<Longrightarrow> st' = st \<and> ino' = ino"
  by (auto simp: soHandleDIndirect_def Let_def ebind_eq_Inr_iff split: if_splits)

lemma GET_neq [simp]: "GET \<noteq> ALLOC" "GET \<noteq> FREE" "GET \<noteq> FREE_CLEAN" "GET \<noteq> CLEAN"
  by (simp_all add: op_defs)

lemma soHandleFileCluster_body_GET:
  assumes "soHandleFileCluster_body k att st n c GET p = Inr (out, st')"
  shows "st' = touch st n"
proof -
  define h where "h s ino q =
    (if unat c < N_DIRECT k then soHandleDirect k att s n ino c GET q
     else if unat c \<ge> N_DIRECT k \<and> unat c < N_DIRECT k + RPC k
       then soHandleSIndirect k att s n ino c GET q
     else soHandleDIndirect k att s n ino c GET q)" for s ino q
  have h: "h s ino q = Inr (out', ino', s') \<Longrightarrow> s' = s" for s ino out' ino' s' q
    unfolding h_def
    by (auto split: if_splits dest: soHandleDirect_GET soHandleSIndirect_GET soHandleDIndirect_GET)
  from assms have "\<exists>ino s1 out' ino' q. soReadInode st n IUIN = Inr (ino, s1) \<and>
      h s1 ino q = Inr (out', ino', st')"
    unfolding soHandleFileCluster_body_def Let_def h_def [symmetric]
    by (fastforce simp: ebind_eq_Inr_iff split: if_splits)
  then show ?thesis
    by (auto dest!: h soReadInode_IUIN)
qed

lemma soHandleFileCluster_body_touch:
  "soHandleFileCluster_body k att (touch st n) n c GET p = soHandleFileCluster_body k att st n c GET p"
  unfolding soHandleFileCluster_body_def Let_def
  by (simp add: soReadInode_touch split del: if_split cong: if_cong)

lemma soReadFileCluster_state:
  assumes "soReadFileCluster k st n c = Inr (dc, st')"
  shows "st' = touch st n"
  using assms unfolding soReadFileCluster_def soHandleFileCluster_def Let_def
  by (auto simp: ebind_eq_Inr_iff echeck_eq_Inr_iff split: if_splits option.splits
      dest!: soHandleFileCluster_body_GET)

lemma soReadFileCluster_touch:
  "soReadFileCluster k (touch st n) n c = soReadFileCluster k st n c"
  unfolding soReadFileCluster_def soHandleFileCluster_def
  by (simp add: soHandleFileCluster_body_touch)


lemma soAccessGranted_state:
  "soAccessGranted st n op = Inr st' \<Longrightarrow> st' = touch st n"
  unfolding soAccessGranted_def
  by (auto simp: ebind_eq_Inr_iff split: if_splits dest!: soReadInode_IUIN)

lemma info_de_length: "info_de k i = Inr es \<Longrightarrow> length es = DPC k"
  by (auto simp: info_de_def split: info.splits if_splits)

lemma scan_entries_shift:
  "scan_entries eName maxn base es i acc = scan_entries eName maxn 0 es (base + i) acc"
  by (induction es arbitrary: i acc) (simp_all add: Let_def)

lemma scan_entries_append:
  "scan_entries eName maxn base (es1 @ es2) i acc =
     (case scan_entries eName maxn base es1 i acc of
        Inl f \<Rightarrow> Inl f
      | Inr acc' \<Rightarrow> scan_entries eName maxn base es2 (i + length es1) acc')"
  by (induction es1 arbitrary: i acc) (simp_all add: Let_def cong: sum.case_cong)

lemma scan_entries_no_match:
  assumes "\<forall>e\<in>set es. cstr (de_name e) \<noteq> eName"
  shows "scan_entries eName (MAX_NAME k) 0 es i acc =
    Inr (case acc of Some a \<Rightarrow> Some a
         | None \<Rightarrow> map_option (\<lambda>j. of_nat (i + j)) (first_index (name_free k) es))"
  using assms
proof (induction es arbitrary: i acc)
  case Nil
  then show ?case by (simp split: option.splits)
next
  case (Cons e es)
  then show ?case
    by (cases "first_index (name_free k) es")
      (auto simp: Let_def name_free_def split: option.splits)
qed

lemma scan_dir_flat:
  assumes "scan_dir k dir eName cs acc s = Inr (r, s')" and "touch s dir = s"
      and "cs = [c0 ..< n]"
  shows "s' = s \<and>
    r = scan_entries eName (MAX_NAME k) 0 (concat (map (dir_cluster k s dir) cs)) (c0 * DPC k) acc"
  using assms
proof (induction cs arbitrary: c0 acc)
  case Nil
  then show ?case by simp
next
  case (Cons c cs)
  from Cons.prems(3) [symmetric] have c: "c = c0" and cs: "cs = [Suc c0 ..< n]"
    by (auto simp: upt_eq_Cons_conv)
  from Cons.prems(1) obtain dc s1 es where
    rd: "soReadFileCluster k s dir (of_nat c) = Inr (dc, s1)" and es: "info_de k (info dc) = Inr es"
    and rest: "(case scan_entries eName (MAX_NAME k) (c * DPC k) es 0 acc of
       Inl found \<Rightarrow> Inr (Inl found, s1)
     | Inr acc \<Rightarrow> scan_dir k dir eName cs acc s1) = Inr (r, s')"
    by (auto simp: ebind_eq_Inr_iff)
  from rd Cons.prems(2) have s1: "s1 = s"
    by (auto dest: soReadFileCluster_state)
  from rd es have dcl: "dir_cluster k s dir c = es"
    by (simp add: dir_cluster_def)
  have len: "length es = DPC k"
    using es by (rule info_de_length)
  have flat: "scan_entries eName (MAX_NAME k) 0 (concat (map (dir_cluster k s dir) (c # cs)))
        (c0 * DPC k) acc =
      (case scan_entries eName (MAX_NAME k) (c * DPC k) es 0 acc of
         Inl f \<Rightarrow> Inl f
       | Inr acc' \<Rightarrow> scan_entries eName (MAX_NAME k) 0 (concat (map (dir_cluster k s dir) cs))
           (Suc c0 * DPC k) acc')"
    using dcl c len
    by (simp add: scan_entries_append scan_entries_shift [of _ _ "c0 * DPC k"] add.commute
        cong: sum.case_cong)
  show ?case
  proof (cases "scan_entries eName (MAX_NAME k) (c * DPC k) es 0 acc")
    case (Inl f)
    with rest s1 have "r = Inl f" and "s' = s"
      by simp_all
    with Inl show ?thesis
      unfolding flat by simp
  next
    case (Inr acc')
    with rest s1 have "scan_dir k dir eName cs acc' s = Inr (r, s')"
      by simp
    from Cons.IH [OF this Cons.prems(2) cs] Inr show ?thesis
      unfolding flat by simp
  qed
qed

lemma dir_cluster_touch: "dir_cluster k (touch st dir) dir = dir_cluster k st dir"
  by (rule ext) (simp add: dir_cluster_def soReadFileCluster_touch)

text \<open>
  Claim C9, as amended.  When \<open>soGetDirEntryByName\<close> returns 0 or \<open>-ENOENT\<close> for a name
  that none of the entries of the directory holds, it returns \<open>-ENOENT\<close>, and the index
  stored through \<open>p_idx\<close> is that of the first entry whose name has the first and the last
  byte NUL (the field \<open>nInode\<close> is not looked at) or, if there is none, \<open>cluCount * DPC\<close>.
\<close>

theorem soGetDirEntryByName_free_index:
  assumes "soGetDirEntryByName k st nInodeDir eName = Inr (r, st')"
      and "\<forall>e\<in>set (dir_entries k st nInodeDir). cstr (de_name e) \<noteq> eName"
  shows "r = NoEnt (free_idx (name_free k) k st nInodeDir)"
proof -
  let ?m = "unat (size_ino (itable st nInodeDir)) div (DPC k * sizeof_SODirEntry k)"
  have fin: "(case x of Inl (ent, idx) \<Rightarrow> Inr (Found ent idx, s)
         | Inr acc \<Rightarrow> Inr (NoEnt (f acc), s)) = Inr (r, st') \<longleftrightarrow>
       s = st' \<and> r = (case x of Inl (ent, idx) \<Rightarrow> Found ent idx | Inr acc \<Rightarrow> NoEnt (f acc))"
    for x :: "(u32 \<times> u32) + u32 option" and s f
    by (cases x) auto
  from assms(1) have "\<exists>inode s1 s2 x.
      soReadInode st nInodeDir IUIN = Inr (inode, s1) \<and>
      soAccessGranted s1 nInodeDir X = Inr s2 \<and>
      scan_dir k nInodeDir eName
        [0 ..< unat (size_ino inode) div (DPC k * sizeof_SODirEntry k)] None s2 = Inr (x, st') \<and>
      r = (case x of Inl (ent, idx) \<Rightarrow> Found ent idx
         | Inr acc \<Rightarrow> NoEnt (case acc of Some idx \<Rightarrow> idx
                        | None \<Rightarrow> cluCount inode * of_nat (DPC k)))"
    unfolding soGetDirEntryByName_def
    by (clarsimp simp: ebind_eq_Inr_iff echeck_eq_Inr_iff fin split: if_splits)
  then obtain inode s1 s2 x where
    a: "soReadInode st nInodeDir IUIN = Inr (inode, s1)"
    and b: "soAccessGranted s1 nInodeDir X = Inr s2"
    and c: "scan_dir k nInodeDir eName
             [0 ..< unat (size_ino inode) div (DPC k * sizeof_SODirEntry k)] None s2 = Inr (x, st')"
    and d: "r = (case x of Inl (ent, idx) \<Rightarrow> Found ent idx
         | Inr acc \<Rightarrow> NoEnt (case acc of Some idx \<Rightarrow> idx
                        | None \<Rightarrow> cluCount inode * of_nat (DPC k)))"
    by blast
  from a have s1: "s1 = touch st nInodeDir" and ino: "inode = (itable st nInodeDir)\<lparr>vD1 := now st\<rparr>"
    by (auto dest: soReadInode_IUIN)
  from b s1 have s2: "s2 = touch st nInodeDir"
    by (auto dest: soAccessGranted_state)
  from c s2 ino have "scan_dir k nInodeDir eName [0 ..< ?m] None (touch st nInodeDir) = Inr (x, st')"
    by simp
  from scan_dir_flat [OF this touch_idem refl]
  have "x = scan_entries eName (MAX_NAME k) 0 (dir_entries k st nInodeDir) 0 None"
    by (simp add: dir_entries_def dir_cluster_touch)
  also have "\<dots> = Inr (map_option of_nat (first_index (name_free k) (dir_entries k st nInodeDir)))"
    using scan_entries_no_match [OF assms(2), of k 0 None] by simp
  finally show ?thesis
    using d ino by (auto simp: free_idx_def split: option.splits)
qed

lemmas dir_simps = dir_hole_def dir_full_def dir_entries_def dir_cluster_def free_idx_def
  name_free_def free_and_clean_def

text \<open>
  A run: in the directory \<open>dir_hole\<close> the lookup of \<open>c\<close> scans \<open>.\<close>, \<open>..\<close>, \<open>a\<close>, \<open>b\<close> and the
  two entries of the position without a cluster, which read as zeros; the index is 4.
\<close>

theorem soGetDirEntryByName_free_index_witness:
  "\<exists>st r st'.
     dir_hole = Inr st \<and>
     soGetDirEntryByName tiny st 0 ''c'' = Inr (r, st') \<and>
     list_all (\<lambda>e. cstr (de_name e) \<noteq> ''c'') (dir_entries tiny st 0) \<and>
     r = NoEnt (free_idx (name_free tiny) tiny st 0) \<and>
     free_idx (name_free tiny) tiny st 0 = 4"
proof -
  have "case dir_hole of Inl e \<Rightarrow> False | Inr st \<Rightarrow>
     (case soGetDirEntryByName tiny st 0 ''c'' of Inl e \<Rightarrow> False | Inr v \<Rightarrow> True) \<and>
     list_all (\<lambda>e. cstr (de_name e) \<noteq> ''c'') (dir_entries tiny st 0) \<and>
     free_idx (name_free tiny) tiny st 0 = 4"
    by (simp add: dir_simps tiny_defs run_simps split del: if_split cong: eval_congs)
  then obtain st where st: "dir_hole = Inr st"
    and "case soGetDirEntryByName tiny st 0 ''c'' of Inl e \<Rightarrow> False | Inr v \<Rightarrow> True"
    and nm: "list_all (\<lambda>e. cstr (de_name e) \<noteq> ''c'') (dir_entries tiny st 0)"
    and ix: "free_idx (name_free tiny) tiny st 0 = 4"
    by (auto elim: case_Inr_E)
  then obtain v where "soGetDirEntryByName tiny st 0 ''c'' = Inr v"
    by (auto elim: case_Inr_E)
  then obtain r st' where g: "soGetDirEntryByName tiny st 0 ''c'' = Inr (r, st')"
    by (cases v) auto
  from nm have "\<forall>e\<in>set (dir_entries tiny st 0). cstr (de_name e) \<noteq> ''c''"
    by (simp add: list_all_iff)
  from soGetDirEntryByName_free_index [OF g this] st g nm ix show ?thesis
    by blast
qed

text \<open>
  Claim C9 as stated takes an entry for free only if its field \<open>nInode\<close> is \<open>NULL_INODE\<close>
  too.  In \<open>dir_hole\<close> the entries that read as zeros have \<open>nInode = 0\<close>, so no entry of
  the scan is free in that sense and the index of the claim is \<open>cluCount * DPC = 12\<close>;
  \<open>soGetDirEntryByName\<close> stores 4.
\<close>

theorem soGetDirEntryByName_clean_index_counterexample:
  "case dir_hole of Inl e \<Rightarrow> False | Inr st \<Rightarrow>
     (case soGetDirEntryByName tiny st 0 ''c'' of
        Inl e \<Rightarrow> False | Inr (r, st') \<Rightarrow> r = NoEnt 4) \<and>
     list_all (\<lambda>e. cstr (de_name e) \<noteq> ''c'') (dir_entries tiny st 0) \<and>
     free_idx (free_and_clean tiny) tiny st 0 = 12"
  by (simp add: dir_simps tiny_defs run_simps split del: if_split cong: eval_congs)

section \<open>Free data clusters: the chain\<close>

lemma path_append: "path nx h (xs @ ys) t \<longleftrightarrow> (\<exists>m. path nx h xs m \<and> path nx m ys t)"
  by (induction xs arbitrary: h) auto

lemma path_frame:
  "(\<forall>x\<in>set xs. nx' x = nx x) \<Longrightarrow> path nx' h xs t = path nx h xs t"
  by (induction xs arbitrary: h) auto

lemma path_not_NULL: "path nx h xs t \<Longrightarrow> NULL_CLUSTER \<notin> set xs"
  by (induction xs arbitrary: h) auto

lemma path_NULL: "path nx NULL_CLUSTER xs t \<Longrightarrow> xs = []"
  by (cases xs) auto

lemma path_hd: "path nx h xs t \<Longrightarrow> xs \<noteq> [] \<Longrightarrow> h = hd xs"
  by (cases xs) auto

lemma path_last_upd:
  "path nx h xs t \<Longrightarrow> distinct xs \<Longrightarrow> xs \<noteq> [] \<Longrightarrow> path (nx(last xs := t')) h xs t'"
proof (induction xs arbitrary: h)
  case Nil
  then show ?case by simp
next
  case (Cons x xs)
  show ?case
  proof (cases "xs = []")
    case True
    with Cons.prems show ?thesis by simp
  next
    case False
    with Cons.prems have "last xs \<noteq> x"
      by (metis distinct.simps(2) last_in_set)
    with Cons False show ?thesis by simp
  qed
qed

lemma path_links:
  assumes "xs \<noteq> []" and "NULL_CLUSTER \<notin> set xs"
      and "\<forall>i<length xs. nx (xs ! i) = (if Suc i < length xs then xs ! Suc i else t)"
  shows "path nx (hd xs) xs t"
  using assms
proof (induction xs)
  case Nil
  then show ?case by simp
next
  case (Cons x xs)
  show ?case
  proof (cases "xs = []")
    case True
    with Cons.prems show ?thesis by auto
  next
    case False
    from Cons.prems(3) have "nx x = hd xs"
      using False by (cases xs) auto
    moreover have "\<forall>i<length xs. nx (xs ! i) = (if Suc i < length xs then xs ! Suc i else t)"
      using Cons.prems(3) by (metis Suc_less_eq length_Cons nth_Cons_Suc)
    ultimately show ?thesis
      using Cons.IH False Cons.prems(2) by auto
  qed
qed

lemma walk_path:
  "walk n dz c = Some xs \<Longrightarrow> path (\<lambda>c. next (dz c)) c xs NULL_CLUSTER \<and> length xs \<le> n"
  by (induction n arbitrary: c xs) (auto split: if_splits)

lemma path_walk:
  "path (\<lambda>c. next (dz c)) c xs NULL_CLUSTER \<Longrightarrow> length xs \<le> n \<Longrightarrow> walk n dz c = Some xs"
proof (induction n arbitrary: c xs)
  case 0
  then show ?case by simp
next
  case (Suc n)
  then show ?case by (cases xs) auto
qed

lemma distinct_bounded_length:
  fixes xs :: "u32 list"
  assumes "distinct xs" and "\<forall>x\<in>set xs. x < N"
  shows "length xs \<le> unat N"
proof -
  have "unat ` set xs \<subseteq> {..<unat N}"
    using assms(2) by (auto simp: word_less_nat_alt)
  then have "card (unat ` set xs) \<le> card {..<unat N}"
    by (intro card_mono) auto
  moreover have "card (unat ` set xs) = card (set xs)"
    by (intro card_image) (simp add: inj_on_def word_unat_eq_iff)
  ultimately show ?thesis
    using assms(1) by (simp add: distinct_card)
qed

lemma for_loop_append:
  "for_loop (xs @ ys) body s = ebind (for_loop xs body s) (for_loop ys body)"
  by (induction xs arbitrary: s) (auto simp: ebind_def split: sum.splits)

lemma soReadCacheCluster_Inr [simp]:
  "soReadCacheCluster st c = Inr dc \<longleftrightarrow> c < dZoneTotal (sb st) \<and> dc = dzone st c"
  by (auto simp: soReadCacheCluster_def)

lemma soWriteCacheCluster_Inr [simp]:
  "soWriteCacheCluster st c dc = Inr st' \<longleftrightarrow>
     c < dZoneTotal (sb st) \<and> st' = st\<lparr>dzone := (dzone st)(c := dc)\<rparr>"
  by (auto simp: soWriteCacheCluster_def)

lemma arr_get_Inr [simp]: "arr_get xs i = Inr x \<longleftrightarrow> i < length xs \<and> x = xs ! i"
  by (auto simp: arr_get_def)

lemma arr_set_Inr [simp]: "arr_set xs i v = Inr ys \<longleftrightarrow> i < length xs \<and> ys = xs[i := v]"
  by (auto simp: arr_set_def)

lemma less_not_NULL: "(c :: u32) < n \<Longrightarrow> c \<noteq> NULL_CLUSTER"
  by (auto simp: NULL_CLUSTER_def)

lemma of_nat_eq_pred:
  fixes idx :: u32
  assumes "i < unat idx"
  shows "(of_nat i = idx - 1) \<longleftrightarrow> i = unat idx - 1"
proof -
  from assms have nz: "idx \<noteq> 0"
    by (auto simp: unat_eq_0)
  then have u: "unat (idx - 1) = unat idx - 1"
    by (simp add: unat_minus_one)
  have lt: "i < 2 ^ 32"
    using assms unsigned_less [of idx, where 'a = nat] by simp
  have "(of_nat i = idx - 1) \<longleftrightarrow> unat (of_nat i :: u32) = unat (idx - 1)"
    by (simp add: word_unat_eq_iff)
  also have "unat (of_nat i :: u32) = i"
    using lt by (simp add: unat_of_nat)
  finally show ?thesis
    using u by simp
qed

section \<open>Free data clusters: \<open>soDeplete\<close>\<close>

lemma unat_pred:
  fixes w :: u32
  shows "i < unat w \<Longrightarrow> unat (w - 1) = unat w - 1"
  by (rule unat_minus_one) (auto simp: unat_eq_0)

lemma deplete_body_Inr:
  assumes "deplete_body i s = Inr s'"
      and "i < unat (cacheIdx (dZoneInsert (sb s)))"
  shows "sb s' = sb s"
    and "i < length (cache (dZoneInsert (sb s)))"
    and "cache (dZoneInsert (sb s)) ! i < dZoneTotal (sb s)"
    and "\<forall>c. c \<noteq> cache (dZoneInsert (sb s)) ! i \<longrightarrow> dzone s' c = dzone s c"
    and "nxt s' (cache (dZoneInsert (sb s)) ! i) =
          (if i = unat (cacheIdx (dZoneInsert (sb s))) - 1 then NULL_CLUSTER
           else cache (dZoneInsert (sb s)) ! (i + 1))"
  using assms unat_pred [OF assms(2)] unfolding deplete_body_def Let_def
  by (auto simp: ebind_eq_Inr_iff of_nat_eq_pred nxt_def split: if_splits)

lemma deplete_loop:
  assumes "for_loop [0 ..< m] deplete_body s = Inr s'"
      and "m \<le> unat (cacheIdx (dZoneInsert (sb s)))"
      and "distinct (insert_refs (sb s))"
  shows "sb s' = sb s \<and> m \<le> length (cache (dZoneInsert (sb s))) \<and>
         (\<forall>i<m. cache (dZoneInsert (sb s)) ! i < dZoneTotal (sb s) \<and>
                 nxt s' (cache (dZoneInsert (sb s)) ! i) =
                   (if i = unat (cacheIdx (dZoneInsert (sb s))) - 1 then NULL_CLUSTER
                    else cache (dZoneInsert (sb s)) ! (i + 1))) \<and>
         (\<forall>c. c \<notin> set (take m (cache (dZoneInsert (sb s)))) \<longrightarrow> dzone s' c = dzone s c)"
  using assms
proof (induction m arbitrary: s')
  case 0
  then show ?case by simp
next
  case (Suc m)
  let ?C = "cache (dZoneInsert (sb s))"
  let ?n = "unat (cacheIdx (dZoneInsert (sb s)))"
  from Suc.prems(1) obtain s1 where l: "for_loop [0 ..< m] deplete_body s = Inr s1"
    and b: "deplete_body m s1 = Inr s'"
    by (auto simp: for_loop_append ebind_eq_Inr_iff)
  from Suc.IH [OF l] Suc.prems have ih: "sb s1 = sb s"
    "\<forall>i<m. ?C ! i < dZoneTotal (sb s) \<and>
        nxt s1 (?C ! i) = (if i = ?n - 1 then NULL_CLUSTER else ?C ! (i + 1))"
    "\<forall>c. c \<notin> set (take m ?C) \<longrightarrow> dzone s1 c = dzone s c"
    by auto
  from Suc.prems(2) ih(1) have lt: "m < unat (cacheIdx (dZoneInsert (sb s1)))"
    by simp
  note bd = deplete_body_Inr [OF b lt, unfolded ih(1)]
  have tk: "take (Suc m) ?C = take m ?C @ [?C ! m]"
    using bd(2) by (simp add: take_Suc_conv_app_nth)
  have neq: "?C ! i \<noteq> ?C ! m" if "i < m" for i
  proof -
    from that Suc.prems(2) bd(2) have "i < length (insert_refs (sb s))" "m < length (insert_refs (sb s))"
      by (simp_all add: insert_refs_def)
    with Suc.prems(3) that have "insert_refs (sb s) ! i \<noteq> insert_refs (sb s) ! m"
      by (simp add: nth_eq_iff_index_eq)
    with that Suc.prems(2) show ?thesis
      by (simp add: insert_refs_def)
  qed
  have "\<forall>i<Suc m. ?C ! i < dZoneTotal (sb s) \<and>
        nxt s' (?C ! i) = (if i = ?n - 1 then NULL_CLUSTER else ?C ! (i + 1))"
  proof (intro allI impI)
    fix i assume "i < Suc m"
    show "?C ! i < dZoneTotal (sb s) \<and>
        nxt s' (?C ! i) = (if i = ?n - 1 then NULL_CLUSTER else ?C ! (i + 1))"
    proof (cases "i = m")
      case True
      with bd(3,5) show ?thesis by simp
    next
      case False
      with \<open>i < Suc m\<close> have im: "i < m" by simp
      from neq [OF im] bd(4) have "nxt s' (?C ! i) = nxt s1 (?C ! i)"
        by (simp add: nxt_def)
      with ih(2) im show ?thesis by simp
    qed
  qed
  moreover have "\<forall>c. c \<notin> set (take (Suc m) ?C) \<longrightarrow> dzone s' c = dzone s c"
    using bd(4) ih(3) by (simp add: tk)
  ultimately show ?case
    using bd(1,2) by simp
qed

lemma clear_loop_length:
  "for_loop js (\<lambda>i c. arr_set c i v) c = Inr c' \<Longrightarrow> length c' = length c"
  by (induction js arbitrary: c) (auto simp: ebind_eq_Inr_iff)

lemma soDeplete_Inr:
  assumes "soDeplete st = Inr st'"
  shows "\<exists>st1 st2 c'.
    (if dTail (sb st) \<noteq> NULL_CLUSTER then
               ebind (soReadCacheCluster st (dTail (sb st))) (\<lambda>dcluster.
               ebind (arr_get (cache (dZoneInsert (sb st))) 0) (\<lambda>c0.
               soWriteCacheCluster st (dTail (sb st)) (dcluster\<lparr>next := c0\<rparr>)))
             else Inr st) = Inr st1 \<and>
    for_loop [0 ..< unat (cacheIdx (dZoneInsert (sb st1)))] deplete_body st1 = Inr st2 \<and>
    unat (cacheIdx (dZoneInsert (sb st2)) - 1) < length (cache (dZoneInsert (sb st2))) \<and>
    for_loop [0 ..< unat (cacheIdx (dZoneInsert (sb st2)))] (\<lambda>i c. arr_set c i NULL_CLUSTER)
      (cache (dZoneInsert (sb st2))) = Inr c' \<and>
    (dHead (sb st2) = NULL_CLUSTER \<longrightarrow> 0 < length (cache (dZoneInsert (sb st2)))) \<and>
    st' = st2\<lparr>sb := (if dHead (sb st2) = NULL_CLUSTER
                      then (sb st2)\<lparr>dTail := cache (dZoneInsert (sb st2)) !
                                           unat (cacheIdx (dZoneInsert (sb st2)) - 1),
                                    dHead := cache (dZoneInsert (sb st2)) ! 0\<rparr>
                      else (sb st2)\<lparr>dTail := cache (dZoneInsert (sb st2)) !
                                           unat (cacheIdx (dZoneInsert (sb st2)) - 1)\<rparr>)
             \<lparr>dZoneInsert := \<lparr>cacheIdx = 0, cache = c'\<rparr>\<rparr>\<rparr>"
  using assms unfolding soDeplete_def soQCheckSuperBlock_def Let_def
  apply (simp only: echeck_None ebind_eq_Inr_iff)
  apply (elim exE conjE)
  apply (simp split del: if_split cong: if_cong)
  apply (auto simp: ebind_eq_Inr_iff split: if_splits)
  done

lemma unat_minus_1_u32: "unat (- 1 :: u32) = 4294967295"
  by (simp add: unsigned_minus_1_eq_mask mask_eq_exp_minus_1)

lemma nxt_upd: "nxt (st\<lparr>dzone := (dzone st)(c := (dzone st c)\<lparr>next := v\<rparr>)\<rparr>) = (nxt st)(c := v)"
  by (rule ext) (simp add: nxt_def)

lemma nxt_sb_upd [simp]: "nxt (st\<lparr>sb := x\<rparr>) = nxt st"
  by (rule ext) (simp add: nxt_def)

lemma nxt_cong: "dzone s = dzone s' \<Longrightarrow> nxt s = nxt s'"
  by (rule ext) (simp add: nxt_def)

lemma soDeplete_effect:
  assumes ok: "soDeplete st = Inr st'"
      and ch: "path (nxt st) (dHead (sb st)) ch NULL_CLUSTER"
      and tl: "dTail (sb st) = (if ch = [] then NULL_CLUSTER else last ch)"
      and dist: "distinct (ch @ insert_refs (sb st))"
      and len: "length (cache (dZoneInsert (sb st))) < 2 ^ 32"
  shows "insert_refs (sb st) \<noteq> []"
    and "path (nxt st') (dHead (sb st')) (ch @ insert_refs (sb st)) NULL_CLUSTER"
    and "\<forall>c\<in>set (insert_refs (sb st)). c < dZoneTotal (sb st)"
    and "\<exists>c'. length c' = length (cache (dZoneInsert (sb st))) \<and>
           sb st' = (sb st)\<lparr>dTail := last (insert_refs (sb st)),
                            dHead := (if ch = [] then hd (insert_refs (sb st)) else dHead (sb st)),
                            dZoneInsert := \<lparr>cacheIdx = 0, cache = c'\<rparr>\<rparr>"
    and "\<forall>c. c \<notin> set (ch @ insert_refs (sb st)) \<longrightarrow> dzone st' c = dzone st c"
proof -
  let ?C = "cache (dZoneInsert (sb st))"
  let ?n = "unat (cacheIdx (dZoneInsert (sb st)))"
  let ?ins = "insert_refs (sb st)"
  from soDeplete_Inr [OF ok] obtain st1 st2 c' where
    s1: "(if dTail (sb st) \<noteq> NULL_CLUSTER then
               ebind (soReadCacheCluster st (dTail (sb st))) (\<lambda>dcluster.
               ebind (arr_get (cache (dZoneInsert (sb st))) 0) (\<lambda>c0.
               soWriteCacheCluster st (dTail (sb st)) (dcluster\<lparr>next := c0\<rparr>)))
             else Inr st) = Inr st1"
    and lp: "for_loop [0 ..< unat (cacheIdx (dZoneInsert (sb st1)))] deplete_body st1 = Inr st2"
    and ag: "unat (cacheIdx (dZoneInsert (sb st2)) - 1) < length (cache (dZoneInsert (sb st2)))"
    and cl: "for_loop [0 ..< unat (cacheIdx (dZoneInsert (sb st2)))]
               (\<lambda>i c. arr_set c i NULL_CLUSTER) (cache (dZoneInsert (sb st2))) = Inr c'"
    and st': "st' = st2\<lparr>sb := (if dHead (sb st2) = NULL_CLUSTER
                      then (sb st2)\<lparr>dTail := cache (dZoneInsert (sb st2)) !
                                           unat (cacheIdx (dZoneInsert (sb st2)) - 1),
                                    dHead := cache (dZoneInsert (sb st2)) ! 0\<rparr>
                      else (sb st2)\<lparr>dTail := cache (dZoneInsert (sb st2)) !
                                           unat (cacheIdx (dZoneInsert (sb st2)) - 1)\<rparr>)
             \<lparr>dZoneInsert := \<lparr>cacheIdx = 0, cache = c'\<rparr>\<rparr>\<rparr>"
    by blast
  from s1 have sb1: "sb st1 = sb st"
    and nx1: "nxt st1 = (if dTail (sb st) \<noteq> NULL_CLUSTER then (nxt st)(dTail (sb st) := ?C ! 0)
                         else nxt st)"
    and dz1: "\<forall>c. c \<noteq> dTail (sb st) \<longrightarrow> dzone st1 c = dzone st c"
    by (auto simp: ebind_eq_Inr_iff nxt_upd split: if_splits)
  from dist have "distinct (insert_refs (sb st1))"
    by (simp add: sb1)
  from deplete_loop [OF lp order_refl this]
  have sb2: "sb st2 = sb st" and nle: "?n \<le> length ?C"
    and lk: "\<forall>i<?n. ?C ! i < dZoneTotal (sb st) \<and>
               nxt st2 (?C ! i) = (if i = ?n - 1 then NULL_CLUSTER else ?C ! (i + 1))"
    and fr: "\<forall>c. c \<notin> set (take ?n ?C) \<longrightarrow> dzone st2 c = dzone st1 c"
    by (simp_all add: sb1)
  have npos: "0 < ?n"
  proof (rule ccontr)
    assume "\<not> 0 < ?n"
    then have "cacheIdx (dZoneInsert (sb st)) = 0"
      by (simp add: unat_eq_0)
    with ag sb2 len show False
      by (simp add: unat_minus_1_u32)
  qed
  then have u1: "unat (cacheIdx (dZoneInsert (sb st)) - 1) = ?n - 1"
    by (rule unat_pred)
  have ins: "?ins = take ?n ?C" and lins: "length ?ins = ?n"
    using nle by (simp_all add: insert_refs_def)
  have nth: "?ins ! i = ?C ! i" if "i < ?n" for i
    using that by (simp add: ins)
  show ne: "?ins \<noteq> []"
    using lins npos by auto
  have hd: "hd ?ins = ?C ! 0" and last: "last ?ins = ?C ! (?n - 1)"
    using ne npos nth [of 0] nth [of "?n - 1"] lins
    by (simp_all add: hd_conv_nth last_conv_nth)
  show bnd: "\<forall>c\<in>set ?ins. c < dZoneTotal (sb st)"
    using lk lins nth by (auto simp: in_set_conv_nth)
  then have nn: "NULL_CLUSTER \<notin> set ?ins"
    by (auto dest: less_not_NULL)
  have "\<forall>i<length ?ins. nxt st2 (?ins ! i) =
          (if Suc i < length ?ins then ?ins ! Suc i else NULL_CLUSTER)"
    using lk nth lins by auto
  from path_links [OF ne nn this] have pins: "path (nxt st2) (?C ! 0) ?ins NULL_CLUSTER"
    by (simp add: hd)
  have nx': "nxt st' = nxt st2"
    by (rule nxt_cong) (simp add: st')
  have hd': "dHead (sb st') = (if ch = [] then ?C ! 0 else dHead (sb st))"
    using ch by (cases ch) (auto simp: st' sb2)
  show "path (nxt st') (dHead (sb st')) (ch @ ?ins) NULL_CLUSTER"
  proof (cases "ch = []")
    case True
    with pins show ?thesis
      by (simp add: nx' hd')
  next
    case False
    with ch have "last ch \<noteq> NULL_CLUSTER"
      using path_not_NULL last_in_set by metis
    with tl False have "nxt st1 = (nxt st)(last ch := ?C ! 0)"
      by (simp add: nx1)
    with path_last_upd [OF ch _ False] dist have "path (nxt st1) (dHead (sb st)) ch (?C ! 0)"
      by simp
    moreover have "\<forall>x\<in>set ch. nxt st2 x = nxt st1 x"
      using fr dist by (auto simp: ins nxt_def)
    ultimately have "path (nxt st2) (dHead (sb st)) ch (?C ! 0)"
      using path_frame [of ch "nxt st2" "nxt st1"] by blast
    with pins False show ?thesis
      by (auto simp: nx' hd' path_append)
  qed
  have "length c' = length ?C"
    using clear_loop_length [OF cl] by (simp add: sb2)
  moreover have "sb st' = (sb st)\<lparr>dTail := last ?ins,
                            dHead := (if ch = [] then hd ?ins else dHead (sb st)),
                            dZoneInsert := \<lparr>cacheIdx = 0, cache = c'\<rparr>\<rparr>"
    using ch by (cases ch) (auto simp: st' sb2 u1 hd last)
  ultimately show "\<exists>c'. length c' = length ?C \<and>
           sb st' = (sb st)\<lparr>dTail := last ?ins,
                            dHead := (if ch = [] then hd ?ins else dHead (sb st)),
                            dZoneInsert := \<lparr>cacheIdx = 0, cache = c'\<rparr>\<rparr>"
    by blast
  show "\<forall>c. c \<notin> set (ch @ ?ins) \<longrightarrow> dzone st' c = dzone st c"
  proof (intro allI impI)
    fix c assume c: "c \<notin> set (ch @ ?ins)"
    then have "dzone st2 c = dzone st1 c"
      using fr by (simp add: ins)
    moreover have "c \<noteq> dTail (sb st) \<or> dTail (sb st) = NULL_CLUSTER"
      using c tl by (cases "ch = []") auto
    then have "dzone st1 c = dzone st c"
      using dz1 s1 by (auto split: if_splits)
    ultimately show "dzone st' c = dzone st c"
      by (simp add: st')
  qed
qed

lemma free_chain_path:
  "free_chain st = Some ch \<Longrightarrow> path (nxt st) (dHead (sb st)) ch NULL_CLUSTER"
  unfolding free_chain_def nxt_def by (auto dest: walk_path)

lemma path_free_chain:
  assumes "path (nxt st) (dHead (sb st)) ch NULL_CLUSTER"
      and "distinct ch" and "\<forall>c\<in>set ch. c < dZoneTotal (sb st)"
  shows "free_chain st = Some ch"
proof -
  have "length ch \<le> unat (dZoneTotal (sb st))"
    using assms(2,3) by (rule distinct_bounded_length)
  with assms(1) show ?thesis
    unfolding free_chain_def nxt_def by (auto intro: path_walk)
qed

lemma free_invD:
  assumes "free_inv k st"
  obtains ch where "free_chain st = Some ch"
    and "path (nxt st) (dHead (sb st)) ch NULL_CLUSTER"
    and "DZONE_CACHE_SIZE k < 2 ^ 32"
    and "length (cache (dZoneInsert (sb st))) = DZONE_CACHE_SIZE k"
    and "length (cache (dZoneRetriev (sb st))) = DZONE_CACHE_SIZE k"
    and "unat (cacheIdx (dZoneInsert (sb st))) \<le> DZONE_CACHE_SIZE k"
    and "unat (cacheIdx (dZoneRetriev (sb st))) \<le> DZONE_CACHE_SIZE k"
    and "distinct (ch @ insert_refs (sb st) @ retriev_refs (sb st))"
    and "\<forall>c\<in>set (ch @ insert_refs (sb st) @ retriev_refs (sb st)). c < dZoneTotal (sb st)"
    and "dTail (sb st) = (if ch = [] then NULL_CLUSTER else last ch)"
    and "unat (dZoneFree (sb st)) = length (insert_refs (sb st)) + length ch +
           (DZONE_CACHE_SIZE k - unat (cacheIdx (dZoneRetriev (sb st))))"
proof -
  from assms obtain ch where c: "free_chain st = Some ch"
    by (auto simp: free_inv_def split: option.splits)
  with assms that [OF c free_chain_path [OF c]] show ?thesis
    by (simp add: free_inv_def Let_def list_all_iff)
qed

lemma free_invI:
  assumes "path (nxt st) (dHead (sb st)) ch NULL_CLUSTER"
    and "DZONE_CACHE_SIZE k < 2 ^ 32"
    and "length (cache (dZoneInsert (sb st))) = DZONE_CACHE_SIZE k"
    and "length (cache (dZoneRetriev (sb st))) = DZONE_CACHE_SIZE k"
    and "unat (cacheIdx (dZoneInsert (sb st))) \<le> DZONE_CACHE_SIZE k"
    and "unat (cacheIdx (dZoneRetriev (sb st))) \<le> DZONE_CACHE_SIZE k"
    and "distinct (ch @ insert_refs (sb st) @ retriev_refs (sb st))"
    and "\<forall>c\<in>set (ch @ insert_refs (sb st) @ retriev_refs (sb st)). c < dZoneTotal (sb st)"
    and "dTail (sb st) = (if ch = [] then NULL_CLUSTER else last ch)"
    and "unat (dZoneFree (sb st)) = length (insert_refs (sb st)) + length ch +
           (DZONE_CACHE_SIZE k - unat (cacheIdx (dZoneRetriev (sb st))))"
  shows "free_inv k st" and "free_chain st = Some ch"
proof -
  show c: "free_chain st = Some ch"
    using assms(1,7,8) by (intro path_free_chain) auto
  show "free_inv k st"
    using assms(2-) by (simp add: free_inv_def c Let_def list_all_iff)
qed

lemma soDeplete_free_inv:
  assumes inv: "free_inv k st" and ok: "soDeplete st = Inr st'" and c: "free_chain st = Some ch"
  shows "free_inv k st'"
    and "free_chain st' = Some (ch @ insert_refs (sb st))"
    and "insert_refs (sb st) \<noteq> []"
    and "insert_refs (sb st') = []"
    and "cacheIdx (dZoneInsert (sb st')) = 0"
    and "dZoneRetriev (sb st') = dZoneRetriev (sb st)"
    and "dZoneFree (sb st') = dZoneFree (sb st)"
    and "dZoneTotal (sb st') = dZoneTotal (sb st)"
proof -
  from inv obtain ch' where c': "free_chain st = Some ch'"
    and ch': "path (nxt st) (dHead (sb st)) ch' NULL_CLUSTER"
    and sz: "DZONE_CACHE_SIZE k < 2 ^ 32"
    and li: "length (cache (dZoneInsert (sb st))) = DZONE_CACHE_SIZE k"
    and lr: "length (cache (dZoneRetriev (sb st))) = DZONE_CACHE_SIZE k"
    and ii: "unat (cacheIdx (dZoneInsert (sb st))) \<le> DZONE_CACHE_SIZE k"
    and ir: "unat (cacheIdx (dZoneRetriev (sb st))) \<le> DZONE_CACHE_SIZE k"
    and dist': "distinct (ch' @ insert_refs (sb st) @ retriev_refs (sb st))"
    and bnd': "\<forall>c\<in>set (ch' @ insert_refs (sb st) @ retriev_refs (sb st)). c < dZoneTotal (sb st)"
    and tl': "dTail (sb st) = (if ch' = [] then NULL_CLUSTER else last ch')"
    and cnt': "unat (dZoneFree (sb st)) = length (insert_refs (sb st)) + length ch' +
           (DZONE_CACHE_SIZE k - unat (cacheIdx (dZoneRetriev (sb st))))"
    by (rule free_invD)
  from c c' have e: "ch' = ch" by simp
  note ch = ch' [unfolded e] and dist = dist' [unfolded e] and bnd = bnd' [unfolded e]
    and tl = tl' [unfolded e] and cnt = cnt' [unfolded e]
  from dist have d2: "distinct (ch @ insert_refs (sb st))"
    by auto
  from li sz have len: "length (cache (dZoneInsert (sb st))) < 2 ^ 32"
    by simp
  note eff = soDeplete_effect [OF ok ch tl d2 len]
  from eff(4) obtain c' where lc: "length c' = length (cache (dZoneInsert (sb st)))"
    and sb': "sb st' = (sb st)\<lparr>dTail := last (insert_refs (sb st)),
                            dHead := (if ch = [] then hd (insert_refs (sb st)) else dHead (sb st)),
                            dZoneInsert := \<lparr>cacheIdx = 0, cache = c'\<rparr>\<rparr>"
    by blast
  show i0: "insert_refs (sb st') = []"
    by (simp add: sb' insert_refs_def)
  have r': "retriev_refs (sb st') = retriev_refs (sb st)"
    by (simp add: sb' retriev_refs_def)
  show "insert_refs (sb st) \<noteq> []"
    by (rule eff(1))
  show "cacheIdx (dZoneInsert (sb st')) = 0" "dZoneRetriev (sb st') = dZoneRetriev (sb st)"
    "dZoneFree (sb st') = dZoneFree (sb st)" "dZoneTotal (sb st') = dZoneTotal (sb st)"
    by (simp_all add: sb')
  have p: "path (nxt st') (dHead (sb st')) (ch @ insert_refs (sb st)) NULL_CLUSTER"
    by (rule eff(2))
  have t: "dTail (sb st') = (if ch @ insert_refs (sb st) = [] then NULL_CLUSTER
          else last (ch @ insert_refs (sb st)))"
    using eff(1) by (simp add: sb')
  have n: "unat (dZoneFree (sb st')) = length (insert_refs (sb st')) + length (ch @ insert_refs (sb st)) +
           (DZONE_CACHE_SIZE k - unat (cacheIdx (dZoneRetriev (sb st'))))"
    using cnt by (simp add: i0) (simp add: sb')
  have o: "length (cache (dZoneInsert (sb st'))) = DZONE_CACHE_SIZE k"
    "length (cache (dZoneRetriev (sb st'))) = DZONE_CACHE_SIZE k"
    "unat (cacheIdx (dZoneInsert (sb st'))) \<le> DZONE_CACHE_SIZE k"
    "unat (cacheIdx (dZoneRetriev (sb st'))) \<le> DZONE_CACHE_SIZE k"
    using li lr ir lc by (simp_all add: sb')
  have d: "distinct ((ch @ insert_refs (sb st)) @ insert_refs (sb st') @ retriev_refs (sb st'))"
    using dist by (simp add: i0 r')
  have b: "\<forall>c\<in>set ((ch @ insert_refs (sb st)) @ insert_refs (sb st') @ retriev_refs (sb st')).
      c < dZoneTotal (sb st')"
    using bnd by (simp add: i0 r') (simp add: sb')
  show "free_inv k st'" and "free_chain st' = Some (ch @ insert_refs (sb st))"
    using free_invI [OF p sz o d b t n] by simp_all
qed

section \<open>Free data clusters: \<open>soFreeDataCluster\<close>\<close>

lemma free_inv_dzone:
  assumes inv: "free_inv k st" and c: "free_chain st = Some ch"
      and sb: "sb st' = sb st" and nx: "\<forall>x\<in>set ch. nxt st' x = nxt st x"
  shows "free_inv k st'" and "free_chain st' = Some ch"
proof -
  from inv obtain ch' where c': "free_chain st = Some ch'"
    and ch: "path (nxt st) (dHead (sb st)) ch' NULL_CLUSTER"
    and rest: "DZONE_CACHE_SIZE k < 2 ^ 32"
     "length (cache (dZoneInsert (sb st))) = DZONE_CACHE_SIZE k"
     "length (cache (dZoneRetriev (sb st))) = DZONE_CACHE_SIZE k"
     "unat (cacheIdx (dZoneInsert (sb st))) \<le> DZONE_CACHE_SIZE k"
     "unat (cacheIdx (dZoneRetriev (sb st))) \<le> DZONE_CACHE_SIZE k"
     "distinct (ch' @ insert_refs (sb st) @ retriev_refs (sb st))"
     "\<forall>c\<in>set (ch' @ insert_refs (sb st) @ retriev_refs (sb st)). c < dZoneTotal (sb st)"
     "dTail (sb st) = (if ch' = [] then NULL_CLUSTER else last ch')"
     "unat (dZoneFree (sb st)) = length (insert_refs (sb st)) + length ch' +
           (DZONE_CACHE_SIZE k - unat (cacheIdx (dZoneRetriev (sb st))))"
    by (rule free_invD)
  from c c' have e: "ch' = ch" by simp
  from ch nx have p: "path (nxt st') (dHead (sb st')) ch NULL_CLUSTER"
    using path_frame [of ch "nxt st'" "nxt st"] by (simp add: sb e)
  from rest show "free_inv k st'" and "free_chain st' = Some ch"
    by (auto intro!: free_invI [OF p] simp: sb e)
qed

lemma soQCheckStatDC_ALLOC:
  assumes "soQCheckStatDC st c = Inr s" and "s \<noteq> FREE_CLT" and "free_chain st = Some ch"
  shows "c \<notin> set (ch @ insert_refs (sb st) @ retriev_refs (sb st))"
  using assms by (auto simp: soQCheckStatDC_def split: if_splits)

lemma soFreeDataCluster_Inr:
  assumes "soFreeDataCluster k st nClust = Inr st'"
  shows "\<exists>dc_stat st2.
    soQCheckStatDC st nClust = Inr dc_stat \<and> dc_stat \<noteq> FREE_CLT \<and>
    nClust < dZoneTotal (sb st) \<and>
    (let st1 = st\<lparr>dzone := (dzone st)(nClust :=
                   (dzone st nClust)\<lparr>prev := NULL_CLUSTER, next := NULL_CLUSTER\<rparr>)\<rparr>
     in (if cacheIdx (dZoneInsert (sb st1)) = of_nat (DZONE_CACHE_SIZE k)
         then soDeplete st1 else Inr st1) = Inr st2) \<and>
    unat (cacheIdx (dZoneInsert (sb st2))) < length (cache (dZoneInsert (sb st2))) \<and>
    st' = st2\<lparr>sb := (sb st2)\<lparr>
            dZoneInsert := \<lparr>cacheIdx = cacheIdx (dZoneInsert (sb st2)) + 1,
                            cache = (cache (dZoneInsert (sb st2)))
                               [unat (cacheIdx (dZoneInsert (sb st2))) := nClust]\<rparr>,
            dZoneFree := dZoneFree (sb st2) + 1\<rparr>\<rparr>"
  using assms unfolding soFreeDataCluster_def soQCheckSuperBlock_def soQCheckDZ_def Let_def
  apply (simp only: ebind_eq_Inr_iff)
  apply (elim exE conjE)
  apply (simp split del: if_split cong: if_cong)
  apply (auto simp: ebind_eq_Inr_iff word_le_nat_alt word_less_nat_alt split: if_splits)
  done

lemma unat_Suc_u32:
  fixes w :: u32
  shows "unat w < n \<Longrightarrow> n < 2 ^ 32 \<Longrightarrow> unat (w + 1) = Suc (unat w)"
  using unat_add_lem [of w 1] by simp

lemma push_free_inv:
  assumes inv: "free_inv k s" and c: "free_chain s = Some ch"
      and fresh: "n \<notin> set (ch @ insert_refs (sb s) @ retriev_refs (sb s))"
      and lt: "n < dZoneTotal (sb s)"
      and idx: "unat (cacheIdx (dZoneInsert (sb s))) < length (cache (dZoneInsert (sb s)))"
      and s': "s' = s\<lparr>sb := (sb s)\<lparr>
            dZoneInsert := \<lparr>cacheIdx = cacheIdx (dZoneInsert (sb s)) + 1,
                            cache = (cache (dZoneInsert (sb s)))
                               [unat (cacheIdx (dZoneInsert (sb s))) := n]\<rparr>,
            dZoneFree := dZoneFree (sb s) + 1\<rparr>\<rparr>"
  shows "free_inv k s'" and "free_chain s' = Some ch"
    and "insert_refs (sb s') = insert_refs (sb s) @ [n]"
    and "retriev_refs (sb s') = retriev_refs (sb s)"
proof -
  from inv obtain ch' where c': "free_chain s = Some ch'"
    and ch': "path (nxt s) (dHead (sb s)) ch' NULL_CLUSTER"
    and sz: "DZONE_CACHE_SIZE k < 2 ^ 32"
    and li: "length (cache (dZoneInsert (sb s))) = DZONE_CACHE_SIZE k"
    and lr: "length (cache (dZoneRetriev (sb s))) = DZONE_CACHE_SIZE k"
    and ii: "unat (cacheIdx (dZoneInsert (sb s))) \<le> DZONE_CACHE_SIZE k"
    and ir: "unat (cacheIdx (dZoneRetriev (sb s))) \<le> DZONE_CACHE_SIZE k"
    and dist': "distinct (ch' @ insert_refs (sb s) @ retriev_refs (sb s))"
    and bnd': "\<forall>c\<in>set (ch' @ insert_refs (sb s) @ retriev_refs (sb s)). c < dZoneTotal (sb s)"
    and tl': "dTail (sb s) = (if ch' = [] then NULL_CLUSTER else last ch')"
    and cnt': "unat (dZoneFree (sb s)) = length (insert_refs (sb s)) + length ch' +
           (DZONE_CACHE_SIZE k - unat (cacheIdx (dZoneRetriev (sb s))))"
    by (rule free_invD)
  from c c' have e: "ch' = ch" by simp
  note ch = ch' [unfolded e] and dist = dist' [unfolded e] and bnd = bnd' [unfolded e]
    and tl = tl' [unfolded e] and cnt = cnt' [unfolded e]
  let ?i = "unat (cacheIdx (dZoneInsert (sb s)))"
  have u: "unat (cacheIdx (dZoneInsert (sb s)) + 1) = Suc ?i"
    using idx li sz by (intro unat_Suc_u32) auto
  show i': "insert_refs (sb s') = insert_refs (sb s) @ [n]"
    using idx by (simp add: s' insert_refs_def u take_Suc_conv_app_nth)
  show r': "retriev_refs (sb s') = retriev_refs (sb s)"
    by (simp add: s' retriev_refs_def)
  have lret: "length (retriev_refs (sb s)) = DZONE_CACHE_SIZE k - unat (cacheIdx (dZoneRetriev (sb s)))"
    by (simp add: retriev_refs_def lr)
  have "distinct (n # ch @ insert_refs (sb s) @ retriev_refs (sb s))"
    using dist fresh by simp
  moreover have "\<forall>x\<in>set (n # ch @ insert_refs (sb s) @ retriev_refs (sb s)). x < dZoneTotal (sb s)"
    using bnd lt by simp
  ultimately have "length (n # ch @ insert_refs (sb s) @ retriev_refs (sb s)) \<le> unat (dZoneTotal (sb s))"
    by (rule distinct_bounded_length)
  then have "unat (dZoneFree (sb s)) < unat (dZoneTotal (sb s))"
    using cnt lret by simp
  then have f: "unat (dZoneFree (sb s) + 1) = Suc (unat (dZoneFree (sb s)))"
    using unsigned_less [of "dZoneTotal (sb s)", where 'a = nat] by (intro unat_Suc_u32) auto
  have p: "path (nxt s') (dHead (sb s')) ch NULL_CLUSTER"
    using ch by (simp add: s')
  have o: "length (cache (dZoneInsert (sb s'))) = DZONE_CACHE_SIZE k"
    "length (cache (dZoneRetriev (sb s'))) = DZONE_CACHE_SIZE k"
    "unat (cacheIdx (dZoneInsert (sb s'))) \<le> DZONE_CACHE_SIZE k"
    "unat (cacheIdx (dZoneRetriev (sb s'))) \<le> DZONE_CACHE_SIZE k"
    using li lr ir idx by (simp_all add: s' u)
  have d: "distinct (ch @ insert_refs (sb s') @ retriev_refs (sb s'))"
    using dist fresh by (auto simp: i' r')
  have b: "\<forall>c\<in>set (ch @ insert_refs (sb s') @ retriev_refs (sb s')). c < dZoneTotal (sb s')"
    using bnd lt by (auto simp: i' r') (simp_all add: s')
  have t: "dTail (sb s') = (if ch = [] then NULL_CLUSTER else last ch)"
    using tl by (simp add: s')
  have m: "unat (dZoneFree (sb s')) = length (insert_refs (sb s')) + length ch +
           (DZONE_CACHE_SIZE k - unat (cacheIdx (dZoneRetriev (sb s'))))"
    using cnt by (simp add: i') (simp add: s' f)
  show "free_inv k s'" and "free_chain s' = Some ch"
    using free_invI [OF p sz o d b t m] by simp_all
qed

lemma soFreeDataCluster_free_inv:
  assumes inv: "free_inv k st" and ok: "soFreeDataCluster k st nClust = Inr st'"
  shows "free_inv k st'"
    and "cacheIdx (dZoneInsert (sb st)) \<noteq> of_nat (DZONE_CACHE_SIZE k) \<Longrightarrow>
           free_chain st' = free_chain st \<and>
           dHead (sb st') = dHead (sb st) \<and> dTail (sb st') = dTail (sb st) \<and>
           insert_refs (sb st') = insert_refs (sb st) @ [nClust] \<and>
           dZoneRetriev (sb st') = dZoneRetriev (sb st) \<and>
           dZoneFree (sb st') = dZoneFree (sb st) + 1"
proof -
  let ?st1 = "st\<lparr>dzone := (dzone st)(nClust :=
                   (dzone st nClust)\<lparr>prev := NULL_CLUSTER, next := NULL_CLUSTER\<rparr>)\<rparr>"
  from soFreeDataCluster_Inr [OF ok] obtain dc_stat st2 where
    q: "soQCheckStatDC st nClust = Inr dc_stat" and nf: "dc_stat \<noteq> FREE_CLT"
    and lt: "nClust < dZoneTotal (sb st)"
    and dp: "(if cacheIdx (dZoneInsert (sb st)) = of_nat (DZONE_CACHE_SIZE k)
         then soDeplete ?st1 else Inr ?st1) = Inr st2"
    and idx: "unat (cacheIdx (dZoneInsert (sb st2))) < length (cache (dZoneInsert (sb st2)))"
    and st': "st' = st2\<lparr>sb := (sb st2)\<lparr>
            dZoneInsert := \<lparr>cacheIdx = cacheIdx (dZoneInsert (sb st2)) + 1,
                            cache = (cache (dZoneInsert (sb st2)))
                               [unat (cacheIdx (dZoneInsert (sb st2))) := nClust]\<rparr>,
            dZoneFree := dZoneFree (sb st2) + 1\<rparr>\<rparr>"
    by (auto simp: Let_def)
  from inv obtain ch where c: "free_chain st = Some ch"
    by (rule free_invD)
  from soQCheckStatDC_ALLOC [OF q nf c]
  have fresh: "nClust \<notin> set (ch @ insert_refs (sb st) @ retriev_refs (sb st))" .
  then have "\<forall>x\<in>set ch. nxt ?st1 x = nxt st x"
    by (auto simp: nxt_def)
  from free_inv_dzone [OF inv c _ this]
  have inv1: "free_inv k ?st1" and c1: "free_chain ?st1 = Some ch"
    by simp_all
  show "free_inv k st'"
  proof (cases "cacheIdx (dZoneInsert (sb st)) = of_nat (DZONE_CACHE_SIZE k)")
    case True
    with dp have d: "soDeplete ?st1 = Inr st2"
      by simp
    note e = soDeplete_free_inv [OF inv1 d c1]
    have "nClust \<notin> set ((ch @ insert_refs (sb ?st1)) @ insert_refs (sb st2) @ retriev_refs (sb st2))"
      using fresh e(4,6) by (simp add: retriev_refs_def)
    from push_free_inv(1) [OF e(1) e(2) this _ idx st'] lt e(8) show ?thesis
      by simp
  next
    case False
    with dp have s2: "st2 = ?st1"
      by simp
    from push_free_inv(1) [OF inv1 c1 _ _ idx [unfolded s2] st' [unfolded s2]] fresh lt
    show ?thesis
      by simp
  qed
  show "free_chain st' = free_chain st \<and>
           dHead (sb st') = dHead (sb st) \<and> dTail (sb st') = dTail (sb st) \<and>
           insert_refs (sb st') = insert_refs (sb st) @ [nClust] \<and>
           dZoneRetriev (sb st') = dZoneRetriev (sb st) \<and>
           dZoneFree (sb st') = dZoneFree (sb st) + 1"
    if "cacheIdx (dZoneInsert (sb st)) \<noteq> of_nat (DZONE_CACHE_SIZE k)"
  proof -
    from that dp have s2: "st2 = ?st1"
      by simp
    from push_free_inv(2,3) [OF inv1 c1 _ _ idx [unfolded s2] st' [unfolded s2]] fresh lt
    have "free_chain st' = Some ch" "insert_refs (sb st') = insert_refs (sb st) @ [nClust]"
      by simp_all
    then show ?thesis
      using c by (simp add: st' s2)
  qed
qed

section \<open>Free data clusters: \<open>soReplenish\<close>\<close>

lemma replenish_step_Inr:
  assumes "replenish_step n c s = Inr (nx, s')"
  shows "c < dZoneTotal (sb s)" and "n < length (cache (dZoneRetriev (sb s)))"
    and "nx = nxt s c"
    and "sb s' = (sb s)\<lparr>dZoneRetriev :=
           (dZoneRetriev (sb s))\<lparr>cache := (cache (dZoneRetriev (sb s)))[n := c]\<rparr>\<rparr>"
    and "dzone s' = (dzone s)(c := (dzone s c)\<lparr>prev := NULL_CLUSTER, next := NULL_CLUSTER\<rparr>)"
  using assms unfolding replenish_step_def Let_def
  by (auto simp: ebind_eq_Inr_iff nxt_def)

lemma replenish_loop1_effect:
  assumes "replenish_loop1 m n nL s = Inr (n', nL', s')"
      and "path (nxt s) nL xs NULL_CLUSTER" and "distinct xs"
  shows "\<exists>j. j = min m (length xs) \<and> n' = n + j \<and>
           path (nxt s') nL' (drop j xs) NULL_CLUSTER \<and>
           (j = 0 \<or> n + j \<le> length (cache (dZoneRetriev (sb s)))) \<and>
           sb s' = (sb s)\<lparr>dZoneRetriev := (dZoneRetriev (sb s))\<lparr>cache :=
                     take n (cache (dZoneRetriev (sb s))) @ take j xs @
                     drop (n + j) (cache (dZoneRetriev (sb s)))\<rparr>\<rparr> \<and>
           (\<forall>c\<in>set (take j xs). c < dZoneTotal (sb s)) \<and>
           (\<forall>c. c \<notin> set (take j xs) \<longrightarrow> dzone s' c = dzone s c)"
  using assms
proof (induction m arbitrary: n nL s xs)
  case 0
  then show ?case by simp
next
  case (Suc m)
  show ?case
  proof (cases "nL = NULL_CLUSTER")
    case True
    with Suc.prems have "xs = []" "n' = n" "nL' = nL" "s' = s"
      by (auto dest: path_NULL)
    with Suc.prems(2) show ?thesis by simp
  next
    case False
    with Suc.prems(2) obtain xs' where xs: "xs = nL # xs'"
      by (cases xs) auto
    let ?C = "cache (dZoneRetriev (sb s))"
    from Suc.prems(1) False obtain nx s1 where
      st: "replenish_step n nL s = Inr (nx, s1)"
      and lp: "replenish_loop1 m (n + 1) nx s1 = Inr (n', nL', s')"
      by (auto simp: ebind_eq_Inr_iff)
    note e = replenish_step_Inr [OF st]
    have nx1: "nxt s1 = (nxt s)(nL := NULL_CLUSTER)"
      by (rule ext) (simp add: nxt_def e(5))
    from Suc.prems(2,3) have p1: "path (nxt s1) nx xs' NULL_CLUSTER"
      using path_frame [of xs' "nxt s1" "nxt s"] by (auto simp: xs e(3) nx1)
    from Suc.prems(3) have d1: "distinct xs'"
      by (simp add: xs)
    from Suc.IH [OF lp p1 d1] obtain j where j: "j = min m (length xs')"
      and n': "n' = n + 1 + j"
      and p': "path (nxt s') nL' (drop j xs') NULL_CLUSTER"
      and le: "j = 0 \<or> n + 1 + j \<le> length (cache (dZoneRetriev (sb s1)))"
      and sb': "sb s' = (sb s1)\<lparr>dZoneRetriev := (dZoneRetriev (sb s1))\<lparr>cache :=
                     take (n + 1) (cache (dZoneRetriev (sb s1))) @ take j xs' @
                     drop (n + 1 + j) (cache (dZoneRetriev (sb s1)))\<rparr>\<rparr>"
      and b': "\<forall>c\<in>set (take j xs'). c < dZoneTotal (sb s1)"
      and f': "\<forall>c. c \<notin> set (take j xs') \<longrightarrow> dzone s' c = dzone s1 c"
      by blast
    have c1: "cache (dZoneRetriev (sb s1)) = ?C[n := nL]"
      by (simp add: e(4))
    have "take (n + 1) (?C[n := nL]) = take n ?C @ [nL]"
      using e(2) by (simp add: take_Suc_conv_app_nth)
    then have "sb s' = (sb s)\<lparr>dZoneRetriev := (dZoneRetriev (sb s))\<lparr>cache :=
                     take n ?C @ take (Suc j) xs @ drop (n + Suc j) ?C\<rparr>\<rparr>"
      by (simp add: sb' c1 xs) (simp add: e(4))
    moreover have "n + Suc j \<le> length ?C"
      using le e(2) by (auto simp: c1)
    moreover have "\<forall>c\<in>set (take (Suc j) xs). c < dZoneTotal (sb s)"
      using b' e(1) by (simp add: xs e(4))
    moreover have "\<forall>c. c \<notin> set (take (Suc j) xs) \<longrightarrow> dzone s' c = dzone s c"
      using f' by (simp add: xs e(5))
    ultimately show ?thesis
      using j n' p' by (intro exI [of _ "Suc j"]) (simp add: xs)
  qed
qed

lemma replenish_loop2_loop1:
  "replenish_loop2 m n nL s = Inr r \<Longrightarrow> replenish_loop1 m n nL s = Inr r"
proof (induction m arbitrary: n nL s)
  case 0
  then show ?case by simp
next
  case (Suc m)
  from Suc.prems obtain nx s1 where
    st: "replenish_step n nL s = Inr (nx, s1)"
    and lp: "replenish_loop2 m (n + 1) nx s1 = Inr r"
    by (auto simp: ebind_eq_Inr_iff)
  from replenish_step_Inr(1) [OF st] have "nL \<noteq> NULL_CLUSTER"
    by (rule less_not_NULL)
  with Suc.IH [OF lp] st show ?case
    by simp
qed

lemma replenish_loop2_count:
  "replenish_loop2 m n nL s = Inr (n', nL', s') \<Longrightarrow> n' = n + m"
  by (induction m arbitrary: n nL s) (fastforce simp: ebind_eq_Inr_iff)+

lemma soReplenish_Inr:
  assumes "soReplenish k st = Inr st'"
  shows "\<exists>n1 nL1 s1 n2 nL2 s2 s3.
    (let nctt = (if dZoneFree (sb st) < of_nat (DZONE_CACHE_SIZE k) then dZoneFree (sb st)
                  else of_nat (DZONE_CACHE_SIZE k))
     in
     replenish_loop1 (unat nctt) (DZONE_CACHE_SIZE k - unat nctt) (dHead (sb st)) st
       = Inr (n1, nL1, s1) \<and>
     (if n1 \<noteq> DZONE_CACHE_SIZE k then
               ebind (soDeplete (s1\<lparr>sb := (sb s1)\<lparr>dHead := NULL_CLUSTER, dTail := NULL_CLUSTER\<rparr>\<rparr>))
                 (\<lambda>st. replenish_loop2 (DZONE_CACHE_SIZE k - n1) n1 (dHead (sb st)) st)
             else Inr (n1, nL1, s1)) = Inr (n2, nL2, s2) \<and>
     (if nL2 \<noteq> NULL_CLUSTER then
               ebind (soReadCacheCluster s2 nL2) (\<lambda>dc.
               soWriteCacheCluster s2 nL2 (dc\<lparr>prev := NULL_CLUSTER\<rparr>))
             else Inr s2) = Inr s3 \<and>
     st' = s3\<lparr>sb :=
       (let p_sb = (sb s3)\<lparr>dZoneRetriev :=
                     (dZoneRetriev (sb s3))\<lparr>cacheIdx := of_nat (DZONE_CACHE_SIZE k) - nctt\<rparr>,
                   dHead := nL2\<rparr>
        in if nL2 = NULL_CLUSTER then p_sb\<lparr>dTail := NULL_CLUSTER\<rparr> else p_sb)\<rparr>)"
  using assms unfolding soReplenish_def soQCheckSuperBlock_def
  apply (simp only: echeck_None Let_def)
  apply (clarsimp simp: ebind_eq_Inr_iff split del: if_split cong: if_cong)
  done

lemma replenish_finish:
  assumes p: "path (nxt sx) nLx chx NULL_CLUSTER"
      and sz: "DZONE_CACHE_SIZE k < 2 ^ 32"
      and li: "length (cache (dZoneInsert (sb sx))) = DZONE_CACHE_SIZE k"
      and lr: "length (cache (dZoneRetriev (sb sx))) = DZONE_CACHE_SIZE k"
      and ii: "unat (cacheIdx (dZoneInsert (sb sx))) \<le> DZONE_CACHE_SIZE k"
      and nz: "nz \<le> DZONE_CACHE_SIZE k"
      and d: "distinct (chx @ insert_refs (sb sx) @ drop nz (cache (dZoneRetriev (sb sx))))"
      and b: "\<forall>c\<in>set (chx @ insert_refs (sb sx) @ drop nz (cache (dZoneRetriev (sb sx)))).
                c < dZoneTotal (sb sx)"
      and tl: "chx \<noteq> [] \<Longrightarrow> dTail (sb sx) = last chx"
      and cnt: "unat (dZoneFree (sb sx)) =
                  length (insert_refs (sb sx)) + length chx + (DZONE_CACHE_SIZE k - nz)"
      and fx: "(if nLx \<noteq> NULL_CLUSTER then
               ebind (soReadCacheCluster sx nLx) (\<lambda>dc.
               soWriteCacheCluster sx nLx (dc\<lparr>prev := NULL_CLUSTER\<rparr>))
             else Inr sx) = Inr sy"
      and st': "st' = sy\<lparr>sb :=
       (let p_sb = (sb sy)\<lparr>dZoneRetriev := (dZoneRetriev (sb sy))\<lparr>cacheIdx := idx\<rparr>,
                   dHead := nLx\<rparr>
        in if nLx = NULL_CLUSTER then p_sb\<lparr>dTail := NULL_CLUSTER\<rparr> else p_sb)\<rparr>"
      and idx: "unat idx = nz"
  shows "free_inv k st'" and "free_chain st' = Some chx"
    and "dZoneFree (sb st') = dZoneFree (sb sx)" and "dZoneTotal (sb st') = dZoneTotal (sb sx)"
    and "cacheIdx (dZoneRetriev (sb st')) = idx"
proof -
  from fx have sb3: "sb sy = sb sx" and nx3: "nxt sy = nxt sx"
    by (auto simp: ebind_eq_Inr_iff nxt_def fun_eq_iff split: if_splits)
  have sb': "sb st' = (sb sx)\<lparr>dZoneRetriev := (dZoneRetriev (sb sx))\<lparr>cacheIdx := idx\<rparr>,
       dHead := nLx, dTail := (if nLx = NULL_CLUSTER then NULL_CLUSTER else dTail (sb sx))\<rparr>"
    by (simp add: st' Let_def sb3)
  have nx': "nxt st' = nxt sx"
    by (simp add: st' nx3)
  have e: "nLx = NULL_CLUSTER \<longleftrightarrow> chx = []"
    using p by (cases chx) auto
  have i': "insert_refs (sb st') = insert_refs (sb sx)"
    and r': "retriev_refs (sb st') = drop nz (cache (dZoneRetriev (sb sx)))"
    by (simp_all add: sb' insert_refs_def retriev_refs_def idx)
  have p': "path (nxt st') (dHead (sb st')) chx NULL_CLUSTER"
    using p by (simp add: nx' sb')
  have o: "length (cache (dZoneInsert (sb st'))) = DZONE_CACHE_SIZE k"
    "length (cache (dZoneRetriev (sb st'))) = DZONE_CACHE_SIZE k"
    "unat (cacheIdx (dZoneInsert (sb st'))) \<le> DZONE_CACHE_SIZE k"
    "unat (cacheIdx (dZoneRetriev (sb st'))) \<le> DZONE_CACHE_SIZE k"
    using li lr ii nz idx by (simp_all add: sb')
  have d': "distinct (chx @ insert_refs (sb st') @ retriev_refs (sb st'))"
    using d by (simp add: i' r')
  have b': "\<forall>c\<in>set (chx @ insert_refs (sb st') @ retriev_refs (sb st')). c < dZoneTotal (sb st')"
    using b by (simp add: i' r') (simp add: sb')
  have t': "dTail (sb st') = (if chx = [] then NULL_CLUSTER else last chx)"
    using tl e by (simp add: sb')
  have m': "unat (dZoneFree (sb st')) = length (insert_refs (sb st')) + length chx +
           (DZONE_CACHE_SIZE k - unat (cacheIdx (dZoneRetriev (sb st'))))"
    using cnt by (simp add: i') (simp add: sb' idx)
  show "free_inv k st'" and "free_chain st' = Some chx"
    using free_invI [OF p' sz o d' b' t' m'] by simp_all
  show "dZoneFree (sb st') = dZoneFree (sb sx)" "dZoneTotal (sb st') = dZoneTotal (sb sx)"
    "cacheIdx (dZoneRetriev (sb st')) = idx"
    by (simp_all add: sb')
qed

lemma distinct_drop_take:
  assumes "distinct (xs @ ys)"
  shows "distinct (drop m xs @ ys @ take m xs)"
proof -
  from assms have "set (take m xs) \<inter> set (drop m xs) = {}"
    by (intro set_take_disj_set_drop_if_distinct) auto
  with assms show ?thesis
    by (auto dest: in_set_dropD in_set_takeD)
qed

lemma distinct_drop_take2:
  assumes "distinct (xs @ ys)"
  shows "distinct (drop m ys @ xs @ take m ys)"
proof -
  from assms have "set (take m ys) \<inter> set (drop m ys) = {}"
    by (intro set_take_disj_set_drop_if_distinct) auto
  with assms show ?thesis
    by (auto dest: in_set_dropD in_set_takeD)
qed

lemma soReplenish_free_inv:
  assumes inv: "free_inv k st" and c: "free_chain st = Some ch"
      and empty: "cacheIdx (dZoneRetriev (sb st)) = of_nat (DZONE_CACHE_SIZE k)"
      and ok: "soReplenish k st = Inr st'"
  shows "free_inv k st'"
    and "dZoneFree (sb st') = dZoneFree (sb st)"
    and "dZoneTotal (sb st') = dZoneTotal (sb st)"
    and "unat (cacheIdx (dZoneRetriev (sb st'))) =
           DZONE_CACHE_SIZE k - min (unat (dZoneFree (sb st))) (DZONE_CACHE_SIZE k)"
proof -
  let ?S = "DZONE_CACHE_SIZE k"
  let ?F = "unat (dZoneFree (sb st))"
  let ?C = "cache (dZoneRetriev (sb st))"
  let ?ins = "insert_refs (sb st)"
  from inv obtain ch' where c': "free_chain st = Some ch'"
    and ch': "path (nxt st) (dHead (sb st)) ch' NULL_CLUSTER"
    and sz: "?S < 2 ^ 32"
    and li: "length (cache (dZoneInsert (sb st))) = ?S"
    and lr: "length ?C = ?S"
    and ii: "unat (cacheIdx (dZoneInsert (sb st))) \<le> ?S"
    and ir: "unat (cacheIdx (dZoneRetriev (sb st))) \<le> ?S"
    and dist': "distinct (ch' @ ?ins @ retriev_refs (sb st))"
    and bnd': "\<forall>c\<in>set (ch' @ ?ins @ retriev_refs (sb st)). c < dZoneTotal (sb st)"
    and tl': "dTail (sb st) = (if ch' = [] then NULL_CLUSTER else last ch')"
    and cnt': "?F = length ?ins + length ch' + (?S - unat (cacheIdx (dZoneRetriev (sb st))))"
    by (rule free_invD)
  from c c' have e: "ch' = ch" by simp
  note ch = ch' [unfolded e] and tl = tl' [unfolded e]
  have uS: "unat (of_nat ?S :: u32) = ?S"
    using sz by (simp add: unat_of_nat)
  have ret: "retriev_refs (sb st) = []"
    using lr by (simp add: retriev_refs_def empty uS)
  have dist: "distinct (ch @ ?ins)" and bnd: "\<forall>c\<in>set (ch @ ?ins). c < dZoneTotal (sb st)"
    and cnt: "?F = length ?ins + length ch"
    using dist' bnd' cnt' by (simp_all add: e ret empty uS)
  define nctt where "nctt = (if dZoneFree (sb st) < of_nat ?S then dZoneFree (sb st) else of_nat ?S)"
  define m1 where "m1 = min ?F ?S"
  define n0 where "n0 = ?S - m1"
  have um: "unat nctt = m1"
    by (auto simp: nctt_def m1_def word_less_nat_alt uS)
  have "nctt \<le> of_nat ?S"
    by (simp add: word_le_nat_alt um uS m1_def)
  then have uidx: "unat (of_nat ?S - nctt) = n0"
    by (simp add: unat_sub um uS n0_def)
  have n0S: "n0 \<le> ?S" and m1S: "m1 \<le> ?S" and n0m: "?S - n0 = m1"
    by (simp_all add: n0_def m1_def)
  from soReplenish_Inr [OF ok] obtain n1 nL1 s1 n2 nL2 s2 s3 where
    l1: "replenish_loop1 m1 n0 (dHead (sb st)) st = Inr (n1, nL1, s1)"
    and mid: "(if n1 \<noteq> ?S then
               ebind (soDeplete (s1\<lparr>sb := (sb s1)\<lparr>dHead := NULL_CLUSTER, dTail := NULL_CLUSTER\<rparr>\<rparr>))
                 (\<lambda>st. replenish_loop2 (?S - n1) n1 (dHead (sb st)) st)
             else Inr (n1, nL1, s1)) = Inr (n2, nL2, s2)"
    and fx: "(if nL2 \<noteq> NULL_CLUSTER then
               ebind (soReadCacheCluster s2 nL2) (\<lambda>dc.
               soWriteCacheCluster s2 nL2 (dc\<lparr>prev := NULL_CLUSTER\<rparr>))
             else Inr s2) = Inr s3"
    and st': "st' = s3\<lparr>sb :=
       (let p_sb = (sb s3)\<lparr>dZoneRetriev :=
                     (dZoneRetriev (sb s3))\<lparr>cacheIdx := of_nat ?S - nctt\<rparr>,
                   dHead := nL2\<rparr>
        in if nL2 = NULL_CLUSTER then p_sb\<lparr>dTail := NULL_CLUSTER\<rparr> else p_sb)\<rparr>"
    unfolding Let_def nctt_def [symmetric] um n0_def [symmetric] by blast
  from dist have dch: "distinct ch" by simp
  from replenish_loop1_effect [OF l1 ch dch] obtain j1 where
    j1: "j1 = min m1 (length ch)" and n1: "n1 = n0 + j1"
    and p1: "path (nxt s1) nL1 (drop j1 ch) NULL_CLUSTER"
    and sb1: "sb s1 = (sb st)\<lparr>dZoneRetriev := (dZoneRetriev (sb st))\<lparr>cache :=
                     take n0 ?C @ take j1 ch @ drop (n0 + j1) ?C\<rparr>\<rparr>"
    by blast
  define C1 where "C1 = take n0 ?C @ take j1 ch @ drop (n0 + j1) ?C"
  have j1m: "j1 \<le> m1" and j1c: "j1 \<le> length ch"
    by (simp_all add: j1)
  have lC1: "length C1 = ?S"
    using lr n0S j1m j1c n0m by (simp add: C1_def)
  have f1: "dZoneFree (sb s1) = dZoneFree (sb st)" "dZoneTotal (sb s1) = dZoneTotal (sb st)"
    "dZoneInsert (sb s1) = dZoneInsert (sb st)" "dTail (sb s1) = dTail (sb st)"
    "cache (dZoneRetriev (sb s1)) = C1" "insert_refs (sb s1) = ?ins"
    by (simp_all add: sb1 C1_def insert_refs_def)
  have main: "free_inv k st' \<and> dZoneFree (sb st') = dZoneFree (sb st) \<and>
      dZoneTotal (sb st') = dZoneTotal (sb st) \<and>
      unat (cacheIdx (dZoneRetriev (sb st'))) = ?S - min ?F ?S"
  proof (cases "n1 = ?S")
    case True
    with mid have s2: "s2 = s1" "nL2 = nL1"
      by simp_all
    from True n1 n0m n0S have jm: "j1 = m1"
      by simp
    with j1c have mc: "m1 \<le> length ch"
      by simp
    have dr: "drop n0 C1 = take m1 ch"
      using lr n0S n0m by (simp add: C1_def jm)
    have t: "dTail (sb s1) = last (drop m1 ch)" if "drop m1 ch \<noteq> []"
      using that tl by (auto simp: f1 last_drop)
    have pA: "path (nxt s1) nL2 (drop m1 ch) NULL_CLUSTER"
      using p1 by (simp add: s2 jm)
    have dA: "distinct (drop m1 ch @ insert_refs (sb s1) @ drop n0 (cache (dZoneRetriev (sb s1))))"
      using distinct_drop_take [OF dist, of m1] by (simp add: f1 dr)
    have bA: "\<forall>c\<in>set (drop m1 ch @ insert_refs (sb s1) @ drop n0 (cache (dZoneRetriev (sb s1)))).
              c < dZoneTotal (sb s1)"
      using bnd by (auto simp: f1 dr dest: in_set_dropD in_set_takeD)
    have cA: "unat (dZoneFree (sb s1)) =
          length (insert_refs (sb s1)) + length (drop m1 ch) + (?S - n0)"
      using cnt mc by (simp add: f1 n0m)
    have fA: "(if nL2 \<noteq> NULL_CLUSTER then
               ebind (soReadCacheCluster s1 nL2) (\<lambda>dc.
               soWriteCacheCluster s1 nL2 (dc\<lparr>prev := NULL_CLUSTER\<rparr>))
             else Inr s1) = Inr s3"
      using fx unfolding s2 .
    have liA: "length (cache (dZoneInsert (sb s1))) = ?S"
      and lrA: "length (cache (dZoneRetriev (sb s1))) = ?S"
      and iiA: "unat (cacheIdx (dZoneInsert (sb s1))) \<le> ?S"
      using li lC1 ii by (simp_all add: f1)
    note fin = replenish_finish [OF pA sz liA lrA iiA n0S dA bA t cA fA st' uidx]
    from fin have "free_inv k st' \<and> dZoneFree (sb st') = dZoneFree (sb s1) \<and>
        dZoneTotal (sb st') = dZoneTotal (sb s1) \<and>
        cacheIdx (dZoneRetriev (sb st')) = of_nat ?S - nctt"
      by simp
    then show ?thesis
      by (simp add: f1 uidx n0_def m1_def)
  next
    case False
    with n1 n0m n0S j1m have jl: "j1 < m1"
      by simp
    with j1 have jc: "j1 = length ch" and cm: "length ch < m1"
      by simp_all
    from p1 jc have nL1: "nL1 = NULL_CLUSTER"
      by simp
    have n1e: "n1 = n0 + length ch" and n1S: "n1 \<le> ?S"
      using n1 jc cm n0m n0S by simp_all
    have C1e: "C1 = take n0 ?C @ ch @ drop n1 ?C"
      by (simp add: C1_def jc n1e)
    define sD0 where "sD0 = s1\<lparr>sb := (sb s1)\<lparr>dHead := NULL_CLUSTER, dTail := NULL_CLUSTER\<rparr>\<rparr>"
    from mid False obtain sD where dp: "soDeplete sD0 = Inr sD"
      and l2: "replenish_loop2 (?S - n1) n1 (dHead (sb sD)) sD = Inr (n2, nL2, s2)"
      by (auto simp: ebind_eq_Inr_iff sD0_def)
    have g0: "insert_refs (sb sD0) = ?ins" "dHead (sb sD0) = NULL_CLUSTER"
      "dTail (sb sD0) = NULL_CLUSTER" "dZoneInsert (sb sD0) = dZoneInsert (sb st)"
      "dZoneTotal (sb sD0) = dZoneTotal (sb st)" "dZoneFree (sb sD0) = dZoneFree (sb st)"
      "cache (dZoneRetriev (sb sD0)) = C1"
      by (simp_all add: sD0_def f1 insert_refs_def)
    have pD0: "path (nxt sD0) (dHead (sb sD0)) [] NULL_CLUSTER"
      by (simp add: g0)
    have tD0: "dTail (sb sD0) = (if ([] :: u32 list) = [] then NULL_CLUSTER else last [])"
      by (simp add: g0)
    have dD0: "distinct ([] @ insert_refs (sb sD0))"
      using dist by (simp add: g0)
    have lD0: "length (cache (dZoneInsert (sb sD0))) < 2 ^ 32"
      using li sz by (simp add: g0)
    note eff = soDeplete_effect [OF dp pD0 tD0 dD0 lD0]
    from eff(4) obtain c' where lc: "length c' = length (cache (dZoneInsert (sb sD0)))"
      and sbD: "sb sD = (sb sD0)\<lparr>dTail := last (insert_refs (sb sD0)),
               dHead := (if ([] :: u32 list) = [] then hd (insert_refs (sb sD0)) else dHead (sb sD0)),
               dZoneInsert := \<lparr>cacheIdx = 0, cache = c'\<rparr>\<rparr>"
      by blast
    have gD: "dZoneFree (sb sD) = dZoneFree (sb st)" "dZoneTotal (sb sD) = dZoneTotal (sb st)"
      "cache (dZoneRetriev (sb sD)) = C1" "dTail (sb sD) = last ?ins"
      "dZoneInsert (sb sD) = \<lparr>cacheIdx = 0, cache = c'\<rparr>"
      by (simp_all add: sbD g0)
    from dist have di: "distinct ?ins"
      by simp
    have pD: "path (nxt sD) (dHead (sb sD)) ?ins NULL_CLUSTER"
      using eff(2) by (simp add: g0)
    from replenish_loop1_effect [OF replenish_loop2_loop1 [OF l2] pD di] obtain j2 where
      j2: "j2 = min (?S - n1) (length ?ins)" and n2: "n2 = n1 + j2"
      and p2: "path (nxt s2) nL2 (drop j2 ?ins) NULL_CLUSTER"
      and sb2: "sb s2 = (sb sD)\<lparr>dZoneRetriev := (dZoneRetriev (sb sD))\<lparr>cache :=
                     take n1 (cache (dZoneRetriev (sb sD))) @ take j2 ?ins @
                     drop (n1 + j2) (cache (dZoneRetriev (sb sD)))\<rparr>\<rparr>"
      by blast
    from replenish_loop2_count [OF l2] n2 have j2e: "j2 = ?S - n1"
      by simp
    with j2 have j2i: "j2 \<le> length ?ins"
      by simp
    have "take n1 C1 = take n0 ?C @ ch" "drop (n1 + j2) C1 = []"
      using lr n0S n1S lC1 by (simp_all add: C1e n1e j2e)
    then have c2: "cache (dZoneRetriev (sb s2)) = take n0 ?C @ ch @ take j2 ?ins"
      by (simp add: sb2 gD)
    have dr: "drop n0 (cache (dZoneRetriev (sb s2))) = ch @ take j2 ?ins"
      using lr n0S by (simp add: c2)
    have g2: "insert_refs (sb s2) = []" "dZoneFree (sb s2) = dZoneFree (sb st)"
      "dZoneTotal (sb s2) = dZoneTotal (sb st)" "dTail (sb s2) = last ?ins"
      "dZoneInsert (sb s2) = \<lparr>cacheIdx = 0, cache = c'\<rparr>"
      by (simp_all add: sb2 gD insert_refs_def)
    have pB: "path (nxt s2) nL2 (drop j2 ?ins) NULL_CLUSTER"
      by (rule p2)
    have liB: "length (cache (dZoneInsert (sb s2))) = ?S"
      and lrB: "length (cache (dZoneRetriev (sb s2))) = ?S"
      and iiB: "unat (cacheIdx (dZoneInsert (sb s2))) \<le> ?S"
      using li lc lr n0S n1S j2i by (simp_all add: g2 g0 c2 n1e j2e)
    have dB: "distinct (drop j2 ?ins @ insert_refs (sb s2) @ drop n0 (cache (dZoneRetriev (sb s2))))"
      using distinct_drop_take2 [OF dist, of j2] by (simp add: g2 dr)
    have bB: "\<forall>c\<in>set (drop j2 ?ins @ insert_refs (sb s2) @ drop n0 (cache (dZoneRetriev (sb s2)))).
              c < dZoneTotal (sb s2)"
      using bnd by (auto simp: g2 dr dest: in_set_dropD in_set_takeD)
    have tB: "dTail (sb s2) = last (drop j2 ?ins)" if "drop j2 ?ins \<noteq> []"
      using that by (simp add: g2 last_drop)
    have cB: "unat (dZoneFree (sb s2)) =
          length (insert_refs (sb s2)) + length (drop j2 ?ins) + (?S - n0)"
      using cnt cm j2i n0m n0S n1S by (simp add: g2 j2e n1e)
    note fin = replenish_finish [OF pB sz liB lrB iiB n0S dB bB tB cB fx st' uidx]
    from fin have "free_inv k st' \<and> dZoneFree (sb st') = dZoneFree (sb s2) \<and>
        dZoneTotal (sb st') = dZoneTotal (sb s2) \<and>
        cacheIdx (dZoneRetriev (sb st')) = of_nat ?S - nctt"
      by simp
    then show ?thesis
      by (simp add: g2 uidx n0_def m1_def)
  qed
  then show "free_inv k st'" "dZoneFree (sb st') = dZoneFree (sb st)"
    "dZoneTotal (sb st') = dZoneTotal (sb st)"
    "unat (cacheIdx (dZoneRetriev (sb st'))) = ?S - min ?F ?S"
    by simp_all
qed

section \<open>Free data clusters: \<open>soAllocDataCluster\<close>\<close>

lemma soAllocDataCluster_Inr:
  assumes "soAllocDataCluster k st nInode p_nClust = Inr (nClust, st')"
  shows "\<exists>st1 st2 nstat.
    dZoneFree (sb st) \<noteq> 0 \<and>
    (if cacheIdx (dZoneRetriev (sb st)) = of_nat (DZONE_CACHE_SIZE k)
             then soReplenish k st else Inr st) = Inr st1 \<and>
    unat (cacheIdx (dZoneRetriev (sb st1))) < length (cache (dZoneRetriev (sb st1))) \<and>
    nClust = cache (dZoneRetriev (sb st1)) ! unat (cacheIdx (dZoneRetriev (sb st1))) \<and>
    soQCheckStatDC st1 nClust = Inr nstat \<and>
    nClust < dZoneTotal (sb st1) \<and>
    (if stat (dzone st1 nClust) \<noteq> NULL_INODE
     then soCleanDataCluster k st1 (stat (dzone st1 nClust)) nClust
     else Inr st1) = Inr st2 \<and>
    unat (cacheIdx (dZoneRetriev (sb st2))) < length (cache (dZoneRetriev (sb st2))) \<and>
    nClust < dZoneTotal (sb st2) \<and>
    st' = st2\<lparr>sb := (sb st2)\<lparr>dZoneRetriev :=
                 \<lparr>cacheIdx = cacheIdx (dZoneRetriev (sb st2)) + 1,
                  cache = (cache (dZoneRetriev (sb st2)))
                     [unat (cacheIdx (dZoneRetriev (sb st2))) := NULL_CLUSTER]\<rparr>,
               dZoneFree := dZoneFree (sb st2) - 1\<rparr>,
             dzone := (dzone st2)(nClust := (dzone st1 nClust)
                \<lparr>prev := NULL_CLUSTER, next := NULL_CLUSTER, stat := nInode\<rparr>)\<rparr>"
  using assms unfolding soAllocDataCluster_def soQCheckDZ_def Let_def
  apply (simp only: echeck_None)
  apply (clarsimp simp: ebind_eq_Inr_iff echeck_eq_Inr_iff split del: if_split cong: if_cong
      split: if_split_asm)
  apply (erule disjE; clarsimp)
  done

lemma pop_free_inv:
  assumes inv: "free_inv k s" and c: "free_chain s = Some ch"
      and idx: "unat (cacheIdx (dZoneRetriev (sb s))) < length (cache (dZoneRetriev (sb s)))"
      and n: "n = cache (dZoneRetriev (sb s)) ! unat (cacheIdx (dZoneRetriev (sb s)))"
      and s': "s' = s\<lparr>sb := (sb s)\<lparr>dZoneRetriev :=
                 \<lparr>cacheIdx = cacheIdx (dZoneRetriev (sb s)) + 1,
                  cache = (cache (dZoneRetriev (sb s)))
                     [unat (cacheIdx (dZoneRetriev (sb s))) := NULL_CLUSTER]\<rparr>,
               dZoneFree := dZoneFree (sb s) - 1\<rparr>,
             dzone := (dzone s)(n := dc)\<rparr>"
  shows "free_inv k s'" and "free_chain s' = Some ch"
    and "retriev_refs (sb s) = n # retriev_refs (sb s')"
    and "insert_refs (sb s') = insert_refs (sb s)"
proof -
  from inv obtain ch' where c': "free_chain s = Some ch'"
    and ch': "path (nxt s) (dHead (sb s)) ch' NULL_CLUSTER"
    and sz: "DZONE_CACHE_SIZE k < 2 ^ 32"
    and li: "length (cache (dZoneInsert (sb s))) = DZONE_CACHE_SIZE k"
    and lr: "length (cache (dZoneRetriev (sb s))) = DZONE_CACHE_SIZE k"
    and ii: "unat (cacheIdx (dZoneInsert (sb s))) \<le> DZONE_CACHE_SIZE k"
    and ir: "unat (cacheIdx (dZoneRetriev (sb s))) \<le> DZONE_CACHE_SIZE k"
    and dist': "distinct (ch' @ insert_refs (sb s) @ retriev_refs (sb s))"
    and bnd': "\<forall>c\<in>set (ch' @ insert_refs (sb s) @ retriev_refs (sb s)). c < dZoneTotal (sb s)"
    and tl': "dTail (sb s) = (if ch' = [] then NULL_CLUSTER else last ch')"
    and cnt': "unat (dZoneFree (sb s)) = length (insert_refs (sb s)) + length ch' +
           (DZONE_CACHE_SIZE k - unat (cacheIdx (dZoneRetriev (sb s))))"
    by (rule free_invD)
  from c c' have e: "ch' = ch" by simp
  note ch = ch' [unfolded e] and dist = dist' [unfolded e] and bnd = bnd' [unfolded e]
    and tl = tl' [unfolded e] and cnt = cnt' [unfolded e]
  let ?i = "unat (cacheIdx (dZoneRetriev (sb s)))"
  let ?C = "cache (dZoneRetriev (sb s))"
  have u: "unat (cacheIdx (dZoneRetriev (sb s)) + 1) = Suc ?i"
    using idx lr sz by (intro unat_Suc_u32) auto
  have r: "retriev_refs (sb s) = n # drop (Suc ?i) ?C"
    using idx by (simp add: retriev_refs_def n Cons_nth_drop_Suc)
  have r': "retriev_refs (sb s') = drop (Suc ?i) ?C"
    by (simp add: s' retriev_refs_def u)
  show "retriev_refs (sb s) = n # retriev_refs (sb s')"
    by (simp add: r r')
  show i': "insert_refs (sb s') = insert_refs (sb s)"
    by (simp add: s' insert_refs_def)
  have nch: "n \<notin> set ch"
    using dist by (auto simp: r)
  have f0: "dZoneFree (sb s) \<noteq> 0"
    using cnt idx lr by (auto simp: unat_eq_0)
  have f: "unat (dZoneFree (sb s) - 1) = unat (dZoneFree (sb s)) - 1"
    using f0 by (rule unat_minus_one)
  have "\<forall>x\<in>set ch. nxt s' x = nxt s x"
    using nch by (auto simp: s' nxt_def)
  then have p: "path (nxt s') (dHead (sb s')) ch NULL_CLUSTER"
    using ch path_frame [of ch "nxt s'" "nxt s"] by (simp add: s')
  have o: "length (cache (dZoneInsert (sb s'))) = DZONE_CACHE_SIZE k"
    "length (cache (dZoneRetriev (sb s'))) = DZONE_CACHE_SIZE k"
    "unat (cacheIdx (dZoneInsert (sb s'))) \<le> DZONE_CACHE_SIZE k"
    "unat (cacheIdx (dZoneRetriev (sb s'))) \<le> DZONE_CACHE_SIZE k"
    using li lr ii idx by (simp_all add: s' u)
  have d: "distinct (ch @ insert_refs (sb s') @ retriev_refs (sb s'))"
    using dist by (simp add: i' r r')
  have b: "\<forall>c\<in>set (ch @ insert_refs (sb s') @ retriev_refs (sb s')). c < dZoneTotal (sb s')"
    using bnd by (simp add: i' r r') (simp add: s')
  have t: "dTail (sb s') = (if ch = [] then NULL_CLUSTER else last ch)"
    using tl by (simp add: s')
  have m: "unat (dZoneFree (sb s')) = length (insert_refs (sb s')) + length ch +
           (DZONE_CACHE_SIZE k - unat (cacheIdx (dZoneRetriev (sb s'))))"
    using cnt idx lr by (simp add: i') (simp add: s' f u)
  show "free_inv k s'" and "free_chain s' = Some ch"
    using free_invI [OF p sz o d b t m] by simp_all
qed

lemma soAllocDataCluster_free_inv:
  assumes inv: "free_inv k st"
      and clean: "\<forall>s nI nC s'. free_inv k s \<and> soCleanDataCluster k s nI nC = Inr s' \<longrightarrow>
                    free_inv k s' \<and> dZoneRetriev (sb s') = dZoneRetriev (sb s)"
      and ok: "soAllocDataCluster k st nInode p_nClust = Inr (nClust, st')"
  shows "free_inv k st'"
    and "cacheIdx (dZoneRetriev (sb st)) \<noteq> of_nat (DZONE_CACHE_SIZE k) \<Longrightarrow>
         stat (dzone st nClust) = NULL_INODE \<Longrightarrow>
           free_chain st' = free_chain st \<and>
           dHead (sb st') = dHead (sb st) \<and> dTail (sb st') = dTail (sb st) \<and>
           retriev_refs (sb st) = nClust # retriev_refs (sb st') \<and>
           dZoneInsert (sb st') = dZoneInsert (sb st) \<and>
           dZoneFree (sb st') = dZoneFree (sb st) - 1"
proof -
  from soAllocDataCluster_Inr [OF ok] obtain st1 st2 nstat where
    nz: "dZoneFree (sb st) \<noteq> 0"
    and rp: "(if cacheIdx (dZoneRetriev (sb st)) = of_nat (DZONE_CACHE_SIZE k)
             then soReplenish k st else Inr st) = Inr st1"
    and nc: "nClust = cache (dZoneRetriev (sb st1)) ! unat (cacheIdx (dZoneRetriev (sb st1)))"
    and cl: "(if stat (dzone st1 nClust) \<noteq> NULL_INODE
     then soCleanDataCluster k st1 (stat (dzone st1 nClust)) nClust
     else Inr st1) = Inr st2"
    and idx: "unat (cacheIdx (dZoneRetriev (sb st2))) < length (cache (dZoneRetriev (sb st2)))"
    and st': "st' = st2\<lparr>sb := (sb st2)\<lparr>dZoneRetriev :=
                 \<lparr>cacheIdx = cacheIdx (dZoneRetriev (sb st2)) + 1,
                  cache = (cache (dZoneRetriev (sb st2)))
                     [unat (cacheIdx (dZoneRetriev (sb st2))) := NULL_CLUSTER]\<rparr>,
               dZoneFree := dZoneFree (sb st2) - 1\<rparr>,
             dzone := (dzone st2)(nClust := (dzone st1 nClust)
                \<lparr>prev := NULL_CLUSTER, next := NULL_CLUSTER, stat := nInode\<rparr>)\<rparr>"
    by blast
  from inv obtain ch where c: "free_chain st = Some ch"
    by (rule free_invD)
  have inv1: "free_inv k st1"
  proof (cases "cacheIdx (dZoneRetriev (sb st)) = of_nat (DZONE_CACHE_SIZE k)")
    case True
    with rp have "soReplenish k st = Inr st1"
      by simp
    from soReplenish_free_inv(1) [OF inv c True this] show ?thesis .
  next
    case False
    with rp inv show ?thesis
      by simp
  qed
  have inv2: "free_inv k st2" and r2: "dZoneRetriev (sb st2) = dZoneRetriev (sb st1)"
    using cl clean inv1 by (auto split: if_splits)
  from inv2 obtain ch2 where c2: "free_chain st2 = Some ch2"
    by (rule free_invD)
  have n2: "nClust = cache (dZoneRetriev (sb st2)) ! unat (cacheIdx (dZoneRetriev (sb st2)))"
    by (simp add: nc r2)
  from pop_free_inv(1) [OF inv2 c2 idx n2 st'] show "free_inv k st'" .
  show "free_chain st' = free_chain st \<and>
           dHead (sb st') = dHead (sb st) \<and> dTail (sb st') = dTail (sb st) \<and>
           retriev_refs (sb st) = nClust # retriev_refs (sb st') \<and>
           dZoneInsert (sb st') = dZoneInsert (sb st) \<and>
           dZoneFree (sb st') = dZoneFree (sb st) - 1"
    if ne: "cacheIdx (dZoneRetriev (sb st)) \<noteq> of_nat (DZONE_CACHE_SIZE k)"
      and clean_clt: "stat (dzone st nClust) = NULL_INODE"
  proof -
    from rp ne have s1: "st1 = st"
      by simp
    with cl clean_clt have s2: "st2 = st"
      by simp
    from pop_free_inv(2,3) [OF inv2 c2 idx n2 st'] c2 c show ?thesis
      by (simp add: s2) (simp add: st' s2)
  qed
qed

section \<open>Free data clusters: the invariant\<close>

lemma free_inv_count: "free_inv k st \<Longrightarrow> free_count_ok k st"
  by (auto simp: free_inv_def free_count_ok_def Let_def split: option.splits)

lemmas inv_simps = free_inv_def free_count_ok_def free_chain_def insert_refs_def retriev_refs_def

lemma fs0_inv: "free_inv tiny fs0"
  by (simp add: inv_simps tiny_defs run_simps split del: if_split cong: eval_congs)



section \<open>Free data clusters: the idle cases\<close>




end
